(* ===== verification/Prelude.thy ===== *)
theory Prelude
  imports Complex_Main "HOL-Library.Multiset"
begin

text \<open>
  The shared prelude of the development: the exceptions the services can raise and the
  result type they are returned in, rows of a database table as lists with the SQL
  operations the Django ORM issues on them (\<open>get\<close>, \<open>first\<close>, UPDATE, DELETE), the JSON
  values stored in payload columns with Python's truth test, and the generic lemmas and
  collections (\<open>result_simps\<close>, \<open>row_simps\<close>) the component proofs use.
\<close>

named_theorems result_simps "rewriting of results and their sequencing"
named_theorems row_simps "rewriting of the row operations"
named_theorems db_defs "definitions of the primitive database operations"

section \<open>Exceptions and results\<close>

text \<open>
  The exceptions that can leave a service or a handler: those of the ORM and of Python that
  the services' statements can raise, those of \<open>jobs/domain/exceptions.py\<close>, the
  \<open>ValueError\<close> of the handler registry and any other exception of a handler. Those raised by
  a \<open>raise\<close> of the repository carry the message they are raised with.
\<close>

datatype exn =
    DoesNotExist
  | MultipleObjectsReturned
  | IntegrityError
  | DataError
  | AttributeError
  | TypeError
  | OverflowError
  | ValueError string
  | BrokerError string
  | JobError string
  | RetryableJobError string
  | PermanentJobError string
  | InvalidJobTransition string
  | OtherError string

type_synonym 'a result = "exn + 'a"

text \<open>Sequencing: the statement after one that may raise runs only if it did not.\<close>

definition result_bind :: "'a result \<Rightarrow> ('a \<Rightarrow> 'b result) \<Rightarrow> 'b result" where
  "result_bind r f = (case r of Inl e \<Rightarrow> Inl e | Inr x \<Rightarrow> f x)"

lemma result_bind_simps [simp, result_simps]:
  "result_bind (Inl e) f = Inl e"
  "result_bind (Inr x) f = f x"
  by (simp_all add: result_bind_def)

lemma result_bind_eq_Inr [result_simps]:
  "result_bind r f = Inr y \<longleftrightarrow> (\<exists>x. r = Inr x \<and> f x = Inr y)"
  by (cases r) simp_all

lemma result_bind_eq_Inl [result_simps]:
  "result_bind r f = Inl e \<longleftrightarrow> r = Inl e \<or> (\<exists>x. r = Inr x \<and> f x = Inl e)"
  by (cases r) simp_all

lemma if_eq_Inr [result_simps]:
  "(if b then Inl e else r) = Inr y \<longleftrightarrow> \<not> b \<and> r = Inr y"
  by simp

text \<open>
  A loop over items outside a transaction: what the iterations before an exception committed
  stays. \<open>commit\<close> makes such an iteration of a transaction.
\<close>

fun for_each :: "('a \<Rightarrow> 's \<Rightarrow> unit result \<times> 's) \<Rightarrow> 'a list \<Rightarrow> 's \<Rightarrow> unit result \<times> 's" where
  "for_each f [] s = (Inr (), s)"
| "for_each f (x # xs) s =
     (case f x s of (Inl e, s1) \<Rightarrow> (Inl e, s1) | (Inr _, s1) \<Rightarrow> for_each f xs s1)"

definition commit :: "'s result \<Rightarrow> 's \<Rightarrow> unit result \<times> 's" where
  "commit r s = (case r of Inl e \<Rightarrow> (Inl e, s) | Inr s1 \<Rightarrow> (Inr (), s1))"

lemma commit_simps [simp]: "commit (Inl e) s = (Inl e, s)" "commit (Inr s1) s = (Inr (), s1)"
  by (simp_all add: commit_def)

text \<open>What every iteration keeps, the loop keeps, whether it ends or is cut short.\<close>

lemma for_each_invariant:
  assumes "\<And>x s. x \<in> set xs \<Longrightarrow> I s \<Longrightarrow> I (snd (f x s))" and "I s"
  shows "I (snd (for_each f xs s))"
  using assms
proof (induction xs arbitrary: s)
  case (Cons x xs)
  obtain r s1 where step: "f x s = (r, s1)" by (cases "f x s")
  then have "I s1" using Cons.prems(1) [of x s] Cons.prems(2) by simp
  then show ?case using Cons.IH [of s1] Cons.prems(1) step by (cases r) auto
qed simp

lemma commit_invariant: "I s \<Longrightarrow> (\<And>s1. r = Inr s1 \<Longrightarrow> I s1) \<Longrightarrow> I (snd (commit r s))"
  by (cases r) simp_all

text \<open>A transaction made of one transaction part per item: the first exception is its own.\<close>

fun try_each :: "('a \<Rightarrow> 's \<Rightarrow> 's result) \<Rightarrow> 'a list \<Rightarrow> 's \<Rightarrow> 's result" where
  "try_each f [] s = Inr s"
| "try_each f (x # xs) s = result_bind (f x s) (try_each f xs)"

lemma try_each_invariant:
  assumes "\<And>x s s1. x \<in> set xs \<Longrightarrow> I s \<Longrightarrow> f x s = Inr s1 \<Longrightarrow> I s1"
    and "I s" and "try_each f xs s = Inr s'"
  shows "I s'"
  using assms
proof (induction xs arbitrary: s)
  case (Cons x xs)
  from Cons.prems(3) obtain s1 where "f x s = Inr s1" and rest: "try_each f xs s1 = Inr s'"
    by (auto simp: result_bind_eq_Inr)
  then have "I s1" using Cons.prems(1) [of x s s1] Cons.prems(2) by simp
  show ?case by (rule Cons.IH [OF _ \<open>I s1\<close> rest]) (use Cons.prems(1) in auto)
qed simp

section \<open>Rows of a table\<close>

text \<open>
  A table is the list of its rows in the order in which the database returns them to a query
  that asks for no order; SQL leaves that order open, and the step relation of the system may
  permute it at any time.
\<close>

definition row_get :: "('r \<Rightarrow> 'k) \<Rightarrow> 'k \<Rightarrow> 'r list \<Rightarrow> 'r result" where
  "row_get key k rows =
     (case filter (\<lambda>r. key r = k) rows of
        [] \<Rightarrow> Inl DoesNotExist
      | [r] \<Rightarrow> Inr r
      | _ \<Rightarrow> Inl MultipleObjectsReturned)"

definition row_first :: "('r \<Rightarrow> 'k::linorder) \<Rightarrow> 'r list \<Rightarrow> 'r option" where
  "row_first key rows = (case sort_key key rows of [] \<Rightarrow> None | r # _ \<Rightarrow> Some r)"

definition rows_update :: "('r \<Rightarrow> bool) \<Rightarrow> ('r \<Rightarrow> 'r) \<Rightarrow> 'r list \<Rightarrow> 'r list" where
  "rows_update P f rows = map (\<lambda>r. if P r then f r else r) rows"

definition rows_delete :: "('r \<Rightarrow> bool) \<Rightarrow> 'r list \<Rightarrow> 'r list" where
  "rows_delete P rows = filter (\<lambda>r. \<not> P r) rows"

definition rows_count :: "('r \<Rightarrow> bool) \<Rightarrow> 'r list \<Rightarrow> nat" where
  "rows_count P rows = length (filter P rows)"

lemma row_get_Inr_D: "row_get key k rows = Inr r \<Longrightarrow> r \<in> set rows \<and> key r = k"
proof -
  assume "row_get key k rows = Inr r"
  then have "filter (\<lambda>r. key r = k) rows = [r]"
    by (auto simp: row_get_def split: list.splits)
  then have "r \<in> set (filter (\<lambda>r. key r = k) rows)" by simp
  then show ?thesis by simp
qed

lemma distinct_map_Cons:
  "distinct (map key (s # rows)) \<longleftrightarrow> (\<forall>r \<in> set rows. key r \<noteq> key s) \<and> distinct (map key rows)"
  by (induction rows) auto

lemma filter_key_singleton:
  "distinct (map key rows) \<Longrightarrow> r \<in> set rows \<Longrightarrow> key r = k \<Longrightarrow> filter (\<lambda>r. key r = k) rows = [r]"
  by (induction rows) (auto simp only: distinct_map_Cons filter.simps list.set insert_iff filter_empty_conv
      split: if_splits)

lemma row_get_distinct [row_simps]:
  assumes "distinct (map key rows)"
  shows "row_get key k rows = Inr r \<longleftrightarrow> r \<in> set rows \<and> key r = k"
  using filter_key_singleton [OF assms] row_get_Inr_D [of key k rows r]
  by (auto simp: row_get_def)

lemma row_get_absent: "row_get key k rows = Inl DoesNotExist \<longleftrightarrow> (\<forall>r \<in> set rows. key r \<noteq> k)"
proof -
  have "row_get key k rows = Inl DoesNotExist \<longleftrightarrow> filter (\<lambda>r. key r = k) rows = []"
    by (auto simp: row_get_def split: list.splits)
  then show ?thesis by (simp add: filter_empty_conv)
qed

lemma row_get_Inl_distinct:
  assumes "distinct (map key rows)" and "row_get key k rows = Inl e"
  shows "e = DoesNotExist" and "\<forall>r \<in> set rows. key r \<noteq> k"
proof -
  show "\<forall>r \<in> set rows. key r \<noteq> k"
    using assms row_get_distinct [OF assms(1), of k] by fastforce
  then show "e = DoesNotExist"
    using assms(2) row_get_absent [of key k rows] by simp
qed

lemma row_first_None [row_simps]: "row_first key rows = None \<longleftrightarrow> rows = []"
  by (auto simp: row_first_def split: list.splits)
     (metis length_0_conv length_sort)

lemma row_first_Some_D:
  assumes "row_first key rows = Some r"
  shows "r \<in> set rows" and "\<forall>s \<in> set rows. key r \<le> key s"
proof -
  obtain rs where rs: "sort_key key rows = r # rs"
    using assms by (auto simp: row_first_def split: list.splits)
  then have mem: "set rows = insert r (set rs)"
    by (metis list.simps(15) set_sort)
  then show "r \<in> set rows" by simp
  have "sorted (map key (r # rs))" using rs by (metis sorted_sort_key)
  then show "\<forall>s \<in> set rows. key r \<le> key s" using mem by auto
qed

lemma set_rows_update [row_simps]:
  "set (rows_update P f rows) = (\<lambda>r. if P r then f r else r) ` set rows"
  by (simp add: rows_update_def)

lemma set_rows_delete [row_simps]: "set (rows_delete P rows) = {r \<in> set rows. \<not> P r}"
  by (simp add: rows_delete_def)

lemma map_rows_update [row_simps]:
  "(\<And>r. r \<in> set rows \<Longrightarrow> P r \<Longrightarrow> g (f r) = g r) \<Longrightarrow> map g (rows_update P f rows) = map g rows"
  by (simp add: rows_update_def)

lemma distinct_rows_delete [row_simps]:
  "distinct (map g rows) \<Longrightarrow> distinct (map g (rows_delete P rows))"
  by (simp add: rows_delete_def distinct_map_filter)

lemma rows_update_none [row_simps]:
  "(\<And>r. r \<in> set rows \<Longrightarrow> \<not> P r) \<Longrightarrow> rows_update P f rows = rows"
  by (induction rows) (auto simp: rows_update_def)

lemma rows_delete_none [row_simps]:
  "(\<And>r. r \<in> set rows \<Longrightarrow> \<not> P r) \<Longrightarrow> rows_delete P rows = rows"
  by (simp add: rows_delete_def filter_id_conv)

lemma rows_count_append [row_simps]:
  "rows_count Q (rows @ [r]) = rows_count Q rows + (if Q r then 1 else 0)"
  by (simp add: rows_count_def)

lemma rows_count_update_same [row_simps]:
  assumes "\<And>r. r \<in> set rows \<Longrightarrow> P r \<Longrightarrow> Q (f r) = Q r"
  shows "rows_count Q (rows_update P f rows) = rows_count Q rows"
  using assms by (induction rows) (auto simp: rows_count_def rows_update_def)

lemma rows_count_delete_key:
  assumes "distinct (map key rows)" and "r \<in> set rows"
  shows "rows_count Q (rows_delete (\<lambda>s. key s = key r) rows) + (if Q r then 1 else 0)
    = rows_count Q rows"
  using assms
proof (induction rows)
  case (Cons s rows)
  show ?case
  proof (cases "s = r")
    case True
    with Cons.prems(1) have "rows_delete (\<lambda>s. key s = key r) rows = rows"
      by (intro rows_delete_none) (auto simp only: distinct_map_Cons)
    with True show ?thesis by (simp add: rows_count_def rows_delete_def)
  next
    case False
    with Cons.prems have "key s \<noteq> key r" and "distinct (map key rows)" and "r \<in> set rows"
      by (auto simp only: distinct_map_Cons list.set insert_iff)
    with Cons.IH show ?thesis by (simp add: rows_count_def rows_delete_def)
  qed
qed simp

lemma rows_count_mono:
  "(\<And>r. r \<in> set rows \<Longrightarrow> P r \<Longrightarrow> Q r) \<Longrightarrow> rows_count P rows \<le> rows_count Q rows"
  by (induction rows) (auto simp: rows_count_def)

lemma rows_count_mset: "mset rows = mset rows' \<Longrightarrow> rows_count P rows = rows_count P rows'"
  by (metis mset_filter rows_count_def size_mset)

lemma distinct_map_mset:
  "mset rows = mset rows' \<Longrightarrow> distinct (map key rows) = distinct (map key rows')"
  by (metis mset_eq_imp_distinct_iff mset_map)

section \<open>JSON columns\<close>

text \<open>
  The values of a \<open>JSONField\<close> as Python sees them. Python floats are read as rationals: only
  comparisons are made with them. \<open>JNull\<close> is also Python's \<open>None\<close>.
\<close>

datatype json =
    JNull
  | JBool bool
  | JInt int
  | JFloat rat
  | JStr string
  | JList "json list"
  | JObj "(string \<times> json) list"

text \<open>Python's truth test \<open>if v\<close>.\<close>

fun truthy :: "json \<Rightarrow> bool" where
  "truthy JNull = False"
| "truthy (JBool b) = b"
| "truthy (JInt i) = (i \<noteq> 0)"
| "truthy (JFloat x) = (x \<noteq> 0)"
| "truthy (JStr s) = (s \<noteq> [])"
| "truthy (JList xs) = (xs \<noteq> [])"
| "truthy (JObj kvs) = (kvs \<noteq> [])"

text \<open>
  \<open>v.get(k, default)\<close> and \<open>v.get(k)\<close>: only a dict has the method, a list, a string or a number
  raises \<open>AttributeError\<close>.
\<close>

fun json_get_default :: "json \<Rightarrow> string \<Rightarrow> json \<Rightarrow> json result" where
  "json_get_default (JObj kvs) k dflt = Inr (case map_of kvs k of None \<Rightarrow> dflt | Some v \<Rightarrow> v)"
| "json_get_default _ k dflt = Inl AttributeError"

definition json_get :: "json \<Rightarrow> string \<Rightarrow> json result" where
  "json_get v k = json_get_default v k JNull"

text \<open>
  What a \<open>CharField\<close> makes of a value: a string is stored as it is, anything else as Python's
  \<open>str\<close> of it (\<open>CharField.to_python\<close>). \<open>str_fn\<close> is that conversion, an argument of the model.
\<close>

definition char_field :: "(json \<Rightarrow> string) \<Rightarrow> json \<Rightarrow> string" where
  "char_field str_fn v = (case v of JStr s \<Rightarrow> s | _ \<Rightarrow> str_fn v)"

section \<open>Time\<close>

text \<open>
  A \<open>datetime\<close> is a number of microseconds since the epoch, a \<open>timedelta\<close> a number of
  microseconds.
\<close>

type_synonym time = int

definition timedelta_seconds :: "int \<Rightarrow> time" where
  "timedelta_seconds n = n * 1000000"

definition timedelta_minutes :: "int \<Rightarrow> time" where
  "timedelta_minutes n = timedelta_seconds (60 * n)"

lemma timedelta_pos [simp]:
  "0 < timedelta_seconds n \<longleftrightarrow> 0 < n" "0 < timedelta_minutes n \<longleftrightarrow> 0 < n"
  by (simp_all add: timedelta_seconds_def timedelta_minutes_def)

end
