(* ===== verification/Models.thy ===== *)
theory Models
  imports Prelude
begin

text \<open>
  The data model: the choices and the models of \<open>jobs/models/\<close> and \<open>tenants/models.py\<close> as
  datatypes and records, the database as the record of their tables, and the statements the
  ORM issues on them: an INSERT raises what PostgreSQL raises for the columns' types and for
  the unique constraints of the model's \<open>Meta\<close>, a save with \<open>update_fields\<close> is an UPDATE of the
  row with that primary key. The columns \<open>created_at\<close> and \<open>updated_at\<close> are left out, but for
  the \<open>created_at\<close> by which the outbox is ordered: no other code reads them.
\<close>

type_synonym uuid = nat

section \<open>Choices\<close>

datatype JobStatus =
    WAITING | QUEUED | EXECUTING | RETRY_WAIT | CANCEL_REQUESTED
  | SUCCEEDED | FAILED_FINAL | CANCELLED

datatype JobPriority = HIGHEST | HIGH | NORMAL | LOW | LOWEST

fun JobPriority_value :: "JobPriority \<Rightarrow> int" where
  "JobPriority_value HIGHEST = 1"
| "JobPriority_value HIGH = 2"
| "JobPriority_value NORMAL = 3"
| "JobPriority_value LOW = 4"
| "JobPriority_value LOWEST = 5"

datatype JobType = REPORTS | DATA_PROCESSING | SYNCHRONIZATION | AI_PROCESSING | NOTIFICATION

fun JobType_value :: "JobType \<Rightarrow> string" where
  "JobType_value REPORTS = ''REPORTS''"
| "JobType_value DATA_PROCESSING = ''DATA_PROCESSING''"
| "JobType_value SYNCHRONIZATION = ''SYNCHRONIZATION''"
| "JobType_value AI_PROCESSING = ''AI_PROCESSING''"
| "JobType_value NOTIFICATION = ''NOTIFICATION''"

text \<open>
  The members of \<open>AttemptStatus\<close> whose names \<open>JobStatus\<close> has too carry the prefix \<open>ATT\<close>.
\<close>

datatype AttemptStatus =
  RUNNING | ATT_SUCCEEDED | ATT_FAILED | TIMED_OUT | ABANDONED | ATT_CANCELLED

datatype FailureType = TRANSIENT | PERMANENT | INFRASTRUCTURE | TIMEOUT | UNKNOWN

datatype DeadLetterReason =
    RETRIES_EXHAUSTED | PERMANENT_FAILURE | HANDLER_NOT_FOUND
  | INVALID_CONFIGURATION | POISON_JOB

datatype DeadLetterStatus = OPEN | REPLAYED | DISMISSED

datatype OutboxEventType = DISPATCH_JOB

datatype OutboxStatus = PENDING | PUBLISHED

datatype OverlapScope = TENANT | GLOBAL

section \<open>Models\<close>

record Tenant =
  ten_id :: uuid
  ten_name :: string
  is_active :: bool
  max_concurrent_jobs :: nat

record Job =
  job_id :: uuid
  job_tenant :: uuid
  job_type :: string
  job_status :: JobStatus
  priority :: int
  payload :: json
  job_result :: json
  idempotency_key :: "string option"
  available_at :: time
  ready_since :: time
  attempt_count :: nat
  last_error_code :: "string option"
  last_error_message :: "string option"
  queued_at :: "time option"
  started_at :: "time option"
  completed_at :: "time option"
  cancelled_at :: "time option"

record JobAttempt =
  att_id :: uuid
  att_job :: uuid
  attempt_number :: nat
  att_status :: AttemptStatus
  worker_id :: "string option"
  failure_type :: "FailureType option"
  att_error_code :: "string option"
  att_error_message :: "string option"
  att_traceback :: "string option"
  att_started_at :: time
  finished_at :: "time option"
  heartbeat_at :: "time option"
  lease_expires_at :: "time option"

record JobExecutionReservation =
  res_id :: uuid
  res_job :: uuid
  res_tenant :: uuid
  res_lease_token :: uuid
  res_expires_at :: time

record JobOverlapLock =
  lock_id :: uuid
  lock_job :: uuid
  lock_tenant :: "uuid option"
  lock_scope :: OverlapScope
  resource_key :: string
  lock_lease_token :: uuid
  lock_expires_at :: time

record JobOutbox =
  out_id :: uuid
  out_job :: uuid
  event_type :: OutboxEventType
  out_status :: OutboxStatus
  out_payload :: json
  publish_attempts :: nat
  out_available_at :: time
  published_at :: "time option"
  last_error :: "string option"
  out_created_at :: time

record DeadLetterJob =
  dl_id :: uuid
  dl_job :: uuid
  dl_tenant :: uuid
  dl_reason :: DeadLetterReason
  dl_status :: DeadLetterStatus
  dl_error_code :: "string option"
  dl_error_message :: "string option"
  last_attempt_number :: "nat option"
  dl_metadata :: json
  replayed_job :: "uuid option"
  replayed_at :: "time option"
  dismissed_at :: "time option"

record TenantSchedulerState =
  ss_tenant :: uuid
  active_reservations :: nat
  has_ready_work :: bool
  highest_ready_priority :: "int option"
  next_ready_at :: "time option"
  last_dispatched_at :: "time option"

section \<open>The database\<close>

record db =
  tenants :: "Tenant list"
  jobs :: "Job list"
  attempts :: "JobAttempt list"
  reservations :: "JobExecutionReservation list"
  overlap_locks :: "JobOverlapLock list"
  outbox :: "JobOutbox list"
  dead_letters :: "DeadLetterJob list"
  scheduler_states :: "TenantSchedulerState list"

definition empty_db :: db where
  "empty_db = \<lparr>tenants = [], jobs = [], attempts = [], reservations = [], overlap_locks = [],
     outbox = [], dead_letters = [], scheduler_states = []\<rparr>"

text \<open>The largest value of a \<open>smallint\<close> column (\<open>PositiveSmallIntegerField\<close>).\<close>

definition smallint_max :: nat where
  "smallint_max = 32767"

text \<open>Lookups by primary key: \<open>Model.objects.get(id=...)\<close>.\<close>

definition get_tenant :: "uuid \<Rightarrow> db \<Rightarrow> Tenant result" where
  "get_tenant k d = row_get ten_id k (tenants d)"

definition get_job :: "uuid \<Rightarrow> db \<Rightarrow> Job result" where
  "get_job k d = row_get job_id k (jobs d)"

definition get_attempt :: "uuid \<Rightarrow> db \<Rightarrow> JobAttempt result" where
  "get_attempt k d = row_get att_id k (attempts d)"

definition get_outbox :: "uuid \<Rightarrow> db \<Rightarrow> JobOutbox result" where
  "get_outbox k d = row_get out_id k (outbox d)"

definition get_dead_letter :: "uuid \<Rightarrow> db \<Rightarrow> DeadLetterJob result" where
  "get_dead_letter k d = row_get dl_id k (dead_letters d)"

definition get_scheduler_state :: "uuid \<Rightarrow> db \<Rightarrow> TenantSchedulerState result" where
  "get_scheduler_state k d = row_get ss_tenant k (scheduler_states d)"

text \<open>
  \<open>instance.save(update_fields=...)\<close>: an UPDATE of the columns named, here the function on the
  row, where the primary key is that of the instance. A save of all columns is the constant
  function to the instance.
\<close>

definition save_job :: "uuid \<Rightarrow> (Job \<Rightarrow> Job) \<Rightarrow> db \<Rightarrow> db" where
  "save_job k f d = d\<lparr>jobs := rows_update (\<lambda>r. job_id r = k) f (jobs d)\<rparr>"

definition save_attempt :: "uuid \<Rightarrow> (JobAttempt \<Rightarrow> JobAttempt) \<Rightarrow> db \<Rightarrow> db" where
  "save_attempt k f d = d\<lparr>attempts := rows_update (\<lambda>r. att_id r = k) f (attempts d)\<rparr>"

definition save_outbox :: "uuid \<Rightarrow> (JobOutbox \<Rightarrow> JobOutbox) \<Rightarrow> db \<Rightarrow> db" where
  "save_outbox k f d = d\<lparr>outbox := rows_update (\<lambda>r. out_id r = k) f (outbox d)\<rparr>"

definition save_dead_letter :: "uuid \<Rightarrow> (DeadLetterJob \<Rightarrow> DeadLetterJob) \<Rightarrow> db \<Rightarrow> db" where
  "save_dead_letter k f d = d\<lparr>dead_letters := rows_update (\<lambda>r. dl_id r = k) f (dead_letters d)\<rparr>"

definition save_scheduler_state ::
  "uuid \<Rightarrow> (TenantSchedulerState \<Rightarrow> TenantSchedulerState) \<Rightarrow> db \<Rightarrow> db" where
  "save_scheduler_state k f d =
     d\<lparr>scheduler_states := rows_update (\<lambda>r. ss_tenant r = k) f (scheduler_states d)\<rparr>"

text \<open>
  \<open>Model.objects.create(...)\<close>: first the checks of the column types (\<open>varchar(n)\<close>,
  \<open>smallint\<close>: \<open>DataError\<close>), then CHECK, primary key and unique constraints
  (\<open>IntegrityError\<close>).
\<close>

definition insert_job :: "Job \<Rightarrow> db \<Rightarrow> db result" where
  "insert_job j d =
     (if 50 < length (job_type j)
         \<or> (case idempotency_key j of None \<Rightarrow> False | Some k \<Rightarrow> 255 < length k)
         \<or> priority j < - 32768 \<or> int smallint_max < priority j
      then Inl DataError
      else if priority j < 0
         \<or> (\<exists>r \<in> set (jobs d). job_id r = job_id j)
         \<or> (\<exists>r \<in> set (jobs d). idempotency_key j \<noteq> None
              \<and> job_tenant r = job_tenant j \<and> idempotency_key r = idempotency_key j)
      then Inl IntegrityError
      else Inr (d\<lparr>jobs := jobs d @ [j]\<rparr>))"

definition insert_attempt :: "JobAttempt \<Rightarrow> db \<Rightarrow> db result" where
  "insert_attempt a d =
     (if (case worker_id a of None \<Rightarrow> False | Some w \<Rightarrow> 255 < length w)
         \<or> smallint_max < attempt_number a
      then Inl DataError
      else if (\<exists>r \<in> set (attempts d). att_id r = att_id a)
         \<or> (\<exists>r \<in> set (attempts d). att_job r = att_job a \<and> attempt_number r = attempt_number a)
      then Inl IntegrityError
      else Inr (d\<lparr>attempts := attempts d @ [a]\<rparr>))"

definition insert_reservation :: "JobExecutionReservation \<Rightarrow> db \<Rightarrow> db result" where
  "insert_reservation v d =
     (if \<exists>r \<in> set (reservations d). res_id r = res_id v \<or> res_job r = res_job v
            \<or> res_lease_token r = res_lease_token v
      then Inl IntegrityError
      else Inr (d\<lparr>reservations := reservations d @ [v]\<rparr>))"

definition lock_conflict :: "JobOverlapLock \<Rightarrow> JobOverlapLock \<Rightarrow> bool" where
  "lock_conflict r v \<longleftrightarrow>
     lock_scope r = lock_scope v \<and> resource_key r = resource_key v
     \<and> (lock_scope v = TENANT \<longrightarrow> lock_tenant r = lock_tenant v \<and> lock_tenant v \<noteq> None)"

definition insert_overlap_lock :: "JobOverlapLock \<Rightarrow> db \<Rightarrow> db result" where
  "insert_overlap_lock v d =
     (if 255 < length (resource_key v) then Inl DataError
      else if \<exists>r \<in> set (overlap_locks d). lock_id r = lock_id v
            \<or> lock_lease_token r = lock_lease_token v \<or> lock_conflict r v
      then Inl IntegrityError
      else Inr (d\<lparr>overlap_locks := overlap_locks d @ [v]\<rparr>))"

definition insert_outbox :: "JobOutbox \<Rightarrow> db \<Rightarrow> db result" where
  "insert_outbox e d =
     (if \<exists>r \<in> set (outbox d). out_id r = out_id e then Inl IntegrityError
      else Inr (d\<lparr>outbox := outbox d @ [e]\<rparr>))"

definition insert_dead_letter :: "DeadLetterJob \<Rightarrow> db \<Rightarrow> db result" where
  "insert_dead_letter x d =
     (if (case last_attempt_number x of None \<Rightarrow> False | Some n \<Rightarrow> smallint_max < n)
      then Inl DataError
      else if \<exists>r \<in> set (dead_letters d). dl_id r = dl_id x \<or> dl_job r = dl_job x
      then Inl IntegrityError
      else Inr (d\<lparr>dead_letters := dead_letters d @ [x]\<rparr>))"

lemmas get_defs = get_tenant_def get_job_def get_attempt_def get_outbox_def
  get_dead_letter_def get_scheduler_state_def

lemmas save_defs = save_job_def save_attempt_def save_outbox_def save_dead_letter_def
  save_scheduler_state_def

lemmas insert_defs = insert_job_def insert_attempt_def insert_reservation_def
  insert_overlap_lock_def insert_outbox_def insert_dead_letter_def

declare get_defs [db_defs] save_defs [db_defs] insert_defs [db_defs]

end
