(* ===== verification/SchedulerState.thy ===== *)
theory SchedulerState
  imports Models
begin

text \<open>
  \<open>jobs/services/scheduler_state.py\<close>: the readiness cache of a tenant. A ready job is a
  WAITING job of the tenant whose \<open>available_at\<close> has passed; jobs are served in the order of
  \<open>priority\<close>, then of \<open>ready_since\<close>. The order of the database's \<open>ORDER BY\<close> is a linear order
  on the pairs of the two columns.
\<close>

section \<open>The dispatch order\<close>

datatype dispatch_key = Dispatch_Key (dk_priority: int) (dk_ready_since: time)

instantiation dispatch_key :: linorder
begin

definition less_eq_dispatch_key :: "dispatch_key \<Rightarrow> dispatch_key \<Rightarrow> bool" where
  "less_eq_dispatch_key a b \<longleftrightarrow>
     dk_priority a < dk_priority b
     \<or> dk_priority a = dk_priority b \<and> dk_ready_since a \<le> dk_ready_since b"

definition less_dispatch_key :: "dispatch_key \<Rightarrow> dispatch_key \<Rightarrow> bool" where
  "less_dispatch_key a b \<longleftrightarrow>
     dk_priority a < dk_priority b
     \<or> dk_priority a = dk_priority b \<and> dk_ready_since a < dk_ready_since b"

instance
  by standard
    (auto simp: less_eq_dispatch_key_def less_dispatch_key_def dispatch_key.expand)

end

lemma dispatch_key_le [simp]:
  "Dispatch_Key p r \<le> Dispatch_Key q s \<longleftrightarrow> p < q \<or> p = q \<and> r \<le> s"
  by (simp add: less_eq_dispatch_key_def)

lemma dispatch_key_less [simp]:
  "Dispatch_Key p r < Dispatch_Key q s \<longleftrightarrow> p < q \<or> p = q \<and> r < s"
  by (simp add: less_dispatch_key_def)

definition dispatch_order :: "Job \<Rightarrow> dispatch_key" where
  "dispatch_order j = Dispatch_Key (priority j) (ready_since j)"

definition ready :: "uuid \<Rightarrow> time \<Rightarrow> Job \<Rightarrow> bool" where
  "ready tenant_id now j \<longleftrightarrow>
     job_tenant j = tenant_id \<and> job_status j = WAITING \<and> available_at j \<le> now"

definition waiting :: "uuid \<Rightarrow> Job \<Rightarrow> bool" where
  "waiting tenant_id j \<longleftrightarrow> job_tenant j = tenant_id \<and> job_status j = WAITING"

section \<open>The refresh\<close>

definition new_scheduler_state :: "uuid \<Rightarrow> TenantSchedulerState" where
  "new_scheduler_state tenant_id =
     \<lparr>ss_tenant = tenant_id, active_reservations = 0, has_ready_work = False,
      highest_ready_priority = None, next_ready_at = None, last_dispatched_at = None\<rparr>"

text \<open>\<open>TenantSchedulerState.objects.get_or_create(tenant_id=tenant_id)\<close>.\<close>

definition get_or_create_scheduler_state ::
  "uuid \<Rightarrow> db \<Rightarrow> (TenantSchedulerState \<times> db) result" where
  "get_or_create_scheduler_state tenant_id d =
     (case get_scheduler_state tenant_id d of
        Inr s \<Rightarrow> Inr (s, d)
      | Inl DoesNotExist \<Rightarrow>
          Inr (new_scheduler_state tenant_id,
               d\<lparr>scheduler_states := scheduler_states d @ [new_scheduler_state tenant_id]\<rparr>)
      | Inl e \<Rightarrow> Inl e)"

definition refresh_scheduler_state :: "time \<Rightarrow> uuid \<Rightarrow> db \<Rightarrow> db result" where
  "refresh_scheduler_state now tenant_id d =
     result_bind (get_or_create_scheduler_state tenant_id d) (\<lambda>(state, d1).
       let first = row_first dispatch_order (filter (ready tenant_id now) (jobs d1))
       in Inr (save_scheduler_state tenant_id (\<lambda>s. s\<lparr>
            has_ready_work := first \<noteq> None,
            highest_ready_priority := map_option priority first,
            next_ready_at := map_option available_at
              (row_first available_at (filter (waiting tenant_id) (jobs d1)))\<rparr>) d1))"

text \<open>
  The \<open>save\<close> at its end alone. A caller outside a transaction commits the \<open>get_or_create\<close> and this
  separately, with other transactions between, so what it writes may be stale.
\<close>

definition save_readiness :: "uuid \<Rightarrow> bool \<Rightarrow> int option \<Rightarrow> time option \<Rightarrow> db \<Rightarrow> db" where
  "save_readiness tenant_id ready_work best next_at d = save_scheduler_state tenant_id
     (\<lambda>s. s\<lparr>has_ready_work := ready_work, highest_ready_priority := best,
           next_ready_at := next_at\<rparr>) d"

section \<open>Facts\<close>

lemma refresh_two_steps:
  "refresh_scheduler_state now t d = result_bind (get_or_create_scheduler_state t d) (\<lambda>(state, d1).
     let first = row_first dispatch_order (filter (ready t now) (jobs d1))
     in Inr (save_readiness t (first \<noteq> None) (map_option priority first)
          (map_option available_at (row_first available_at (filter (waiting t) (jobs d1)))) d1))"
  by (simp add: refresh_scheduler_state_def save_readiness_def)

text \<open>The columns the refresh writes, as a function of the jobs it reads.\<close>

definition readiness :: "time \<Rightarrow> uuid \<Rightarrow> Job list \<Rightarrow> TenantSchedulerState \<Rightarrow> TenantSchedulerState" where
  "readiness now t js s = s\<lparr>
     has_ready_work := (\<exists>j \<in> set js. ready t now j),
     highest_ready_priority :=
       map_option priority (row_first dispatch_order (filter (ready t now) js)),
     next_ready_at := map_option available_at (row_first available_at (filter (waiting t) js))\<rparr>"

lemma readiness_simps [simp]:
  "ss_tenant (readiness now t js s) = ss_tenant s"
  "active_reservations (readiness now t js s) = active_reservations s"
  "last_dispatched_at (readiness now t js s) = last_dispatched_at s"
  "has_ready_work (readiness now t js s) \<longleftrightarrow> (\<exists>j \<in> set js. ready t now j)"
  by (simp_all add: readiness_def)

lemma row_first_ex: "(\<exists>y. row_first k (filter P xs) = Some y) \<longleftrightarrow> (\<exists>x \<in> set xs. P x)"
  using row_first_None [of k "filter P xs"] by (auto simp: filter_empty_conv)

text \<open>
  The refresh on its two branches: the row exists and its cache columns are written, or it is
  appended with a count of 0 and the cache columns written.
\<close>

lemma refresh_existing:
  "get_scheduler_state t d = Inr s \<Longrightarrow>
     refresh_scheduler_state now t d = Inr (save_scheduler_state t (readiness now t (jobs d)) d)"
  by (simp add: refresh_scheduler_state_def get_or_create_scheduler_state_def Let_def
      readiness_def [abs_def] row_first_ex)

lemma refresh_new:
  assumes "get_scheduler_state t d = Inl DoesNotExist"
  shows "refresh_scheduler_state now t d = Inr (d\<lparr>scheduler_states :=
    scheduler_states d @ [readiness now t (jobs d) (new_scheduler_state t)]\<rparr>)"
proof -
  have absent: "\<And>s. s \<in> set (scheduler_states d) \<Longrightarrow> ss_tenant s \<noteq> t"
    using assms by (auto simp: get_scheduler_state_def row_get_absent)
  have "rows_update (\<lambda>r. ss_tenant r = t) f (scheduler_states d @ [new_scheduler_state t])
      = scheduler_states d @ [f (new_scheduler_state t)]" for f
    using rows_update_none [of "scheduler_states d" "\<lambda>r. ss_tenant r = t" f] absent
    by (simp add: rows_update_def new_scheduler_state_def)
  then show ?thesis using assms
    by (simp add: refresh_scheduler_state_def get_or_create_scheduler_state_def Let_def
        readiness_def row_first_ex save_scheduler_state_def)
qed

lemma refresh_cases:
  assumes "refresh_scheduler_state now t d = Inr d'"
  obtains (existing) s where "get_scheduler_state t d = Inr s"
      "d' = save_scheduler_state t (readiness now t (jobs d)) d"
    | (new) "get_scheduler_state t d = Inl DoesNotExist"
      "d' = d\<lparr>scheduler_states :=
         scheduler_states d @ [readiness now t (jobs d) (new_scheduler_state t)]\<rparr>"
proof (cases "get_scheduler_state t d")
  case (Inl e)
  have "e = DoesNotExist"
    using assms Inl
    by (cases e) (simp_all add: refresh_scheduler_state_def get_or_create_scheduler_state_def)
  with Inl assms refresh_new [of t d now] new show ?thesis by simp
next
  case (Inr s)
  with assms refresh_existing [OF Inr, of now] existing show ?thesis by simp
qed

text \<open>The refresh writes no table but the cache.\<close>

lemma refresh_frame:
  assumes "refresh_scheduler_state now t d = Inr d'"
  shows "tenants d' = tenants d" "jobs d' = jobs d" "attempts d' = attempts d"
    "reservations d' = reservations d" "overlap_locks d' = overlap_locks d"
    "outbox d' = outbox d" "dead_letters d' = dead_letters d"
  using assms by (auto elim!: refresh_cases simp: save_scheduler_state_def)

text \<open>
  What the refresh and its two parts do to the tables: the tenant's row keeps its counter, or a
  row that counts nothing is added.
\<close>

definition cache_step :: "uuid \<Rightarrow> db \<Rightarrow> db \<Rightarrow> bool" where
  "cache_step t d d' \<longleftrightarrow>
     (\<exists>f. (\<forall>s. ss_tenant (f s) = ss_tenant s \<and> active_reservations (f s) = active_reservations s)
        \<and> d' = save_scheduler_state t f d)
     \<or> get_scheduler_state t d = Inl DoesNotExist
        \<and> (\<exists>s. ss_tenant s = t \<and> active_reservations s = 0
             \<and> d' = d\<lparr>scheduler_states := scheduler_states d @ [s]\<rparr>)"

lemma cache_step_cases:
  assumes "cache_step t d d'"
  obtains (existing) f where "\<And>s. ss_tenant (f s) = ss_tenant s"
      "\<And>s. active_reservations (f s) = active_reservations s" "d' = save_scheduler_state t f d"
    | (new) s where "\<forall>r \<in> set (scheduler_states d). ss_tenant r \<noteq> t" "ss_tenant s = t"
      "active_reservations s = 0" "d' = d\<lparr>scheduler_states := scheduler_states d @ [s]\<rparr>"
  using assms unfolding cache_step_def get_scheduler_state_def row_get_absent
  by (elim disjE exE conjE) (use existing new in blast)+

lemma cache_step_refresh:
  assumes "refresh_scheduler_state now t d = Inr d'"
  shows "cache_step t d d'"
  using assms
proof (cases rule: refresh_cases)
  case existing
  then show ?thesis
    unfolding cache_step_def by (intro disjI1 exI [of _ "readiness now t (jobs d)"]) simp
next
  case new
  then show ?thesis
    unfolding cache_step_def
    by (intro disjI2 conjI exI [of _ "readiness now t (jobs d) (new_scheduler_state t)"])
      (simp_all add: new_scheduler_state_def)
qed

lemma cache_step_create:
  assumes "get_or_create_scheduler_state t d = Inr (s, d')"
  shows "cache_step t d d'"
proof (cases "get_scheduler_state t d")
  case (Inl e)
  with assms have "e = DoesNotExist" "d' = d\<lparr>scheduler_states := scheduler_states d @ [new_scheduler_state t]\<rparr>"
    by (cases e; simp add: get_or_create_scheduler_state_def)+
  with Inl show ?thesis
    unfolding cache_step_def
    by (intro disjI2 conjI exI [of _ "new_scheduler_state t"]) (simp_all add: new_scheduler_state_def)
next
  case (Inr r)
  with assms have "d' = save_scheduler_state t (\<lambda>s. s) d"
    by (simp add: get_or_create_scheduler_state_def save_scheduler_state_def rows_update_def)
  then show ?thesis unfolding cache_step_def by (intro disjI1 exI [of _ "\<lambda>s. s"]) simp
qed

lemma cache_step_save: "cache_step t d (save_readiness t b p n d)"
  unfolding cache_step_def save_readiness_def
  by (intro disjI1 exI [of _ "\<lambda>s. s\<lparr>has_ready_work := b, highest_ready_priority := p, next_ready_at := n\<rparr>"]) simp

lemma cache_step_frame:
  assumes "cache_step t d d'"
  shows "tenants d' = tenants d" "jobs d' = jobs d" "attempts d' = attempts d"
    "reservations d' = reservations d" "overlap_locks d' = overlap_locks d"
    "outbox d' = outbox d" "dead_letters d' = dead_letters d"
  using assms by (auto elim!: cache_step_cases simp: save_scheduler_state_def)

end
