(* ===== verification/Overlap.thy ===== *)
theory Overlap
  imports Models
begin

text \<open>
  \<open>jobs/services/overlap.py\<close>: mutual exclusion on resource keys. A lock is acquired by an
  INSERT that the unique constraint of the table rejects when the key is held; the
  \<open>IntegrityError\<close> rolls back to the savepoint and the caller gets \<open>None\<close>. A job's locks are
  released by one DELETE. The locale \<open>exclusive_locks\<close> is the contract the dispatcher relies on.
\<close>

section \<open>The operations\<close>

text \<open>
  \<open>now\<close>, \<open>new_id\<close> and \<open>token\<close> are what \<open>timezone.now()\<close> and the two \<open>uuid4\<close> defaults return.
\<close>

definition new_overlap_lock ::
  "time \<Rightarrow> uuid \<Rightarrow> uuid \<Rightarrow> Job \<Rightarrow> string \<Rightarrow> OverlapScope \<Rightarrow> JobOverlapLock" where
  "new_overlap_lock now new_id token job key scope =
     \<lparr>lock_id = new_id, lock_job = job_id job,
      lock_tenant = (if scope = TENANT then Some (job_tenant job) else None),
      lock_scope = scope, resource_key = key, lock_lease_token = token,
      lock_expires_at = now + timedelta_minutes 5\<rparr>"

lemma new_overlap_lock_simps [simp]:
  "lock_id (new_overlap_lock now i tk job key scope) = i"
  "lock_job (new_overlap_lock now i tk job key scope) = job_id job"
  "lock_tenant (new_overlap_lock now i tk job key TENANT) = Some (job_tenant job)"
  "lock_tenant (new_overlap_lock now i tk job key GLOBAL) = None"
  "lock_scope (new_overlap_lock now i tk job key scope) = scope"
  "resource_key (new_overlap_lock now i tk job key scope) = key"
  "lock_lease_token (new_overlap_lock now i tk job key scope) = tk"
  by (simp_all add: new_overlap_lock_def)

definition acquire_overlap ::
  "time \<Rightarrow> uuid \<Rightarrow> uuid \<Rightarrow> Job \<Rightarrow> string \<Rightarrow> OverlapScope \<Rightarrow> db
     \<Rightarrow> (JobOverlapLock option \<times> db) result" where
  "acquire_overlap now new_id token job key scope d =
     (let lock = new_overlap_lock now new_id token job key scope
      in case insert_overlap_lock lock d of
           Inr d' \<Rightarrow> Inr (Some lock, d')
         | Inl IntegrityError \<Rightarrow> Inr (None, d)
         | Inl e \<Rightarrow> Inl e)"

definition release_overlaps :: "Job \<Rightarrow> db \<Rightarrow> db" where
  "release_overlaps job d =
     d\<lparr>overlap_locks := rows_delete (\<lambda>l. lock_job l = job_id job) (overlap_locks d)\<rparr>"

section \<open>The table's invariant\<close>

text \<open>No two rows have the same primary key or token, or conflict under the constraints.\<close>

definition locks_ok :: "db \<Rightarrow> bool" where
  "locks_ok d \<longleftrightarrow> distinct (map lock_id (overlap_locks d))
     \<and> distinct (map lock_lease_token (overlap_locks d))
     \<and> (\<forall>l \<in> set (overlap_locks d). \<forall>m \<in> set (overlap_locks d).
          lock_conflict l m \<longrightarrow> lock_id l = lock_id m)
     \<and> (\<forall>l \<in> set (overlap_locks d). lock_scope l = TENANT \<longleftrightarrow> lock_tenant l \<noteq> None)"

text \<open>The job that holds a tenant's key.\<close>

definition holds :: "db \<Rightarrow> uuid \<Rightarrow> string \<Rightarrow> uuid \<Rightarrow> bool" where
  "holds d tenant_id key j \<longleftrightarrow> (\<exists>l \<in> set (overlap_locks d). lock_scope l = TENANT
     \<and> lock_tenant l = Some tenant_id \<and> resource_key l = key \<and> lock_job l = j)"

lemma lock_conflict_sym: "lock_conflict l m \<Longrightarrow> lock_conflict m l"
  by (auto simp: lock_conflict_def)

lemma insert_overlap_lock_cases:
  obtains (ok) "insert_overlap_lock v d = Inr (d\<lparr>overlap_locks := overlap_locks d @ [v]\<rparr>)"
      "length (resource_key v) \<le> 255"
      "\<forall>r \<in> set (overlap_locks d). lock_id r \<noteq> lock_id v
         \<and> lock_lease_token r \<noteq> lock_lease_token v \<and> \<not> lock_conflict r v"
    | (data) "insert_overlap_lock v d = Inl DataError" "255 < length (resource_key v)"
    | (conflict) "insert_overlap_lock v d = Inl IntegrityError" "length (resource_key v) \<le> 255"
      "\<exists>r \<in> set (overlap_locks d). lock_id r = lock_id v
         \<or> lock_lease_token r = lock_lease_token v \<or> lock_conflict r v"
  unfolding insert_overlap_lock_def by (metis not_le)

text \<open>The three outcomes of an acquisition.\<close>

lemma acquire_overlap_cases:
  obtains (acquired) d' where
      "acquire_overlap now i tk job key scope d
         = Inr (Some (new_overlap_lock now i tk job key scope), d')"
      "insert_overlap_lock (new_overlap_lock now i tk job key scope) d = Inr d'"
      "d' = d\<lparr>overlap_locks := overlap_locks d @ [new_overlap_lock now i tk job key scope]\<rparr>"
    | (refused) "acquire_overlap now i tk job key scope d = Inr (None, d)"
      "insert_overlap_lock (new_overlap_lock now i tk job key scope) d = Inl IntegrityError"
    | (too_long) "acquire_overlap now i tk job key scope d = Inl DataError" "255 < length key"
proof -
  show ?thesis
    using acquired refused too_long
    by (cases rule: insert_overlap_lock_cases
          [of "new_overlap_lock now i tk job key scope" d])
      (simp_all add: acquire_overlap_def Let_def)
qed

lemma locks_ok_append:
  assumes "locks_ok d" and "insert_overlap_lock v d = Inr d'"
    and "lock_scope v = TENANT \<longleftrightarrow> lock_tenant v \<noteq> None"
  shows "locks_ok d'"
proof -
  have "d' = d\<lparr>overlap_locks := overlap_locks d @ [v]\<rparr>"
    and fresh: "\<forall>r \<in> set (overlap_locks d). lock_id r \<noteq> lock_id v
       \<and> lock_lease_token r \<noteq> lock_lease_token v \<and> \<not> lock_conflict r v"
    using assms(2) by (cases rule: insert_overlap_lock_cases [of v d]; simp)+
  moreover have "\<forall>r \<in> set (overlap_locks d). \<not> lock_conflict v r"
    using fresh lock_conflict_sym by blast
  ultimately show ?thesis
    using assms(1,3) by (auto simp: locks_ok_def image_iff)
qed

lemma locks_ok_acquire:
  assumes "locks_ok d" and "acquire_overlap now i tk job key scope d = Inr (r, d')"
  shows "locks_ok d'"
proof (cases rule: acquire_overlap_cases [of now i tk job key scope d])
  case (acquired d1)
  have "locks_ok d1"
    by (rule locks_ok_append [OF assms(1) acquired(2)])
      (cases scope; simp)
  with acquired(1) assms(2) show ?thesis by simp
qed (use assms in auto)

lemma locks_ok_release: "locks_ok d \<Longrightarrow> locks_ok (release_overlaps job d)"
  by (auto simp: locks_ok_def release_overlaps_def row_simps)

section \<open>The contract\<close>

text \<open>
  A lock table as its clients see it: who holds a key, an acquisition that either makes the job
  the holder or fails because there is one, a release that takes exactly the job's own keys.
  Mutual exclusion and the fate of every key follow from these laws.
\<close>

locale exclusive_locks =
  fixes inv :: "'d \<Rightarrow> bool"
    and holder :: "'d \<Rightarrow> 't \<Rightarrow> 'k \<Rightarrow> 'j \<Rightarrow> bool"
    and acquire :: "'j \<Rightarrow> 't \<Rightarrow> 'k \<Rightarrow> 'd \<Rightarrow> 'd \<Rightarrow> bool"
    and release :: "'j \<Rightarrow> 'd \<Rightarrow> 'd"
  assumes exclusive: "inv d \<Longrightarrow> holder d t k i \<Longrightarrow> holder d t k j \<Longrightarrow> i = j"
    and acquire_free: "inv d \<Longrightarrow> acquire j t k d d' \<Longrightarrow> \<not> holder d t k i"
    and acquire_holder: "inv d \<Longrightarrow> acquire j t k d d' \<Longrightarrow>
      holder d' t' k' i \<longleftrightarrow> holder d t' k' i \<or> t' = t \<and> k' = k \<and> i = j"
    and acquire_inv: "inv d \<Longrightarrow> acquire j t k d d' \<Longrightarrow> inv d'"
    and release_holder: "holder (release j d) t k i \<longleftrightarrow> holder d t k i \<and> i \<noteq> j"
    and release_inv: "inv d \<Longrightarrow> inv (release j d)"
begin

lemma acquire_then_held: "inv d \<Longrightarrow> acquire j t k d d' \<Longrightarrow> holder d' t k j"
  by (simp add: acquire_holder)

lemma no_second_owner:
  "inv d \<Longrightarrow> acquire i t k d d' \<Longrightarrow> inv d' \<Longrightarrow> \<not> acquire j t k d' d''"
  using acquire_free acquire_then_held by blast

lemma free_after_release: "inv d \<Longrightarrow> holder d t k j \<Longrightarrow> \<not> holder (release j d) t k i"
  using exclusive release_holder by blast

lemma release_keeps_others: "i \<noteq> j \<Longrightarrow> holder d t k i \<Longrightarrow> holder (release j d) t k i"
  by (simp add: release_holder)

end

definition acquired :: "Job \<Rightarrow> string \<Rightarrow> db \<Rightarrow> db \<Rightarrow> bool" where
  "acquired job key d d' \<longleftrightarrow> (\<exists>now i tk l. acquire_overlap now i tk job key TENANT d = Inr (Some l, d'))"

lemma acquired_cases:
  assumes "acquired job key d d'"
  obtains l where "lock_scope l = TENANT" "lock_tenant l = Some (job_tenant job)"
    "resource_key l = key" "lock_job l = job_id job"
    "insert_overlap_lock l d = Inr d'" "d' = d\<lparr>overlap_locks := overlap_locks d @ [l]\<rparr>"
proof -
  from assms obtain now i tk l where "acquire_overlap now i tk job key TENANT d = Inr (Some l, d')"
    by (auto simp: acquired_def)
  then show thesis
    using that [of "new_overlap_lock now i tk job key TENANT"]
    by (cases rule: acquire_overlap_cases [of now i tk job key TENANT d]) auto
qed

lemma holds_unique:
  assumes "locks_ok d" and "holds d t k i" and "holds d t k j"
  shows "i = j"
proof -
  obtain l m where l: "l \<in> set (overlap_locks d)" "lock_job l = i"
    and m: "m \<in> set (overlap_locks d)" "lock_job m = j" and "lock_conflict l m"
    using assms(2,3) by (fastforce simp: holds_def lock_conflict_def)
  then have "lock_id l = lock_id m" using assms(1) by (auto simp: locks_ok_def)
  then have "l = m" using l(1) m(1) assms(1) by (auto simp: locks_ok_def distinct_map inj_on_def)
  then show ?thesis using l(2) m(2) by simp
qed

text \<open>
  The lock of a job on a key of its own tenant is the \<open>exclusive_locks\<close> of the model: a job is
  given by its row, its release by the DELETE.
\<close>

interpretation locks: exclusive_locks locks_ok holds
  "\<lambda>j t k d d'. \<exists>job. job_id job = j \<and> job_tenant job = t \<and> acquired job k d d'"
  "\<lambda>j d. d\<lparr>overlap_locks := rows_delete (\<lambda>l. lock_job l = j) (overlap_locks d)\<rparr>"
proof (unfold_locales, goal_cases)
  case (1 d t k i j)
  then show ?case by (rule holds_unique)
next
  case (2 d j t k d' i)
  then obtain l where "lock_scope l = TENANT" "lock_tenant l = Some t" "resource_key l = k"
    "insert_overlap_lock l d = Inr d'"
    by (auto elim: acquired_cases)
  then show ?case
    by (fastforce simp: holds_def insert_overlap_lock_def lock_conflict_def split: if_splits)
next
  case (3 d j t k d' t' k' i)
  then obtain l where "lock_scope l = TENANT" "lock_tenant l = Some t" "resource_key l = k"
    "lock_job l = j" "d' = d\<lparr>overlap_locks := overlap_locks d @ [l]\<rparr>"
    by (auto elim: acquired_cases)
  then show ?case by (auto simp: holds_def)
next
  case (4 d j t k d')
  then show ?case by (auto simp: acquired_def intro: locks_ok_acquire)
next
  case (5 j d t k i)
  show ?case by (auto simp: holds_def row_simps)
next
  case (6 d j)
  then show ?case by (auto simp: locks_ok_def row_simps)
qed

end
