(* ===== verification/Handlers.thy ===== *)
theory Handlers
  imports Models
begin

text \<open>
  \<open>jobs/services/heartbeat.py\<close> and \<open>jobs/handlers/\<close>: the lease extension, the context a handler
  gets, the registry, and the simulated handlers. A handler maps the payload, its context and
  the database to its outcome (a result or an exception) and the database it leaves, since its
  context lets it send heartbeats. Sleeping has no effect but the exceptions it can raise.
\<close>

section \<open>Heartbeats\<close>

definition LEASE_SECONDS :: int where
  "LEASE_SECONDS = 300"

text \<open>
  The service runs in no transaction: its query and its two UPDATEs commit one by one, so they
  are three operations here and \<open>heartbeat\<close> is their undisturbed sequence.
\<close>

definition heartbeat_query :: "uuid \<Rightarrow> db \<Rightarrow> JobAttempt option" where
  "heartbeat_query attempt_id d =
     row_first att_id (filter (\<lambda>a. att_id a = attempt_id \<and> att_status a = RUNNING) (attempts d))"

definition heartbeat_update_attempt :: "time \<Rightarrow> uuid \<Rightarrow> db \<Rightarrow> db" where
  "heartbeat_update_attempt now attempt_id d =
     d\<lparr>attempts := rows_update (\<lambda>a. att_id a = attempt_id)
        (\<lambda>a. a\<lparr>heartbeat_at := Some now,
           lease_expires_at := Some (now + timedelta_seconds LEASE_SECONDS)\<rparr>) (attempts d)\<rparr>"

definition heartbeat_update_reservation :: "time \<Rightarrow> uuid \<Rightarrow> db \<Rightarrow> db" where
  "heartbeat_update_reservation now j d =
     d\<lparr>reservations := rows_update (\<lambda>r. res_job r = j)
        (\<lambda>r. r\<lparr>res_expires_at := now + timedelta_seconds LEASE_SECONDS\<rparr>) (reservations d)\<rparr>"

definition heartbeat :: "time \<Rightarrow> uuid \<Rightarrow> db \<Rightarrow> bool \<times> db" where
  "heartbeat now attempt_id d =
     (case heartbeat_query attempt_id d of
        None \<Rightarrow> (False, d)
      | Some attempt \<Rightarrow>
          (True, heartbeat_update_reservation now (att_job attempt)
                   (heartbeat_update_attempt now attempt_id d)))"

lemma heartbeat_query_Some:
  "heartbeat_query i d = Some a \<Longrightarrow> a \<in> set (attempts d) \<and> att_id a = i \<and> att_status a = RUNNING"
  by (auto simp: heartbeat_query_def dest: row_first_Some_D(1))

lemma heartbeat_query_None:
  "heartbeat_query i d = None \<longleftrightarrow> (\<forall>a \<in> set (attempts d). att_id a = i \<longrightarrow> att_status a \<noteq> RUNNING)"
  by (auto simp: heartbeat_query_def row_first_None filter_empty_conv)

text \<open>A heartbeat changes only the lease columns of the attempt and of its job's reservation.\<close>

lemma heartbeat_updates_frame:
  "jobs (heartbeat_update_attempt now i d) = jobs d"
  "reservations (heartbeat_update_attempt now i d) = reservations d"
  "scheduler_states (heartbeat_update_attempt now i d) = scheduler_states d"
  "overlap_locks (heartbeat_update_attempt now i d) = overlap_locks d"
  "dead_letters (heartbeat_update_attempt now i d) = dead_letters d"
  "tenants (heartbeat_update_attempt now i d) = tenants d"
  "outbox (heartbeat_update_attempt now i d) = outbox d"
  "jobs (heartbeat_update_reservation now j d) = jobs d"
  "attempts (heartbeat_update_reservation now j d) = attempts d"
  "scheduler_states (heartbeat_update_reservation now j d) = scheduler_states d"
  "overlap_locks (heartbeat_update_reservation now j d) = overlap_locks d"
  "dead_letters (heartbeat_update_reservation now j d) = dead_letters d"
  "tenants (heartbeat_update_reservation now j d) = tenants d"
  "outbox (heartbeat_update_reservation now j d) = outbox d"
  by (simp_all add: heartbeat_update_attempt_def heartbeat_update_reservation_def)

section \<open>Context and registry\<close>

record JobContext =
  ctx_job :: Job
  ctx_attempt :: JobAttempt

definition context_heartbeat :: "time \<Rightarrow> JobContext \<Rightarrow> db \<Rightarrow> bool \<times> db" where
  "context_heartbeat now c d = heartbeat now (att_id (ctx_attempt c)) d"

type_synonym handler = "json \<Rightarrow> JobContext \<Rightarrow> db \<Rightarrow> json result \<times> db"

type_synonym registry = "string \<rightharpoonup> handler"

definition register :: "string \<Rightarrow> handler \<Rightarrow> registry \<Rightarrow> registry" where
  "register jt h reg = reg(jt \<mapsto> h)"

definition get_handler :: "registry \<Rightarrow> string \<Rightarrow> handler result" where
  "get_handler reg jt =
     (case reg jt of
        None \<Rightarrow> Inl (ValueError (''No handler registered for: '' @ jt))
      | Some handler \<Rightarrow> Inr handler)"

text \<open>
  The registry's contract for the worker: the handler registered last for a type is the one
  found, registering a type leaves the others alone, and a type nobody registered is an error.
\<close>

locale handler_registry =
  fixes empty_reg :: "'r"
    and reg_add :: "'k \<Rightarrow> 'h \<Rightarrow> 'r \<Rightarrow> 'r"
    and reg_find :: "'r \<Rightarrow> 'k \<Rightarrow> 'h result"
  assumes find_empty: "\<exists>m. reg_find empty_reg k = Inl (ValueError m)"
    and find_add: "reg_find (reg_add k h r) k' = (if k' = k then Inr h else reg_find r k')"
begin

fun reg_add_all :: "('k \<times> 'h) list \<Rightarrow> 'r" where
  "reg_add_all [] = empty_reg"
| "reg_add_all ((k, h) # khs) = reg_add k h (reg_add_all khs)"

lemma find_add_all:
  "reg_find (reg_add_all khs) k = Inr h \<longleftrightarrow> map_of khs k = Some h"
proof (induction khs)
  case Nil
  then show ?case using find_empty [of k] by auto
next
  case (Cons kh khs)
  then show ?case by (cases kh) (simp add: find_add)
qed

lemma find_unregistered: "k \<notin> fst ` set khs \<Longrightarrow> \<exists>m. reg_find (reg_add_all khs) k = Inl (ValueError m)"
  by (induction khs) (auto simp: find_add find_empty)

end

interpretation reg: handler_registry "Map.empty" register get_handler
  by unfold_locales (simp_all add: register_def get_handler_def)

section \<open>Simulated handlers\<close>

text \<open>
  Python's numbers in a JSON value: a bool counts as an int, any other value in a comparison
  with a number raises \<open>TypeError\<close>. \<open>time.sleep\<close> rejects a negative length and one beyond
  the signed 64-bit count of nanoseconds.
\<close>

fun py_number :: "json \<Rightarrow> rat result" where
  "py_number (JBool b) = Inr (if b then 1 else 0)"
| "py_number (JInt i) = Inr (of_int i)"
| "py_number (JFloat x) = Inr x"
| "py_number _ = Inl TypeError"

definition py_sleep :: "rat \<Rightarrow> unit result" where
  "py_sleep x =
     (if x < 0 then Inl (ValueError ''sleep length must be non-negative'')
      else if 9223372036854775807 < x * 1000000000 then Inl OverflowError
      else Inr ())"

text \<open>
  \<open>_sleep\<close>: the forced failures first, then the duration, given in milliseconds when above 30;
  without one, a random number of seconds from the handler's range.
\<close>

definition sleep_handler :: "json \<Rightarrow> JobContext option \<Rightarrow> unit result" where
  "sleep_handler p context_opt =
     result_bind (json_get p ''simulate_permanent_failure'') (\<lambda>perm.
     if truthy perm then Inl (PermanentJobError ''Simulated permanent failure'') else
     result_bind (json_get p ''simulate_temporary_failure'') (\<lambda>temp.
     result_bind
       (if truthy temp
        then result_bind (json_get_default p ''fail_until_attempt'' (JInt 1)) (\<lambda>fail_until.
          case context_opt of
            None \<Rightarrow> Inr ()
          | Some c \<Rightarrow> result_bind (py_number fail_until) (\<lambda>n.
              if of_nat (attempt_number (ctx_attempt c)) \<le> n
              then Inl (RetryableJobError ''Simulated temporary failure'') else Inr ()))
        else Inr ()) (\<lambda>_.
     result_bind (json_get p ''duration'') (\<lambda>seconds.
     if seconds \<noteq> JNull
     then result_bind (py_number seconds) (\<lambda>s. py_sleep (if 30 < s then s / 1000 else s))
     else Inr ()))))"

definition sleeping_handler :: "bool \<Rightarrow> (json \<Rightarrow> json result) \<Rightarrow> handler" where
  "sleeping_handler pass_context answer p c d =
     (result_bind (sleep_handler p (if pass_context then Some c else None)) (\<lambda>_. answer p), d)"

definition ReportHandler :: handler where
  "ReportHandler = sleeping_handler True (\<lambda>p. result_bind (json_get p ''report_id'') (\<lambda>r.
     Inr (JObj [(''report_id'', r), (''status'', JStr ''generated'')])))"

definition DataProcessingHandler :: handler where
  "DataProcessingHandler = sleeping_handler True (\<lambda>_. Inr (JObj [(''processed'', JBool True)]))"

definition SyncHandler :: handler where
  "SyncHandler = sleeping_handler True (\<lambda>_. Inr (JObj [(''synced'', JBool True)]))"

definition AIHandler :: handler where
  "AIHandler = sleeping_handler True (\<lambda>_. Inr (JObj [(''processed'', JBool True)]))"

definition NotificationHandler :: handler where
  "NotificationHandler = sleeping_handler True (\<lambda>_. Inr (JObj [(''sent'', JBool True)]))"

definition TemporaryFailureHandler :: handler where
  "TemporaryFailureHandler p c d =
     (result_bind (json_get_default p ''fail_until_attempt'' (JInt 2)) (\<lambda>fail_until.
      result_bind (py_number fail_until) (\<lambda>n.
        if of_nat (attempt_number (ctx_attempt c)) \<le> n
        then Inl (RetryableJobError ''Simulated temporary failure'')
        else Inr (JObj [(''success_after_retry'', JBool True)]))), d)"

definition PermanentFailureHandler :: handler where
  "PermanentFailureHandler p c d = (Inl (PermanentJobError ''Simulated permanent failure''), d)"

definition OverlapHandler :: handler where
  "OverlapHandler = sleeping_handler False (\<lambda>p. result_bind (json_get p ''overlap_key'') (\<lambda>k.
     Inr (JObj [(''resource'', k), (''completed'', JBool True)])))"

text \<open>The registrations of \<open>simulated.py\<close>, the decorators of each class from the inside out.\<close>

definition simulated_registry :: registry where
  "simulated_registry =
     register ''OVERLAP'' OverlapHandler
     (register ''PERMANENT_FAILURE'' PermanentFailureHandler
     (register ''TEMPORARY_FAILURE'' TemporaryFailureHandler
     (register (JobType_value NOTIFICATION) NotificationHandler
     (register (JobType_value AI_PROCESSING) AIHandler
     (register ''AI'' AIHandler
     (register (JobType_value SYNCHRONIZATION) SyncHandler
     (register ''SYNC'' SyncHandler
     (register (JobType_value DATA_PROCESSING) DataProcessingHandler
     (register (JobType_value REPORTS) ReportHandler
     (register ''REPORT'' ReportHandler Map.empty))))))))))"

text \<open>Every type the API accepts has a handler.\<close>

lemma every_job_type_handled: "\<exists>h. get_handler simulated_registry (JobType_value t) = Inr h"
  by (cases t) (simp_all add: simulated_registry_def register_def get_handler_def)

text \<open>The simulated handlers leave the database alone.\<close>

lemma simulated_handlers_pure:
  assumes "get_handler simulated_registry jt = Inr h"
  shows "snd (h p c d) = d"
proof -
  have "h \<in> {ReportHandler, DataProcessingHandler, SyncHandler, AIHandler, NotificationHandler,
      TemporaryFailureHandler, PermanentFailureHandler, OverlapHandler}"
    using assms
    by (simp add: simulated_registry_def register_def get_handler_def split: if_splits)
  then show ?thesis
    by (auto simp: ReportHandler_def DataProcessingHandler_def SyncHandler_def AIHandler_def
        NotificationHandler_def TemporaryFailureHandler_def PermanentFailureHandler_def
        OverlapHandler_def sleeping_handler_def)
qed

end
