(* ===== verification/Execution.thy ===== *)
theory Execution
  imports SchedulerState Overlap Handlers
begin

text \<open>
  \<open>jobs/services/execution.py\<close>: claiming a job, completing it, failing it with a retry or a
  dead letter, and freeing the tenant's capacity. Each transaction maps the database it reads
  to the one it commits, or to the exception that rolls it back; \<open>execute\<close>, which the worker
  runs, strings the transactions together and keeps what each of them committed.
\<close>

section \<open>Retry schedule\<close>

definition RETRY_DELAYS :: "nat \<Rightarrow> int option" where
  "RETRY_DELAYS n = map_of [(1, 3), (2, 5), (3, 10)] n"

definition retry_delay :: "Job \<Rightarrow> int" where
  "retry_delay job = (case RETRY_DELAYS (attempt_count job) of None \<Rightarrow> 10 | Some n \<Rightarrow> n)"

lemma RETRY_DELAYS_simps [simp]:
  "RETRY_DELAYS (Suc 0) = Some 3" "RETRY_DELAYS 1 = Some 3"
  "RETRY_DELAYS 2 = Some 5" "RETRY_DELAYS 3 = Some 10"
  by (simp_all add: RETRY_DELAYS_def)

lemma RETRY_DELAYS_iff: "RETRY_DELAYS n \<noteq> None \<longleftrightarrow> 1 \<le> n \<and> n \<le> 3"
proof -
  have "RETRY_DELAYS n \<noteq> None \<longleftrightarrow> n = 1 \<or> n = 2 \<or> n = 3" by (simp add: RETRY_DELAYS_def)
  also have "\<dots> \<longleftrightarrow> 1 \<le> n \<and> n \<le> 3" by arith
  finally show ?thesis .
qed

text \<open>
  \<open>str(exc)\<close>: the message of the exceptions the repository raises; \<open>library_text\<close> gives the text
  of those of Python and of the ORM.
\<close>

fun exc_str :: "(exn \<Rightarrow> string) \<Rightarrow> exn \<Rightarrow> string" where
  "exc_str library_text (ValueError m) = m"
| "exc_str library_text (BrokerError m) = m"
| "exc_str library_text (JobError m) = m"
| "exc_str library_text (RetryableJobError m) = m"
| "exc_str library_text (PermanentJobError m) = m"
| "exc_str library_text (InvalidJobTransition m) = m"
| "exc_str library_text (OtherError m) = m"
| "exc_str library_text e = library_text e"

section \<open>Capacity\<close>

definition release_capacity :: "Job \<Rightarrow> db \<Rightarrow> db result" where
  "release_capacity job d =
     (let d1 = d\<lparr>reservations := rows_delete (\<lambda>r. res_job r = job_id job) (reservations d)\<rparr>;
          d2 = release_overlaps job d1
      in result_bind (get_scheduler_state (job_tenant job) d2) (\<lambda>state.
        if active_reservations state \<noteq> 0
        then Inr (save_scheduler_state (job_tenant job)
               (\<lambda>s. s\<lparr>active_reservations := active_reservations state - 1\<rparr>) d2)
        else Inr d2))"

section \<open>Claim\<close>

text \<open>The attempt is returned with the job it was created for, which Django caches in it.\<close>

definition claim_job ::
  "time \<Rightarrow> string \<Rightarrow> uuid \<Rightarrow> uuid \<Rightarrow> db \<Rightarrow> ((JobAttempt \<times> Job) option \<times> db) result" where
  "claim_job now hostname new_id jid d =
     (case row_first job_id (filter (\<lambda>j. job_id j = jid) (jobs d)) of
        None \<Rightarrow> Inr (None, d)
      | Some job \<Rightarrow>
          if job_status job \<noteq> QUEUED then Inr (None, d)
          else if smallint_max < Suc (attempt_count job) then Inl DataError
          else
            let job1 = job\<lparr>attempt_count := Suc (attempt_count job), job_status := EXECUTING,
                  started_at := (case started_at job of None \<Rightarrow> Some now | Some t \<Rightarrow> Some t)\<rparr>;
                d1 = save_job (job_id job) (\<lambda>j. j\<lparr>job_status := job_status job1,
                       attempt_count := attempt_count job1, started_at := started_at job1\<rparr>) d;
                attempt = \<lparr>att_id = new_id, att_job = job_id job,
                  attempt_number = attempt_count job1,
                  att_status = RUNNING, worker_id = Some hostname, failure_type = None,
                  att_error_code = None, att_error_message = None, att_traceback = None,
                  att_started_at = now, finished_at = None, heartbeat_at = Some now,
                  lease_expires_at = Some (now + timedelta_minutes 5)\<rparr>
            in result_bind (insert_attempt attempt d1) (\<lambda>d2. Inr (Some (attempt, job1), d2)))"

section \<open>Completion\<close>

definition complete_job :: "time \<Rightarrow> uuid \<Rightarrow> json \<Rightarrow> db \<Rightarrow> db result" where
  "complete_job now attempt_id result' d =
     result_bind (get_attempt attempt_id d) (\<lambda>attempt.
     result_bind (get_job (att_job attempt) d) (\<lambda>job.
       let d1 = save_attempt (att_id attempt)
                  (\<lambda>a. a\<lparr>att_status := ATT_SUCCEEDED, finished_at := Some now\<rparr>) d;
           d2 = save_job (job_id job)
                  (\<lambda>j. j\<lparr>job_status := SUCCEEDED, job_result := result',
                        completed_at := Some now\<rparr>) d1
       in release_capacity job d2))"

section \<open>Failure\<close>

text \<open>
  \<open>DeadLetterJob.objects.get_or_create(job=job, defaults=...)\<close>; \<open>new_id\<close> is the \<open>uuid4\<close> of a
  new row.
\<close>

definition new_dead_letter ::
  "uuid \<Rightarrow> Job \<Rightarrow> DeadLetterReason \<Rightarrow> string \<Rightarrow> DeadLetterJob" where
  "new_dead_letter new_id job reason message =
     \<lparr>dl_id = new_id, dl_job = job_id job, dl_tenant = job_tenant job, dl_reason = reason,
      dl_status = OPEN, dl_error_code = None, dl_error_message = Some message,
      last_attempt_number = Some (attempt_count job), dl_metadata = JObj [],
      replayed_job = None, replayed_at = None, dismissed_at = None\<rparr>"

definition get_or_create_dead_letter :: "DeadLetterJob \<Rightarrow> db \<Rightarrow> db result" where
  "get_or_create_dead_letter x d =
     (case row_get dl_job (dl_job x) (dead_letters d) of
        Inr _ \<Rightarrow> Inr d
      | Inl DoesNotExist \<Rightarrow> insert_dead_letter x d
      | Inl e \<Rightarrow> Inl e)"

definition fail_job ::
  "time \<Rightarrow> uuid \<Rightarrow> string \<Rightarrow> (exn \<Rightarrow> string) \<Rightarrow> uuid \<Rightarrow> exn \<Rightarrow> FailureType \<Rightarrow> db \<Rightarrow> db result" where
  "fail_job now new_id format_exc library_text attempt_id exc failure_type' d =
     result_bind (get_attempt attempt_id d) (\<lambda>attempt.
     result_bind (get_job (att_job attempt) d) (\<lambda>job.
       let message = exc_str library_text exc;
           d1 = save_attempt (att_id attempt) (\<lambda>_. attempt\<lparr>
                  att_status := ATT_FAILED, failure_type := Some failure_type',
                  att_error_message := Some message, att_traceback := Some format_exc,
                  finished_at := Some now\<rparr>) d;
           can_retry = failure_type' \<in> {TRANSIENT, INFRASTRUCTURE, TIMEOUT, UNKNOWN}
                  \<and> RETRY_DELAYS (attempt_count job) \<noteq> None
       in result_bind
            (if can_retry then
               let delay = the (RETRY_DELAYS (attempt_count job));
                   retry_at = now + timedelta_seconds delay
               in Inr (job\<lparr>job_status := RETRY_WAIT, available_at := retry_at,
                        ready_since := retry_at\<rparr>, d1)
             else
               let job1 = job\<lparr>job_status := FAILED_FINAL, completed_at := Some now\<rparr>;
                   reason = (if failure_type' = PERMANENT then PERMANENT_FAILURE
                             else RETRIES_EXHAUSTED)
               in result_bind
                    (get_or_create_dead_letter (new_dead_letter new_id job1 reason message) d1)
                    (\<lambda>d2. Inr (job1, d2)))
            (\<lambda>(job2, d2).
               let job3 = job2\<lparr>last_error_message := Some message\<rparr>
               in release_capacity job3 (save_job (job_id job3) (\<lambda>_. job3) d2))))"

section \<open>The worker\<close>

text \<open>The \<open>except\<close> clauses of \<open>execute\<close>.\<close>

fun failure_type_of :: "exn \<Rightarrow> FailureType" where
  "failure_type_of (RetryableJobError _) = TRANSIENT"
| "failure_type_of (PermanentJobError _) = PERMANENT"
| "failure_type_of _ = UNKNOWN"

text \<open>
  What one run draws from its surroundings: the clock readings of its transactions, the host
  name, the new primary keys, \<open>traceback.format_exc()\<close> and the text of library exceptions.
\<close>

record execute_env =
  ex_claim_now :: time
  ex_hostname :: string
  ex_attempt_id :: uuid
  ex_complete_now :: time
  ex_fail_now :: time
  ex_dead_letter_id :: uuid
  ex_format_exc :: string
  ex_library_text :: "exn \<Rightarrow> string"

text \<open>
  The body of the \<open>try\<close>: an exception of the lookup, of the handler or of \<open>complete_job\<close> leaves
  what was committed before it.
\<close>

definition run_attempt ::
  "execute_env \<Rightarrow> registry \<Rightarrow> Job \<Rightarrow> JobAttempt \<Rightarrow> db \<Rightarrow> unit result \<times> db" where
  "run_attempt env reg job attempt d =
     (case get_handler reg (job_type job) of
        Inl e \<Rightarrow> (Inl e, d)
      | Inr handler \<Rightarrow>
          (case handler (payload job) \<lparr>ctx_job = job, ctx_attempt = attempt\<rparr> d of
             (Inl e, d1) \<Rightarrow> (Inl e, d1)
           | (Inr result', d1) \<Rightarrow>
               (case complete_job (ex_complete_now env) (att_id attempt) result' d1 of
                  Inl e \<Rightarrow> (Inl e, d1)
                | Inr d2 \<Rightarrow> (Inr (), d2))))"

definition execute :: "execute_env \<Rightarrow> registry \<Rightarrow> uuid \<Rightarrow> db \<Rightarrow> unit result \<times> db" where
  "execute env reg jid d =
     (case claim_job (ex_claim_now env) (ex_hostname env) (ex_attempt_id env) jid d of
        Inl e \<Rightarrow> (Inl e, d)
      | Inr (None, d1) \<Rightarrow> (Inr (), d1)
      | Inr (Some (attempt, job), d1) \<Rightarrow>
          (case run_attempt env reg job attempt d1 of
             (Inr u, d2) \<Rightarrow> (Inr u, d2)
           | (Inl exc, d2) \<Rightarrow>
               (case fail_job (ex_fail_now env) (ex_dead_letter_id env) (ex_format_exc env)
                       (ex_library_text env) (att_id attempt) exc (failure_type_of exc) d2 of
                  Inl e \<Rightarrow> (Inl e, d2)
                | Inr d3 \<Rightarrow> (Inr (), d3))))"

section \<open>Facts about the transactions\<close>

text \<open>
  \<open>released job d\<close> is what a successful \<open>release_capacity\<close> leaves: the job's reservation and
  locks gone, the tenant's count one lower unless it was 0.
\<close>

definition released :: "Job \<Rightarrow> db \<Rightarrow> db" where
  "released job d = save_scheduler_state (job_tenant job)
     (\<lambda>s. s\<lparr>active_reservations := active_reservations s - 1\<rparr>)
     (release_overlaps job
       (d\<lparr>reservations := rows_delete (\<lambda>r. res_job r = job_id job) (reservations d)\<rparr>))"

lemma released_simps [simp]:
  "tenants (released job d) = tenants d"
  "jobs (released job d) = jobs d"
  "attempts (released job d) = attempts d"
  "outbox (released job d) = outbox d"
  "dead_letters (released job d) = dead_letters d"
  "reservations (released job d) = rows_delete (\<lambda>r. res_job r = job_id job) (reservations d)"
  "overlap_locks (released job d) = rows_delete (\<lambda>l. lock_job l = job_id job) (overlap_locks d)"
  "scheduler_states (released job d) = rows_update (\<lambda>s. ss_tenant s = job_tenant job)
     (\<lambda>s. s\<lparr>active_reservations := active_reservations s - 1\<rparr>) (scheduler_states d)"
  by (simp_all add: released_def release_overlaps_def save_scheduler_state_def)

definition has_state :: "uuid \<Rightarrow> db \<Rightarrow> bool" where
  "has_state t d \<longleftrightarrow> (\<exists>s \<in> set (scheduler_states d). ss_tenant s = t)"

lemma rows_update_cong:
  "(\<And>r. r \<in> set rows \<Longrightarrow> P r \<Longrightarrow> f r = g r) \<Longrightarrow> rows_update P f rows = rows_update P g rows"
  by (auto simp: rows_update_def)

lemma release_capacity_eq:
  assumes "distinct (map ss_tenant (scheduler_states d))"
  shows "release_capacity job d =
    (if has_state (job_tenant job) d then Inr (released job d) else Inl DoesNotExist)"
proof (cases "get_scheduler_state (job_tenant job) d")
  case (Inl e)
  then have "e = DoesNotExist \<and> \<not> has_state (job_tenant job) d"
    using row_get_Inl_distinct [OF assms, of "job_tenant job" e]
    by (auto simp: get_scheduler_state_def has_state_def)
  with Inl show ?thesis
    by (simp add: release_capacity_def Let_def get_scheduler_state_def release_overlaps_def)
next
  case (Inr s)
  then have s: "s \<in> set (scheduler_states d)" "ss_tenant s = job_tenant job"
    using row_get_Inr_D by (fastforce simp: get_scheduler_state_def)+
  have only: "r = s" if "r \<in> set (scheduler_states d)" "ss_tenant r = job_tenant job" for r
    using assms s that by (auto simp: distinct_map inj_on_def)
  have "rows_update (\<lambda>r. ss_tenant r = job_tenant job)
          (\<lambda>r. r\<lparr>active_reservations := active_reservations s - 1\<rparr>) (scheduler_states d)
      = rows_update (\<lambda>r. ss_tenant r = job_tenant job)
          (\<lambda>r. r\<lparr>active_reservations := active_reservations r - 1\<rparr>) (scheduler_states d)"
    by (rule rows_update_cong) (auto dest: only)
  moreover have "rows_update (\<lambda>r. ss_tenant r = job_tenant job)
      (\<lambda>r. r\<lparr>active_reservations := active_reservations r - 1\<rparr>) (scheduler_states d)
      = scheduler_states d" if "active_reservations s = 0"
  proof -
    have "rows_update (\<lambda>r. ss_tenant r = job_tenant job)
        (\<lambda>r. r\<lparr>active_reservations := active_reservations r - 1\<rparr>) (scheduler_states d)
      = rows_update (\<lambda>r. ss_tenant r = job_tenant job) (\<lambda>r. r) (scheduler_states d)"
      using that by (intro rows_update_cong) (auto dest: only)
    then show ?thesis by (simp add: rows_update_def)
  qed
  moreover have "has_state (job_tenant job) d" using s by (auto simp: has_state_def)
  ultimately show ?thesis using Inr
    by (auto simp: release_capacity_def Let_def get_scheduler_state_def release_overlaps_def
        released_def save_scheduler_state_def)
qed

text \<open>With unique keys the row with a given key is one row.\<close>

definition keyed :: "db \<Rightarrow> bool" where
  "keyed d \<longleftrightarrow> distinct (map job_id (jobs d)) \<and> distinct (map att_id (attempts d))
     \<and> distinct (map ss_tenant (scheduler_states d)) \<and> distinct (map ten_id (tenants d))
     \<and> distinct (map dl_job (dead_letters d)) \<and> distinct (map dl_id (dead_letters d))
     \<and> distinct (map out_id (outbox d)) \<and> distinct (map res_job (reservations d))"

lemma keyedD:
  assumes "keyed d"
  shows "distinct (map job_id (jobs d))" "distinct (map att_id (attempts d))"
    "distinct (map ss_tenant (scheduler_states d))" "distinct (map ten_id (tenants d))"
    "distinct (map dl_job (dead_letters d))" "distinct (map dl_id (dead_letters d))"
    "distinct (map out_id (outbox d))" "distinct (map res_job (reservations d))"
  using assms by (simp_all add: keyed_def)

lemma same_key:
  "distinct (map key rows) \<Longrightarrow> r \<in> set rows \<Longrightarrow> s \<in> set rows \<Longrightarrow> key r = key s \<Longrightarrow> r = s"
  by (auto simp: distinct_map inj_on_def)

lemma get_job_Inr [simp]: "keyed d \<Longrightarrow> get_job k d = Inr j \<longleftrightarrow> j \<in> set (jobs d) \<and> job_id j = k"
  by (simp add: get_job_def row_get_distinct keyedD)

lemma get_attempt_Inr [simp]:
  "keyed d \<Longrightarrow> get_attempt k d = Inr a \<longleftrightarrow> a \<in> set (attempts d) \<and> att_id a = k"
  by (simp add: get_attempt_def row_get_distinct keyedD)

lemma get_tenant_Inr [simp]:
  "keyed d \<Longrightarrow> get_tenant k d = Inr t \<longleftrightarrow> t \<in> set (tenants d) \<and> ten_id t = k"
  by (simp add: get_tenant_def row_get_distinct keyedD)

lemma get_scheduler_state_Inr [simp]:
  "keyed d \<Longrightarrow> get_scheduler_state k d = Inr s \<longleftrightarrow> s \<in> set (scheduler_states d) \<and> ss_tenant s = k"
  by (simp add: get_scheduler_state_def row_get_distinct keyedD)

lemma save_job_cong:
  assumes "distinct (map job_id (jobs d))" "job \<in> set (jobs d)" "f job = g job"
  shows "save_job (job_id job) f d = save_job (job_id job) g d"
  unfolding save_job_def using assms same_key [OF assms(1) _ assms(2)]
  by (intro arg_cong [where f = "\<lambda>x. d\<lparr>jobs := x\<rparr>"] rows_update_cong) metis

lemma save_attempt_cong:
  assumes "distinct (map att_id (attempts d))" "a \<in> set (attempts d)" "f a = g a"
  shows "save_attempt (att_id a) f d = save_attempt (att_id a) g d"
  unfolding save_attempt_def using assms same_key [OF assms(1) _ assms(2)]
  by (intro arg_cong [where f = "\<lambda>x. d\<lparr>attempts := x\<rparr>"] rows_update_cong) metis

lemma save_frame [simp]:
  "jobs (save_attempt k fa d) = jobs d" "attempts (save_job k fj d) = attempts d"
  "jobs (save_job k fj d) = rows_update (\<lambda>r. job_id r = k) fj (jobs d)"
  "attempts (save_attempt k fa d) = rows_update (\<lambda>r. att_id r = k) fa (attempts d)"
  "tenants (save_job k fj d) = tenants d" "tenants (save_attempt k fa d) = tenants d"
  "reservations (save_job k fj d) = reservations d"
  "reservations (save_attempt k fa d) = reservations d"
  "overlap_locks (save_job k fj d) = overlap_locks d"
  "overlap_locks (save_attempt k fa d) = overlap_locks d"
  "outbox (save_job k fj d) = outbox d" "outbox (save_attempt k fa d) = outbox d"
  "dead_letters (save_job k fj d) = dead_letters d"
  "dead_letters (save_attempt k fa d) = dead_letters d"
  "scheduler_states (save_job k fj d) = scheduler_states d"
  "scheduler_states (save_attempt k fa d) = scheduler_states d"
  by (simp_all add: save_defs)

lemma has_state_save [simp]:
  "has_state t (save_job k fj d) = has_state t d"
  "has_state t (save_attempt k fa d) = has_state t d"
  by (simp_all add: has_state_def)

lemma keyed_save_job [simp]:
  assumes "\<And>r. r \<in> set (jobs d) \<Longrightarrow> job_id r = k \<Longrightarrow> job_id (f r) = job_id r"
  shows "keyed (save_job k f d) = keyed d"
proof -
  have "map job_id (rows_update (\<lambda>r. job_id r = k) f (jobs d)) = map job_id (jobs d)"
    by (rule map_rows_update) (rule assms)
  then show ?thesis by (simp add: keyed_def)
qed

lemma keyed_save_attempt [simp]:
  assumes "\<And>r. r \<in> set (attempts d) \<Longrightarrow> att_id r = k \<Longrightarrow> att_id (f r) = att_id r"
  shows "keyed (save_attempt k f d) = keyed d"
proof -
  have "map att_id (rows_update (\<lambda>r. att_id r = k) f (attempts d)) = map att_id (attempts d)"
    by (rule map_rows_update) (rule assms)
  then show ?thesis by (simp add: keyed_def)
qed

lemma keyed_released: "keyed d \<Longrightarrow> keyed (released job d)"
  by (simp add: keyed_def map_rows_update distinct_rows_delete)

section \<open>Outcomes of claim and completion\<close>

definition claimed_row :: "time \<Rightarrow> Job \<Rightarrow> Job" where
  "claimed_row now job = job\<lparr>attempt_count := Suc (attempt_count job), job_status := EXECUTING,
     started_at := (case started_at job of None \<Rightarrow> Some now | Some t \<Rightarrow> Some t)\<rparr>"

definition completed_row :: "time \<Rightarrow> json \<Rightarrow> Job \<Rightarrow> Job" where
  "completed_row now v job =
     job\<lparr>job_status := SUCCEEDED, job_result := v, completed_at := Some now\<rparr>"

lemma claimed_row_simps [simp]:
  "job_id (claimed_row now j) = job_id j" "job_tenant (claimed_row now j) = job_tenant j"
  "payload (claimed_row now j) = payload j" "job_status (claimed_row now j) = EXECUTING"
  "idempotency_key (claimed_row now j) = idempotency_key j"
  "attempt_count (claimed_row now j) = Suc (attempt_count j)"
  by (simp_all add: claimed_row_def)

lemma completed_row_simps [simp]:
  "job_id (completed_row now v j) = job_id j" "job_tenant (completed_row now v j) = job_tenant j"
  "payload (completed_row now v j) = payload j" "job_status (completed_row now v j) = SUCCEEDED"
  "idempotency_key (completed_row now v j) = idempotency_key j"
  "attempt_count (completed_row now v j) = attempt_count j"
  by (simp_all add: completed_row_def)

lemma claim_job_Some:
  assumes "keyed d" and "claim_job now host i jid d = Inr (Some (a, j), d')"
  obtains job where "job \<in> set (jobs d)" "job_id job = jid" "job_status job = QUEUED"
    "j = claimed_row now job" "att_id a = i" "att_job a = jid" "att_status a = RUNNING"
    "attempt_number a = Suc (attempt_count job)"
    "lease_expires_at a = Some (now + timedelta_minutes 5)"
    "d' = d\<lparr>jobs := rows_update (\<lambda>r. job_id r = jid) (claimed_row now) (jobs d),
       attempts := attempts d @ [a]\<rparr>"
    "\<forall>r \<in> set (attempts d). att_id r \<noteq> i
       \<and> \<not> (att_job r = jid \<and> attempt_number r = attempt_number a)"
proof -
  from assms(2) obtain job where
    first: "row_first job_id (filter (\<lambda>j. job_id j = jid) (jobs d)) = Some job"
    and q: "job_status job = QUEUED"
    by (auto simp: claim_job_def split: option.splits if_splits)
  then have job: "job \<in> set (jobs d)" "job_id job = jid"
    by (auto dest: row_first_Some_D(1))
  let ?f = "\<lambda>r. r\<lparr>job_status := EXECUTING, attempt_count := Suc (attempt_count job),
    started_at := started_at (claimed_row now job)\<rparr>"
  have save: "save_job jid ?f d = save_job jid (claimed_row now) d"
    using save_job_cong [OF keyedD(1) [OF assms(1)] job(1), of ?f "claimed_row now"] job(2)
    by (simp add: claimed_row_def)
  from assms(2) first q save job obtain d2 where
    a: "a = \<lparr>att_id = i, att_job = jid, attempt_number = Suc (attempt_count job),
      att_status = RUNNING, worker_id = Some host, failure_type = None,
      att_error_code = None, att_error_message = None, att_traceback = None,
      att_started_at = now, finished_at = None, heartbeat_at = Some now,
      lease_expires_at = Some (now + timedelta_minutes 5)\<rparr>"
    and ins: "insert_attempt a (save_job jid (claimed_row now) d) = Inr d'"
    and j: "j = claimed_row now job"
    by (auto simp: claim_job_def Let_def result_bind_eq_Inr claimed_row_def split: if_splits)
  from ins have "d' = save_job jid (claimed_row now) d
      \<lparr>attempts := attempts (save_job jid (claimed_row now) d) @ [a]\<rparr>"
    and "\<forall>r \<in> set (attempts d). att_id r \<noteq> i
       \<and> \<not> (att_job r = jid \<and> attempt_number r = attempt_number a)"
    using a by (auto simp: insert_attempt_def split: if_splits)
  then show thesis using that [of job] job q j a by (simp add: save_job_def)
qed

lemma claim_job_None:
  "claim_job now host i jid d = Inr (None, d') \<Longrightarrow> d' = d"
  by (auto simp: claim_job_def Let_def result_bind_eq_Inr split: option.splits if_splits)

lemma complete_job_Inr:
  assumes "keyed d" and "complete_job now i v d = Inr d'"
  obtains a job where "a \<in> set (attempts d)" "att_id a = i" "job \<in> set (jobs d)"
    "job_id job = att_job a" "has_state (job_tenant job) d"
    "d' = released job (save_job (att_job a) (completed_row now v)
       (save_attempt i (\<lambda>a. a\<lparr>att_status := ATT_SUCCEEDED, finished_at := Some now\<rparr>) d))"
proof -
  let ?upd = "\<lambda>a::JobAttempt. a\<lparr>att_status := ATT_SUCCEEDED, finished_at := Some now\<rparr>"
  from assms obtain a job where a: "a \<in> set (attempts d)" "att_id a = i"
    and job: "job \<in> set (jobs d)" "job_id job = att_job a"
    and rel: "release_capacity job (save_job (att_job a) (completed_row now v)
       (save_attempt i ?upd d)) = Inr d'"
    by (auto simp: complete_job_def result_bind_eq_Inr Let_def completed_row_def [abs_def])
  have "distinct (map ss_tenant (scheduler_states
      (save_job (att_job a) (completed_row now v) (save_attempt i ?upd d))))"
    using keyedD [OF assms(1)] by simp
  then show thesis using that [of a job] a job rel
    by (simp add: release_capacity_eq split: if_splits)
qed

end
