(* ===== verification/Failure.thy ===== *)
theory Failure
  imports Execution
begin

text \<open>
  \<open>jobs/services/failure.py\<close>: the failure decision shared with the reaper, and the relation of
  this module's failure path to the one the worker takes in \<open>execution.py\<close>.
\<close>

definition RETRYABLE :: "FailureType \<Rightarrow> bool" where
  "RETRYABLE ft \<longleftrightarrow> ft \<in> {TRANSIENT, INFRASTRUCTURE, TIMEOUT, UNKNOWN}"

definition FAILURE_RETRY_DELAYS :: "nat \<Rightarrow> int option" where
  "FAILURE_RETRY_DELAYS n = map_of [(1, 3), (2, 5), (3, 10)] n"

definition finalize_failure ::
  "time \<Rightarrow> uuid \<Rightarrow> uuid \<Rightarrow> FailureType \<Rightarrow> string \<Rightarrow> db \<Rightarrow> db result" where
  "finalize_failure now new_id jid ft message d =
     result_bind (get_job jid d) (\<lambda>job.
       let can_retry = RETRYABLE ft \<and> FAILURE_RETRY_DELAYS (attempt_count job) \<noteq> None
       in result_bind
            (if can_retry then
               let delay = the (FAILURE_RETRY_DELAYS (attempt_count job));
                   retry_at = now + timedelta_seconds delay
               in Inr (job\<lparr>job_status := RETRY_WAIT, available_at := retry_at,
                        ready_since := retry_at\<rparr>, d)
             else
               let job1 = job\<lparr>job_status := FAILED_FINAL, completed_at := Some now\<rparr>;
                   reason = (if ft = PERMANENT then PERMANENT_FAILURE else RETRIES_EXHAUSTED)
               in result_bind
                    (get_or_create_dead_letter (new_dead_letter new_id job1 reason message) d)
                    (\<lambda>d1. Inr (job1, d1)))
            (\<lambda>(job2, d2).
               let job3 = job2\<lparr>last_error_message := Some message\<rparr>
               in release_capacity job3 (save_job (job_id job3) (\<lambda>_. job3) d2)))"

text \<open>
  \<open>fail_attempt\<close> reads the clock once for the attempt (\<open>now\<close>) and once in
  \<open>finalize_failure\<close> (\<open>now'\<close>).
\<close>

definition fail_attempt ::
  "time \<Rightarrow> time \<Rightarrow> uuid \<Rightarrow> (exn \<Rightarrow> string) \<Rightarrow> uuid \<Rightarrow> exn \<Rightarrow> FailureType \<Rightarrow> db \<Rightarrow> db result" where
  "fail_attempt now now' new_id library_text attempt_id exc ft d =
     result_bind (get_attempt attempt_id d) (\<lambda>attempt.
       let d1 = save_attempt (att_id attempt) (\<lambda>_. attempt\<lparr>
             att_status := ATT_FAILED, failure_type := Some ft,
             att_error_message := Some (exc_str library_text exc), finished_at := Some now\<rparr>) d
       in finalize_failure now' new_id (att_job attempt) ft (exc_str library_text exc) d1)"

section \<open>What a failure makes of a job\<close>

text \<open>
  The row the decision leaves, as a function of the one it found: the retry branch and the
  final branch.
\<close>

definition retries :: "FailureType \<Rightarrow> Job \<Rightarrow> bool" where
  "retries ft job \<longleftrightarrow> ft \<noteq> PERMANENT \<and> 1 \<le> attempt_count job \<and> attempt_count job \<le> 3"

definition failed_row :: "time \<Rightarrow> FailureType \<Rightarrow> string \<Rightarrow> Job \<Rightarrow> Job" where
  "failed_row now ft message job =
     (if retries ft job
      then job\<lparr>job_status := RETRY_WAIT,
             available_at := now + timedelta_seconds (retry_delay job),
             ready_since := now + timedelta_seconds (retry_delay job),
             last_error_message := Some message\<rparr>
      else job\<lparr>job_status := FAILED_FINAL, completed_at := Some now,
             last_error_message := Some message\<rparr>)"

definition dead_letter_reason :: "FailureType \<Rightarrow> DeadLetterReason" where
  "dead_letter_reason ft = (if ft = PERMANENT then PERMANENT_FAILURE else RETRIES_EXHAUSTED)"

lemma failed_row_simps [simp]:
  "job_id (failed_row now ft m job) = job_id job"
  "job_tenant (failed_row now ft m job) = job_tenant job"
  "payload (failed_row now ft m job) = payload job"
  "attempt_count (failed_row now ft m job) = attempt_count job"
  "idempotency_key (failed_row now ft m job) = idempotency_key job"
  "job_status (failed_row now ft m job) = (if retries ft job then RETRY_WAIT else FAILED_FINAL)"
  by (simp_all add: failed_row_def)

lemma FAILURE_RETRY_DELAYS_eq: "FAILURE_RETRY_DELAYS = RETRY_DELAYS"
  by (rule ext) (simp add: FAILURE_RETRY_DELAYS_def RETRY_DELAYS_def)

lemma retries_iff:
  "retries ft job \<longleftrightarrow> ft \<in> {TRANSIENT, INFRASTRUCTURE, TIMEOUT, UNKNOWN}
     \<and> RETRY_DELAYS (attempt_count job) \<noteq> None"
  using RETRY_DELAYS_iff [of "attempt_count job"] by (cases ft) (auto simp: retries_def)

text \<open>
  The failure of a job in one step, on the database in which the attempt is already marked: no
  dead letter on the retry branch, one dead letter per job on the final branch.
\<close>

definition fail_row_tx ::
  "time \<Rightarrow> uuid \<Rightarrow> Job \<Rightarrow> FailureType \<Rightarrow> string \<Rightarrow> db \<Rightarrow> db result" where
  "fail_row_tx now new_id job ft message d =
     result_bind
       (if retries ft job then Inr d
        else get_or_create_dead_letter
               (new_dead_letter new_id job (dead_letter_reason ft) message) d)
       (\<lambda>d2. release_capacity job
          (save_job (job_id job) (\<lambda>_. failed_row now ft message job) d2))"

lemma release_capacity_cong:
  "job_id j = job_id k \<Longrightarrow> job_tenant j = job_tenant k \<Longrightarrow> release_capacity j = release_capacity k"
  by (rule ext) (simp add: release_capacity_def release_overlaps_def Let_def cong: if_cong)

lemma new_dead_letter_cong [simp]:
  "new_dead_letter i (job\<lparr>job_status := s, completed_at := c\<rparr>) r m = new_dead_letter i job r m"
  by (simp add: new_dead_letter_def)

lemma finalize_failure_eq:
  "finalize_failure now new_id jid ft message d =
     result_bind (get_job jid d) (\<lambda>job. fail_row_tx now new_id job ft message d)"
proof -
  have "finalize_failure now new_id jid ft message d = fail_row_tx now new_id job ft message d"
    if "get_job jid d = Inr job" for job
    using that retries_iff [of ft job]
    by (auto simp: finalize_failure_def fail_row_tx_def RETRYABLE_def FAILURE_RETRY_DELAYS_eq
        failed_row_def Let_def retry_delay_def dead_letter_reason_def result_bind_def
        split: sum.splits option.splits intro!: release_capacity_cong [THEN fun_cong])
  then show ?thesis by (cases "get_job jid d") (simp_all add: finalize_failure_def)
qed

lemma fail_job_eq:
  "fail_job now new_id tb lib aid exc ft d =
     result_bind (get_attempt aid d) (\<lambda>attempt. result_bind (get_job (att_job attempt) d) (\<lambda>job.
       fail_row_tx now new_id job ft (exc_str lib exc)
         (save_attempt (att_id attempt) (\<lambda>_. attempt\<lparr>att_status := ATT_FAILED,
            failure_type := Some ft, att_error_message := Some (exc_str lib exc),
            att_traceback := Some tb, finished_at := Some now\<rparr>) d)))"
proof -
  have "fail_job now new_id tb lib aid exc ft d = fail_row_tx now new_id job ft (exc_str lib exc)
         (save_attempt (att_id attempt) (\<lambda>_. attempt\<lparr>att_status := ATT_FAILED,
            failure_type := Some ft, att_error_message := Some (exc_str lib exc),
            att_traceback := Some tb, finished_at := Some now\<rparr>) d)"
    if "get_attempt aid d = Inr attempt" and "get_job (att_job attempt) d = Inr job" for attempt job
    using that retries_iff [of ft job]
    by (auto simp: fail_job_def fail_row_tx_def
        failed_row_def Let_def retry_delay_def dead_letter_reason_def result_bind_def
        split: sum.splits option.splits intro!: release_capacity_cong [THEN fun_cong])
  moreover have "fail_job now new_id tb lib aid exc ft d = Inl e"
    if "get_attempt aid d = Inl e
      \<or> (\<exists>attempt. get_attempt aid d = Inr attempt \<and> get_job (att_job attempt) d = Inl e)" for e
    using that by (auto simp: fail_job_def)
  ultimately show ?thesis
    by (auto simp: result_bind_def split: sum.splits)
qed

section \<open>Outcomes\<close>

lemma fail_row_tx_Inr:
  assumes "keyed d" "job \<in> set (jobs d)" "fail_row_tx now i job ft m d = Inr d'"
  obtains d2 where "d' = released job (save_job (job_id job) (failed_row now ft m) d2)"
    "has_state (job_tenant job) d"
    "d2 = d \<and> (retries ft job \<or> (\<exists>x \<in> set (dead_letters d). dl_job x = job_id job))
     \<or> (let x = new_dead_letter i job (dead_letter_reason ft) m
        in d2 = d\<lparr>dead_letters := dead_letters d @ [x]\<rparr> \<and> \<not> retries ft job
           \<and> (\<forall>y \<in> set (dead_letters d). dl_id y \<noteq> i \<and> dl_job y \<noteq> job_id job))"
proof -
  from assms(3) obtain d2 where
    d2: "(if retries ft job then Inr d else get_or_create_dead_letter
           (new_dead_letter i job (dead_letter_reason ft) m) d) = Inr d2"
    and rel: "release_capacity job (save_job (job_id job) (\<lambda>_. failed_row now ft m job) d2) = Inr d'"
    by (auto simp: fail_row_tx_def result_bind_eq_Inr)
  let ?x = "new_dead_letter i job (dead_letter_reason ft) m"
  have alt: "d2 = d \<and> (retries ft job \<or> (\<exists>x \<in> set (dead_letters d). dl_job x = job_id job))
     \<or> d2 = d\<lparr>dead_letters := dead_letters d @ [?x]\<rparr> \<and> \<not> retries ft job
        \<and> (\<forall>y \<in> set (dead_letters d). dl_id y \<noteq> i \<and> dl_job y \<noteq> job_id job)"
    using d2
    by (auto simp: get_or_create_dead_letter_def insert_dead_letter_def new_dead_letter_def
        split: if_splits sum.splits exn.splits dest: row_get_Inr_D)
  then have frame: "jobs d2 = jobs d" "scheduler_states d2 = scheduler_states d" by auto
  have "save_job (job_id job) (\<lambda>_. failed_row now ft m job) d2
      = save_job (job_id job) (failed_row now ft m) d2"
    using assms(1,2) frame keyedD(1) by (intro save_job_cong) auto
  with rel have "release_capacity job (save_job (job_id job) (failed_row now ft m) d2) = Inr d'"
    by simp
  moreover have "distinct (map ss_tenant (scheduler_states
      (save_job (job_id job) (failed_row now ft m) d2)))"
    using keyedD(3) [OF assms(1)] frame by simp
  ultimately have "d' = released job (save_job (job_id job) (failed_row now ft m) d2)"
    "has_state (job_tenant job) d2"
    by (simp_all add: release_capacity_eq split: if_splits)
  then show thesis using that [of d2] alt frame by (simp add: has_state_def Let_def)
qed

text \<open>
  The failure of a job on a database whose keys are unique, with a fresh key for the dead letter:
  it never raises, and this is the database it leaves.
\<close>

definition dead_lettered :: "FailureType \<Rightarrow> Job \<Rightarrow> db \<Rightarrow> bool" where
  "dead_lettered ft job d \<longleftrightarrow> \<not> retries ft job \<and> (\<forall>x \<in> set (dead_letters d). dl_job x \<noteq> job_id job)"

definition failed_db :: "time \<Rightarrow> uuid \<Rightarrow> Job \<Rightarrow> FailureType \<Rightarrow> string \<Rightarrow> db \<Rightarrow> db" where
  "failed_db now i job ft m d = released job (save_job (job_id job) (failed_row now ft m)
     (d\<lparr>dead_letters := dead_letters d @
        (if dead_lettered ft job d then [new_dead_letter i job (dead_letter_reason ft) m] else [])\<rparr>))"

lemma fail_row_total:
  assumes "keyed d" "job \<in> set (jobs d)" "has_state (job_tenant job) d"
    and "attempt_count job \<le> smallint_max" "\<forall>x \<in> set (dead_letters d). dl_id x \<noteq> i"
  shows "fail_row_tx now i job ft m d = Inr (failed_db now i job ft m d)"
proof -
  let ?x = "new_dead_letter i job (dead_letter_reason ft) m"
  let ?d2 = "d\<lparr>dead_letters := dead_letters d @ (if dead_lettered ft job d then [?x] else [])\<rparr>"
  have id: "d\<lparr>dead_letters := dead_letters d\<rparr> = d" by simp
  have "(if retries ft job then Inr d else get_or_create_dead_letter ?x d) = Inr ?d2"
  proof (cases "retries ft job \<or> (\<exists>x \<in> set (dead_letters d). dl_job x = job_id job)")
    case True
    then have "retries ft job \<or> (\<exists>x. row_get dl_job (job_id job) (dead_letters d) = Inr x)"
      using row_get_distinct [OF keyedD(5) [OF assms(1)]] by blast
    with True show ?thesis
      by (auto simp: dead_lettered_def get_or_create_dead_letter_def new_dead_letter_def id)
  next
    case False
    then have "row_get dl_job (job_id job) (dead_letters d) = Inl DoesNotExist"
      by (simp add: row_get_absent)
    with False assms(4,5) show ?thesis
      by (auto simp: dead_lettered_def get_or_create_dead_letter_def insert_dead_letter_def
          new_dead_letter_def)
  qed
  moreover have "save_job (job_id job) (\<lambda>_. failed_row now ft m job) ?d2
      = save_job (job_id job) (failed_row now ft m) ?d2"
    using keyedD(1) [OF assms(1)] assms(2) by (intro save_job_cong) auto
  moreover have "distinct (map ss_tenant (scheduler_states (save_job (job_id job) (failed_row now ft m) ?d2)))"
    using keyedD(3) [OF assms(1)] by simp
  moreover have "has_state (job_tenant job) (save_job (job_id job) (failed_row now ft m) ?d2)"
    using assms(3) by (simp add: has_state_def)
  ultimately show ?thesis by (simp add: fail_row_tx_def failed_db_def release_capacity_eq)
qed

end
