(* ===== verification/Dispatcher.thy ===== *)
theory Dispatcher
  imports Execution
begin

text \<open>
  \<open>jobs/services/dispatcher.py\<close>: choosing the next job of a tenant, taking its resource lock and
  reserving a slot for it. The rows \<open>select_for_update(skip_locked=True)\<close> skips because another
  transaction holds them are an input, as are the clock, the new primary keys and tokens.
\<close>

definition CANDIDATE_LIMIT :: nat where
  "CANDIDATE_LIMIT = 10"

record dispatch_env =
  de_now :: time
  de_locked :: "uuid \<Rightarrow> bool"
  de_reservation_id :: uuid
  de_lease_token :: uuid
  de_outbox_id :: uuid
  de_outbox_created :: time
  de_lock_now :: "uuid \<Rightarrow> time"
  de_lock_id :: "uuid \<Rightarrow> uuid"
  de_lock_token :: "uuid \<Rightarrow> uuid"
  de_str :: "json \<Rightarrow> string"

section \<open>The operations\<close>

definition new_reservation :: "dispatch_env \<Rightarrow> Job \<Rightarrow> uuid \<Rightarrow> JobExecutionReservation" where
  "new_reservation env job tenant_id =
     \<lparr>res_id = de_reservation_id env, res_job = job_id job, res_tenant = tenant_id,
      res_lease_token = de_lease_token env, res_expires_at = de_now env + timedelta_minutes 5\<rparr>"

definition new_outbox_event :: "dispatch_env \<Rightarrow> Job \<Rightarrow> JobOutbox" where
  "new_outbox_event env job =
     \<lparr>out_id = de_outbox_id env, out_job = job_id job, event_type = DISPATCH_JOB,
      out_status = PENDING, out_payload = JObj [], publish_attempts = 0,
      out_available_at = de_now env, published_at = None, last_error = None,
      out_created_at = de_outbox_created env\<rparr>"

text \<open>\<open>_reserve_job\<close>: \<open>job\<close> and \<open>state\<close> are the instances in memory.\<close>

definition reserve_job ::
  "dispatch_env \<Rightarrow> Job \<Rightarrow> TenantSchedulerState \<Rightarrow> db \<Rightarrow> (Job \<times> db) result" where
  "reserve_job env job state d =
     result_bind (insert_reservation (new_reservation env job (ss_tenant state)) d) (\<lambda>d1.
       let now = de_now env;
           job1 = job\<lparr>job_status := QUEUED, queued_at := Some now\<rparr>;
           d2 = save_job (job_id job)
                  (\<lambda>j. j\<lparr>job_status := job_status job1, queued_at := queued_at job1\<rparr>) d1;
           d3 = save_scheduler_state (ss_tenant state)
                  (\<lambda>s. s\<lparr>active_reservations := active_reservations state + 1,
                        last_dispatched_at := Some now\<rparr>) d2
       in result_bind (insert_outbox (new_outbox_event env job1) d3) (\<lambda>d4. Inr (job1, d4)))"

text \<open>The loop over the candidates: the first whose lock is free, or needs none, is reserved.\<close>

fun try_candidates ::
  "dispatch_env \<Rightarrow> TenantSchedulerState \<Rightarrow> Job list \<Rightarrow> db \<Rightarrow> (Job option \<times> db) result" where
  "try_candidates env state [] d = Inr (None, d)"
| "try_candidates env state (job # rest) d =
     result_bind (json_get (payload job) ''overlap_key'') (\<lambda>overlap_key.
       if truthy overlap_key then
         result_bind (acquire_overlap (de_lock_now env (job_id job)) (de_lock_id env (job_id job))
             (de_lock_token env (job_id job)) job (char_field (de_str env) overlap_key) TENANT d)
           (\<lambda>(lock, d1).
             if lock = None then try_candidates env state rest d1
             else result_bind (reserve_job env job state d1) (\<lambda>(j, d2). Inr (Some j, d2)))
       else result_bind (reserve_job env job state d) (\<lambda>(j, d2). Inr (Some j, d2)))"

definition dispatch_candidates :: "dispatch_env \<Rightarrow> uuid \<Rightarrow> db \<Rightarrow> Job list" where
  "dispatch_candidates env tenant_id d =
     take CANDIDATE_LIMIT (sort_key dispatch_order
       (filter (\<lambda>j. ready tenant_id (de_now env) j \<and> \<not> de_locked env (job_id j)) (jobs d)))"

definition dispatch_next :: "dispatch_env \<Rightarrow> uuid \<Rightarrow> db \<Rightarrow> (Job option \<times> db) result" where
  "dispatch_next env tenant_id d =
     result_bind (get_scheduler_state tenant_id d) (\<lambda>state.
     result_bind (get_tenant (ss_tenant state) d) (\<lambda>tenant.
       if max_concurrent_jobs tenant \<le> active_reservations state then Inr (None, d)
       else try_candidates env state (dispatch_candidates env tenant_id d) d))"

section \<open>What a job asks for\<close>

text \<open>
  The resource a job needs: none, a key, or an error when its payload is no dict.
\<close>

definition resource_of :: "dispatch_env \<Rightarrow> Job \<Rightarrow> string option result" where
  "resource_of env job =
     result_bind (json_get (payload job) ''overlap_key'') (\<lambda>k.
       Inr (if truthy k then Some (char_field (de_str env) k) else None))"

lemma candidates_ready:
  assumes "job \<in> set (dispatch_candidates env t d)"
  shows "job \<in> set (jobs d)" "ready t (de_now env) job" "\<not> de_locked env (job_id job)"
  using assms by (auto simp: dispatch_candidates_def dest: in_set_takeD)

lemma candidates_sorted: "sorted (map dispatch_order (dispatch_candidates env t d))"
  by (simp add: dispatch_candidates_def take_map [symmetric] sorted_wrt_take)

lemma candidates_length: "length (dispatch_candidates env t d) \<le> 10"
  by (simp add: dispatch_candidates_def CANDIDATE_LIMIT_def)

section \<open>Outcome of a dispatch\<close>

text \<open>
  The database after a dispatch of \<open>job\<close>, on top of the one in which its lock is taken.
\<close>

definition reserved :: "dispatch_env \<Rightarrow> Job \<Rightarrow> TenantSchedulerState \<Rightarrow> db \<Rightarrow> db" where
  "reserved env job state d = d\<lparr>
     reservations := reservations d @ [new_reservation env job (ss_tenant state)],
     jobs := rows_update (\<lambda>r. job_id r = job_id job)
       (\<lambda>j. j\<lparr>job_status := QUEUED, queued_at := Some (de_now env)\<rparr>) (jobs d),
     scheduler_states := rows_update (\<lambda>s. ss_tenant s = ss_tenant state)
       (\<lambda>s. s\<lparr>active_reservations := active_reservations state + 1,
             last_dispatched_at := Some (de_now env)\<rparr>) (scheduler_states d),
     outbox := outbox d @ [new_outbox_event env job]\<rparr>"

lemma reserve_job_Inr:
  assumes "reserve_job env job state d = Inr (j, d')"
  shows "j = job\<lparr>job_status := QUEUED, queued_at := Some (de_now env)\<rparr>"
    and "d' = reserved env job state d"
    and "\<forall>r \<in> set (reservations d). res_job r \<noteq> job_id job \<and> res_id r \<noteq> de_reservation_id env
       \<and> res_lease_token r \<noteq> de_lease_token env"
    and "\<forall>e \<in> set (outbox d). out_id e \<noteq> de_outbox_id env"
  using assms
  by (auto simp: reserve_job_def result_bind_eq_Inr insert_reservation_def insert_outbox_def
      save_job_def save_scheduler_state_def reserved_def new_reservation_def new_outbox_event_def
      Let_def split: if_splits)

text \<open>
  A dispatched job is a candidate; every candidate before it was refused its lock; its own lock
  is taken, when it needs one; and the slot is reserved.
\<close>

lemma try_candidates_Some:
  assumes "try_candidates env state cs d = Inr (Some j, d')"
  obtains before job rest d1 where "cs = before @ job # rest"
    "\<forall>b \<in> set before. \<exists>k. resource_of env b = Inr (Some k)
       \<and> acquire_overlap (de_lock_now env (job_id b)) (de_lock_id env (job_id b))
           (de_lock_token env (job_id b)) b k TENANT d = Inr (None, d)"
    "case resource_of env job of
       Inl _ \<Rightarrow> False
     | Inr None \<Rightarrow> d1 = d
     | Inr (Some k) \<Rightarrow> acquired job k d d1"
    "reserve_job env job state d1 = Inr (j, d')"
proof -
  have "\<exists>before job rest d1. cs = before @ job # rest
    \<and> (\<forall>b \<in> set before. \<exists>k. resource_of env b = Inr (Some k)
       \<and> acquire_overlap (de_lock_now env (job_id b)) (de_lock_id env (job_id b))
           (de_lock_token env (job_id b)) b k TENANT d = Inr (None, d))
    \<and> (case resource_of env job of Inl _ \<Rightarrow> False | Inr None \<Rightarrow> d1 = d
        | Inr (Some k) \<Rightarrow> acquired job k d d1)
    \<and> reserve_job env job state d1 = Inr (j, d')"
    using assms
  proof (induction cs)
    case (Cons c cs)
    obtain v where v: "json_get (payload c) ''overlap_key'' = Inr v"
      using Cons.prems by (auto simp: result_bind_eq_Inr)
    show ?case
    proof (cases "truthy v")
      case False
      with v Cons.prems have "reserve_job env c state d = Inr (j, d')"
        by (auto simp: result_bind_eq_Inr)
      with v False show ?thesis
        by (intro exI [of _ "[]"] exI [of _ c] exI [of _ cs] exI [of _ d])
          (simp add: resource_of_def)
    next
      case True
      let ?k = "char_field (de_str env) v"
      obtain lock d1 where acq: "acquire_overlap (de_lock_now env (job_id c))
          (de_lock_id env (job_id c)) (de_lock_token env (job_id c)) c ?k TENANT d = Inr (lock, d1)"
        using v True Cons.prems by (auto simp: result_bind_eq_Inr)
      have res: "resource_of env c = Inr (Some ?k)"
        using v True by (simp add: resource_of_def)
      show ?thesis
      proof (cases lock)
        case None
        then have "d1 = d"
          using acq by (cases rule: acquire_overlap_cases [of "de_lock_now env (job_id c)"
              "de_lock_id env (job_id c)" "de_lock_token env (job_id c)" c ?k TENANT d]) auto
        then have "try_candidates env state cs d = Inr (Some j, d')"
          using Cons.prems v True acq None by simp
        from Cons.IH [OF this] obtain before job rest d2 where
          "cs = before @ job # rest"
          "\<forall>b \<in> set before. \<exists>k. resource_of env b = Inr (Some k)
             \<and> acquire_overlap (de_lock_now env (job_id b)) (de_lock_id env (job_id b))
                 (de_lock_token env (job_id b)) b k TENANT d = Inr (None, d)"
          "case resource_of env job of Inl _ \<Rightarrow> False | Inr None \<Rightarrow> d2 = d
            | Inr (Some k) \<Rightarrow> acquired job k d d2"
          "reserve_job env job state d2 = Inr (j, d')" by blast
        then show ?thesis
          using res acq None \<open>d1 = d\<close>
          by (intro exI [of _ "c # before"] exI [of _ job] exI [of _ rest] exI [of _ d2]) auto
      next
        case (Some l)
        then have "reserve_job env c state d1 = Inr (j, d')"
          using Cons.prems v True acq by (auto simp: result_bind_eq_Inr)
        moreover have "acquired c ?k d d1"
          using acq Some by (auto simp: acquired_def)
        ultimately show ?thesis
          using res
          by (intro exI [of _ "[]"] exI [of _ c] exI [of _ cs] exI [of _ d1]) simp
      qed
    qed
  qed simp
  then show thesis using that by blast
qed

text \<open>The same for the whole transaction.\<close>

lemma dispatch_next_Some:
  assumes "keyed d" and "dispatch_next env t d = Inr (Some j, d')"
  obtains state tenant before job rest d1 where
    "state \<in> set (scheduler_states d)" "ss_tenant state = t"
    "tenant \<in> set (tenants d)" "ten_id tenant = t"
    "active_reservations state < max_concurrent_jobs tenant"
    "dispatch_candidates env t d = before @ job # rest"
    "\<forall>b \<in> set before. \<exists>k. resource_of env b = Inr (Some k)
       \<and> acquire_overlap (de_lock_now env (job_id b)) (de_lock_id env (job_id b))
           (de_lock_token env (job_id b)) b k TENANT d = Inr (None, d)"
    "case resource_of env job of Inl _ \<Rightarrow> False | Inr None \<Rightarrow> d1 = d
       | Inr (Some k) \<Rightarrow> acquired job k d d1"
    "reserve_job env job state d1 = Inr (j, d')"
proof -
  from assms obtain state tenant where
    s: "state \<in> set (scheduler_states d)" "ss_tenant state = t"
    and tn: "tenant \<in> set (tenants d)" "ten_id tenant = t"
    and lim: "active_reservations state < max_concurrent_jobs tenant"
    and cands: "try_candidates env state (dispatch_candidates env t d) d = Inr (Some j, d')"
    by (auto simp: dispatch_next_def result_bind_eq_Inr split: if_splits)
  from cands show thesis
    by (rule try_candidates_Some) (rule that [OF s tn lim])
qed

lemma try_candidates_None: "try_candidates env state cs d = Inr (None, d') \<Longrightarrow> d' = d"
proof (induction cs)
  case (Cons c cs)
  obtain v where v: "json_get (payload c) ''overlap_key'' = Inr v"
    using Cons.prems by (auto simp: result_bind_eq_Inr)
  show ?case
  proof (cases "truthy v")
    case False
    with v Cons.prems show ?thesis by (auto simp: result_bind_eq_Inr)
  next
    case True
    let ?acq = "acquire_overlap (de_lock_now env (job_id c)) (de_lock_id env (job_id c))
      (de_lock_token env (job_id c)) c (char_field (de_str env) v) TENANT d"
    from Cons.prems v True obtain lock d1 where acq: "?acq = Inr (lock, d1)"
      by (auto simp: result_bind_eq_Inr)
    with Cons.prems v True have "lock = None"
      and tail: "try_candidates env state cs d1 = Inr (None, d')"
      by (auto simp: result_bind_eq_Inr split: if_splits)
    then have "d1 = d"
      using acq by (cases rule: acquire_overlap_cases [of "de_lock_now env (job_id c)"
          "de_lock_id env (job_id c)" "de_lock_token env (job_id c)" c
          "char_field (de_str env) v" TENANT d]) auto
    with tail Cons.IH show ?thesis by simp
  qed
qed simp

text \<open>A dispatch that chooses no job changes nothing.\<close>

lemma dispatch_next_None: "dispatch_next env t d = Inr (None, d') \<Longrightarrow> d' = d"
  by (auto simp: dispatch_next_def result_bind_eq_Inr dest: try_candidates_None split: if_splits)

lemma reserved_simps [simp]:
  "tenants (reserved env job st d) = tenants d"
  "attempts (reserved env job st d) = attempts d"
  "overlap_locks (reserved env job st d) = overlap_locks d"
  "dead_letters (reserved env job st d) = dead_letters d"
  "reservations (reserved env job st d)
     = reservations d @ [new_reservation env job (ss_tenant st)]"
  "outbox (reserved env job st d) = outbox d @ [new_outbox_event env job]"
  "jobs (reserved env job st d) = rows_update (\<lambda>r. job_id r = job_id job)
     (\<lambda>j. j\<lparr>job_status := QUEUED, queued_at := Some (de_now env)\<rparr>) (jobs d)"
  "scheduler_states (reserved env job st d) = rows_update (\<lambda>s. ss_tenant s = ss_tenant st)
     (\<lambda>s. s\<lparr>active_reservations := active_reservations st + 1,
           last_dispatched_at := Some (de_now env)\<rparr>) (scheduler_states d)"
  by (simp_all add: reserved_def)

lemma acquired_simps:
  assumes "acquired job k d d'"
  shows "jobs d' = jobs d" "tenants d' = tenants d" "attempts d' = attempts d"
    "reservations d' = reservations d" "outbox d' = outbox d" "dead_letters d' = dead_letters d"
    "scheduler_states d' = scheduler_states d"
  using assms by (auto elim!: acquired_cases)

end
