(* ===== verification/Submission.thy ===== *)
theory Submission
  imports Models
begin

text \<open>
  \<open>jobs/services/submission.py\<close>: creating a job at most once per tenant and idempotency key.
  \<open>now\<close> is the clock reading used when no \<open>available_at\<close> is given, \<open>generated_key\<close> the text of
  the \<open>uuid4\<close> used when no key is given, \<open>new_id\<close> the primary key of a new row. A payload of
  \<open>None\<close> is \<open>JNull\<close>.
\<close>

record submission =
  sub_tenant :: uuid
  sub_job_type :: string
  sub_payload :: json
  sub_priority :: int
  sub_idempotency_key :: "string option"
  sub_available_at :: "time option"

text \<open>The keyword defaults of \<open>submit_job\<close>.\<close>

definition submission_defaults :: "uuid \<Rightarrow> string \<Rightarrow> submission" where
  "submission_defaults tenant jt =
     \<lparr>sub_tenant = tenant, sub_job_type = jt, sub_payload = JNull,
      sub_priority = JobPriority_value NORMAL, sub_idempotency_key = None,
      sub_available_at = None\<rparr>"

definition effective_key :: "string \<Rightarrow> submission \<Rightarrow> string" where
  "effective_key generated_key sub =
     (case sub_idempotency_key sub of
        None \<Rightarrow> generated_key
      | Some k \<Rightarrow> if k = [] then generated_key else k)"

definition submitted_job :: "time \<Rightarrow> uuid \<Rightarrow> string \<Rightarrow> submission \<Rightarrow> Job" where
  "submitted_job now new_id key sub =
     (let start = (case sub_available_at sub of None \<Rightarrow> now | Some t \<Rightarrow> t)
      in \<lparr>job_id = new_id, job_tenant = sub_tenant sub, job_type = sub_job_type sub,
          job_status = WAITING, priority = sub_priority sub,
          payload = (if sub_payload sub \<noteq> JNull then sub_payload sub else JObj []),
          job_result = JNull, idempotency_key = Some key, available_at = start, ready_since = start,
          attempt_count = 0, last_error_code = None, last_error_message = None,
          queued_at = None, started_at = None, completed_at = None, cancelled_at = None\<rparr>)"

text \<open>\<open>Job.objects.get(tenant=tenant, idempotency_key=idempotency_key)\<close>.\<close>

definition get_by_key :: "uuid \<Rightarrow> string \<Rightarrow> db \<Rightarrow> Job result" where
  "get_by_key tenant key d =
     row_get (\<lambda>j. (job_tenant j, idempotency_key j)) (tenant, Some key) (jobs d)"

definition submit_job ::
  "time \<Rightarrow> uuid \<Rightarrow> string \<Rightarrow> submission \<Rightarrow> db \<Rightarrow> ((Job \<times> bool) \<times> db) result" where
  "submit_job now new_id generated_key sub d =
     (let key = effective_key generated_key sub
      in case row_first job_id
             (filter (\<lambda>j. job_tenant j = sub_tenant sub \<and> idempotency_key j = Some key) (jobs d)) of
           Some existing \<Rightarrow> Inr ((existing, False), d)
         | None \<Rightarrow>
             let job = submitted_job now new_id key sub
             in case insert_job job d of
                  Inr d1 \<Rightarrow> Inr ((job, True), d1)
                | Inl IntegrityError \<Rightarrow>
                    result_bind (get_by_key (sub_tenant sub) key d) (\<lambda>j. Inr ((j, False), d))
                | Inl e \<Rightarrow> Inl e)"

lemma submitted_job_simps [simp]:
  "job_id (submitted_job now i key sub) = i"
  "job_tenant (submitted_job now i key sub) = sub_tenant sub"
  "job_type (submitted_job now i key sub) = sub_job_type sub"
  "job_status (submitted_job now i key sub) = WAITING"
  "priority (submitted_job now i key sub) = sub_priority sub"
  "idempotency_key (submitted_job now i key sub) = Some key"
  "attempt_count (submitted_job now i key sub) = 0"
  "completed_at (submitted_job now i key sub) = None"
  by (simp_all add: submitted_job_def Let_def)

text \<open>The unique constraint of the table, as an invariant of it.\<close>

definition keys_unique :: "db \<Rightarrow> bool" where
  "keys_unique d \<longleftrightarrow> distinct (map job_id (jobs d))
     \<and> (\<forall>i \<in> set (jobs d). \<forall>j \<in> set (jobs d). idempotency_key i \<noteq> None
          \<and> job_tenant i = job_tenant j \<and> idempotency_key i = idempotency_key j \<longrightarrow> i = j)"

definition has_key :: "uuid \<Rightarrow> string \<Rightarrow> Job \<Rightarrow> bool" where
  "has_key t key j \<longleftrightarrow> job_tenant j = t \<and> idempotency_key j = Some key"

lemma has_key_unique:
  "keys_unique d \<Longrightarrow> i \<in> set (jobs d) \<Longrightarrow> j \<in> set (jobs d) \<Longrightarrow> has_key t k i \<Longrightarrow> has_key t k j \<Longrightarrow> i = j"
  by (auto simp: keys_unique_def has_key_def)

text \<open>The outcomes of a submission: the job that has the key, a new row, or an error.\<close>

lemma submit_job_cases:
  assumes "submit_job now i g sub d = Inr ((j, created), d')"
  obtains (existing) "\<not> created" "d' = d" "j \<in> set (jobs d)"
      "has_key (sub_tenant sub) (effective_key g sub) j"
    | (new) "created" "j = submitted_job now i (effective_key g sub) sub"
      "insert_job j d = Inr d'" "d' = d\<lparr>jobs := jobs d @ [j]\<rparr>"
      "\<forall>r \<in> set (jobs d). \<not> has_key (sub_tenant sub) (effective_key g sub) r \<and> job_id r \<noteq> i"
proof -
  let ?key = "effective_key g sub"
  let ?same = "\<lambda>j. job_tenant j = sub_tenant sub \<and> idempotency_key j = Some ?key"
  let ?new = "submitted_job now i ?key sub"
  show thesis
  proof (cases "row_first job_id (filter ?same (jobs d))")
    case (Some r)
    then have "r \<in> set (filter ?same (jobs d))" by (rule row_first_Some_D)
    with Some assms existing show thesis
      by (auto simp: submit_job_def Let_def has_key_def)
  next
    case None
    then have none: "\<forall>r \<in> set (jobs d). \<not> has_key (sub_tenant sub) ?key r"
      by (auto simp: row_first_None filter_empty_conv has_key_def)
    show thesis
    proof (cases "insert_job ?new d")
      case (Inr d1)
      then have "d1 = d\<lparr>jobs := jobs d @ [?new]\<rparr>" "\<forall>r \<in> set (jobs d). job_id r \<noteq> i"
        by (auto simp: insert_job_def split: if_splits)
      with None Inr none assms new show thesis
        by (auto simp: submit_job_def Let_def)
    next
      case (Inl e)
      then have "e = IntegrityError" and "\<exists>r. get_by_key (sub_tenant sub) ?key d = Inr r"
        using None assms by (cases e; auto simp: submit_job_def Let_def result_bind_eq_Inr)+
      with none show thesis
        by (auto simp: get_by_key_def has_key_def dest!: row_get_Inr_D)
    qed
  qed
qed

lemma keys_unique_append:
  assumes "keys_unique d" and "\<forall>r \<in> set (jobs d). job_id r \<noteq> job_id j"
    and "\<forall>r \<in> set (jobs d). idempotency_key j \<noteq> None \<longrightarrow> job_tenant r = job_tenant j \<longrightarrow>
           idempotency_key r \<noteq> idempotency_key j"
  shows "keys_unique (d\<lparr>jobs := jobs d @ [j]\<rparr>)"
proof -
  have "distinct (map job_id (jobs d @ [j]))"
    using assms(1,2) by (auto simp: keys_unique_def)
  moreover have "i = k" if mem: "i \<in> set (jobs d @ [j])" "k \<in> set (jobs d @ [j])"
      and eqs: "idempotency_key i \<noteq> None" "job_tenant i = job_tenant k"
      "idempotency_key i = idempotency_key k" for i k
  proof (cases "i \<in> set (jobs d) \<and> k \<in> set (jobs d)")
    case True
    then show ?thesis using assms(1) eqs by (simp add: keys_unique_def)
  next
    case False
    then consider "i = j" "k = j" | "i = j" "k \<in> set (jobs d)" | "i \<in> set (jobs d)" "k = j"
      using mem by auto
    then show ?thesis using assms(3) eqs by cases (metis, metis, metis)
  qed
  ultimately have "distinct (map job_id (jobs d @ [j])) \<and> (\<forall>i \<in> set (jobs d @ [j]).
      \<forall>k \<in> set (jobs d @ [j]). idempotency_key i \<noteq> None \<and> job_tenant i = job_tenant k
        \<and> idempotency_key i = idempotency_key k \<longrightarrow> i = k)" by blast
  moreover have "jobs (d\<lparr>jobs := x\<rparr>) = x" for x by simp
  ultimately show ?thesis unfolding keys_unique_def by metis
qed

lemma submit_job_keys_unique:
  assumes "keys_unique d" and "submit_job now i g sub d = Inr ((j, created), d')"
  shows "keys_unique d'"
  using assms(2)
proof (cases rule: submit_job_cases)
  case existing
  with assms(1) show ?thesis by simp
next
  case new
  have "idempotency_key j = Some (effective_key g sub)" "job_tenant j = sub_tenant sub" "job_id j = i"
    using new(2) by simp_all
  with new(5) show ?thesis
    unfolding new(4) by (intro keys_unique_append [OF assms(1)]) (auto simp: has_key_def)
qed

text \<open>
  A second submission of the key finds the job the first one left, and creates nothing.
\<close>

lemma submit_again:
  assumes "keys_unique d" and "j \<in> set (jobs d)"
    and "has_key (sub_tenant sub) (effective_key g sub) j"
  shows "submit_job now i g sub d = Inr ((j, False), d)"
proof -
  let ?key = "effective_key g sub"
  let ?rows = "filter (\<lambda>j. job_tenant j = sub_tenant sub \<and> idempotency_key j = Some ?key) (jobs d)"
  have "j \<in> set ?rows" using assms(2,3) by (simp add: has_key_def)
  then have "?rows \<noteq> []" by (rule length_pos_if_in_set [THEN length_greater_0_conv [THEN iffD1]])
  then have "row_first job_id ?rows \<noteq> None" by (simp only: row_first_None not_False_eq_True)
  then obtain r where r: "row_first job_id ?rows = Some r" by blast
  then have "r \<in> set ?rows" by (rule row_first_Some_D)
  then have "r = j"
    using has_key_unique [OF assms(1) _ assms(2) _ assms(3), of r] by (simp add: has_key_def)
  with r show ?thesis by (simp add: submit_job_def Let_def)
qed

end
