(* ===== verification/Retry.thy ===== *)
theory Retry
  imports SchedulerState
begin

text \<open>
  \<open>jobs/services/retry.py\<close>: promoting the jobs whose backoff has elapsed, all in one
  transaction. \<open>locked\<close> are the rows other transactions hold, \<open>refresh_now\<close> the clock reading of
  each tenant's refresh.
\<close>

definition due_retries :: "time \<Rightarrow> (uuid \<Rightarrow> bool) \<Rightarrow> nat \<Rightarrow> db \<Rightarrow> Job list" where
  "due_retries now locked limit d =
     take limit (sort_key available_at
       (filter (\<lambda>j. job_status j = RETRY_WAIT \<and> available_at j \<le> now \<and> \<not> locked (job_id j))
          (jobs d)))"

definition promote :: "time \<Rightarrow> Job \<Rightarrow> db \<Rightarrow> db" where
  "promote now job d =
     save_job (job_id job) (\<lambda>j. j\<lparr>job_status := WAITING, ready_since := now\<rparr>) d"

definition promote_ready_retries ::
  "time \<Rightarrow> (uuid \<Rightarrow> bool) \<Rightarrow> (uuid \<Rightarrow> time) \<Rightarrow> nat \<Rightarrow> db \<Rightarrow> (nat \<times> db) result" where
  "promote_ready_retries now locked refresh_now limit d =
     (let js = due_retries now locked limit d;
          d1 = fold (promote now) js d;
          tenant_ids = remdups (map job_tenant js)
      in result_bind (try_each (\<lambda>t. refresh_scheduler_state (refresh_now t) t) tenant_ids d1)
           (\<lambda>d2. Inr (length js, d2)))"

lemma due_retries_mem:
  assumes "j \<in> set (due_retries now locked limit d)"
  shows "j \<in> set (jobs d)" "job_status j = RETRY_WAIT" "available_at j \<le> now" "\<not> locked (job_id j)"
  using assms by (auto simp: due_retries_def dest: in_set_takeD)

lemma promote_frame [simp]:
  "tenants (promote now j d) = tenants d" "attempts (promote now j d) = attempts d"
  "reservations (promote now j d) = reservations d"
  "overlap_locks (promote now j d) = overlap_locks d" "outbox (promote now j d) = outbox d"
  "dead_letters (promote now j d) = dead_letters d"
  "scheduler_states (promote now j d) = scheduler_states d"
  by (simp_all add: promote_def save_job_def)

text \<open>The promotion of a list of jobs is one UPDATE of the rows with their keys.\<close>

lemma jobs_promote_fold:
  "jobs (fold (promote now) js d) = rows_update (\<lambda>r. job_id r \<in> job_id ` set js)
     (\<lambda>r. r\<lparr>job_status := WAITING, ready_since := now\<rparr>) (jobs d)"
proof (induction js arbitrary: d)
  case Nil
  then show ?case by (simp add: rows_update_def)
next
  case (Cons j js)
  have "jobs (fold (promote now) (j # js) d) = rows_update (\<lambda>r. job_id r \<in> job_id ` set js)
     (\<lambda>r. r\<lparr>job_status := WAITING, ready_since := now\<rparr>) (jobs (promote now j d))"
    using Cons.IH by simp
  also have "\<dots> = rows_update (\<lambda>r. job_id r \<in> job_id ` set (j # js))
     (\<lambda>r. r\<lparr>job_status := WAITING, ready_since := now\<rparr>) (jobs d)"
    by (auto simp: promote_def save_job_def rows_update_def)
  finally show ?case .
qed

lemma promote_fold_frame [simp]:
  "tenants (fold (promote now) js d) = tenants d"
  "attempts (fold (promote now) js d) = attempts d"
  "reservations (fold (promote now) js d) = reservations d"
  "overlap_locks (fold (promote now) js d) = overlap_locks d"
  "outbox (fold (promote now) js d) = outbox d"
  "dead_letters (fold (promote now) js d) = dead_letters d"
  "scheduler_states (fold (promote now) js d) = scheduler_states d"
  by (induction js arbitrary: d) simp_all

lemma refresh_all_frame:
  assumes "try_each (\<lambda>t. refresh_scheduler_state (refresh_now t) t) ts d = Inr d'"
  shows "tenants d' = tenants d \<and> jobs d' = jobs d \<and> attempts d' = attempts d
    \<and> reservations d' = reservations d \<and> overlap_locks d' = overlap_locks d
    \<and> outbox d' = outbox d \<and> dead_letters d' = dead_letters d"
  by (rule try_each_invariant [where f = "\<lambda>t. refresh_scheduler_state (refresh_now t) t"
        and I = "\<lambda>x. tenants x = tenants d \<and> jobs x = jobs d \<and> attempts x = attempts d
          \<and> reservations x = reservations d \<and> overlap_locks x = overlap_locks d
          \<and> outbox x = outbox d \<and> dead_letters x = dead_letters d", OF _ _ assms])
    (auto dest: refresh_frame)

text \<open>
  What the batch does to the tables: the due jobs are WAITING, ready since now, every other job
  and every other table but the readiness cache is untouched, and the count is the batch's size.
\<close>

lemma promote_ready_retries_Inr:
  assumes "promote_ready_retries now locked refresh_now limit d = Inr (n, d')"
  shows "n = length (due_retries now locked limit d)"
    and "jobs d' = rows_update
      (\<lambda>r. job_id r \<in> job_id ` set (due_retries now locked limit d))
      (\<lambda>r. r\<lparr>job_status := WAITING, ready_since := now\<rparr>) (jobs d)"
    and "tenants d' = tenants d" "attempts d' = attempts d" "reservations d' = reservations d"
      "overlap_locks d' = overlap_locks d" "outbox d' = outbox d" "dead_letters d' = dead_letters d"
proof -
  let ?js = "due_retries now locked limit d"
  let ?d1 = "fold (promote now) ?js d"
  from assms have n: "n = length ?js"
    and all: "try_each (\<lambda>t. refresh_scheduler_state (refresh_now t) t)
      (remdups (map job_tenant ?js)) ?d1 = Inr d'"
    by (auto simp: promote_ready_retries_def Let_def result_bind_eq_Inr)
  show "n = length ?js" by (rule n)
  show "jobs d' = rows_update (\<lambda>r. job_id r \<in> job_id ` set ?js)
      (\<lambda>r. r\<lparr>job_status := WAITING, ready_since := now\<rparr>) (jobs d)"
    "tenants d' = tenants d" "attempts d' = attempts d" "reservations d' = reservations d"
    "overlap_locks d' = overlap_locks d" "outbox d' = outbox d" "dead_letters d' = dead_letters d"
    using refresh_all_frame [OF all] by (simp_all add: jobs_promote_fold)
qed

end
