(* ===== verification/Domain.thy ===== *)
theory Domain
  imports Models
begin

text \<open>
  The domain layer, \<open>jobs/domain/\<close>: the table of permitted status changes of a job and the
  validator of a change, with what the validator accepts.
\<close>

text \<open>
  \<open>ALLOWED_TRANSITIONS\<close>: a dict from a status to the set of permitted next statuses. The
  terminal statuses have no entry.
\<close>

definition ALLOWED_TRANSITIONS :: "JobStatus \<Rightarrow> JobStatus list option" where
  "ALLOWED_TRANSITIONS s = (case s of
       WAITING \<Rightarrow> Some [QUEUED, CANCELLED]
     | QUEUED \<Rightarrow> Some [EXECUTING, CANCEL_REQUESTED, WAITING]
     | EXECUTING \<Rightarrow> Some [SUCCEEDED, RETRY_WAIT, FAILED_FINAL, CANCEL_REQUESTED]
     | RETRY_WAIT \<Rightarrow> Some [WAITING, CANCELLED]
     | CANCEL_REQUESTED \<Rightarrow> Some [CANCELLED, SUCCEEDED]
     | _ \<Rightarrow> None)"

fun JobStatus_value :: "JobStatus \<Rightarrow> string" where
  "JobStatus_value WAITING = ''WAITING''"
| "JobStatus_value QUEUED = ''QUEUED''"
| "JobStatus_value EXECUTING = ''EXECUTING''"
| "JobStatus_value RETRY_WAIT = ''RETRY_WAIT''"
| "JobStatus_value CANCEL_REQUESTED = ''CANCEL_REQUESTED''"
| "JobStatus_value SUCCEEDED = ''SUCCEEDED''"
| "JobStatus_value FAILED_FINAL = ''FAILED_FINAL''"
| "JobStatus_value CANCELLED = ''CANCELLED''"

definition validate_transition :: "JobStatus \<Rightarrow> JobStatus \<Rightarrow> unit result" where
  "validate_transition current_status new_status =
     (let allowed = (case ALLOWED_TRANSITIONS current_status of None \<Rightarrow> [] | Some ss \<Rightarrow> ss)
      in if new_status \<notin> set allowed
         then Inl (InvalidJobTransition (''Invalid transition: '' @ JobStatus_value current_status
                @ '' -> '' @ JobStatus_value new_status))
         else Inr ())"

definition allowed :: "JobStatus \<Rightarrow> JobStatus \<Rightarrow> bool" where
  "allowed s t \<longleftrightarrow> validate_transition s t = Inr ()"

text \<open>The statuses of the source's comment \<open>Terminal States\<close>.\<close>

definition terminal :: "JobStatus \<Rightarrow> bool" where
  "terminal s \<longleftrightarrow> s \<in> {SUCCEEDED, FAILED_FINAL, CANCELLED}"

lemma allowed_iff:
  "allowed s t \<longleftrightarrow> (case ALLOWED_TRANSITIONS s of None \<Rightarrow> False | Some ts \<Rightarrow> t \<in> set ts)"
  by (auto simp: allowed_def validate_transition_def split: option.splits)

lemma allowed_simps [simp]:
  "allowed WAITING t \<longleftrightarrow> t = QUEUED \<or> t = CANCELLED"
  "allowed QUEUED t \<longleftrightarrow> t = EXECUTING \<or> t = CANCEL_REQUESTED \<or> t = WAITING"
  "allowed EXECUTING t \<longleftrightarrow> t = SUCCEEDED \<or> t = RETRY_WAIT \<or> t = FAILED_FINAL \<or> t = CANCEL_REQUESTED"
  "allowed RETRY_WAIT t \<longleftrightarrow> t = WAITING \<or> t = CANCELLED"
  "allowed CANCEL_REQUESTED t \<longleftrightarrow> t = CANCELLED \<or> t = SUCCEEDED"
  "\<not> allowed SUCCEEDED t" "\<not> allowed FAILED_FINAL t" "\<not> allowed CANCELLED t"
  by (auto simp: allowed_iff ALLOWED_TRANSITIONS_def)

text \<open>
  The statuses are exactly the terminal ones from which the table leads nowhere, and from every
  other status a terminal one can be reached along permitted changes.
\<close>

lemma terminal_iff_stuck: "terminal s \<longleftrightarrow> (\<forall>t. \<not> allowed s t)"
  by (cases s) (auto simp: terminal_def)

fun towards_terminal :: "JobStatus \<Rightarrow> JobStatus list" where
  "towards_terminal WAITING = [CANCELLED]"
| "towards_terminal QUEUED = [EXECUTING, SUCCEEDED]"
| "towards_terminal EXECUTING = [SUCCEEDED]"
| "towards_terminal RETRY_WAIT = [CANCELLED]"
| "towards_terminal CANCEL_REQUESTED = [CANCELLED]"
| "towards_terminal s = []"

fun allowed_path :: "JobStatus \<Rightarrow> JobStatus list \<Rightarrow> bool" where
  "allowed_path s [] = True"
| "allowed_path s (t # ts) = (allowed s t \<and> allowed_path t ts)"

lemma allowed_reaches_terminal:
  "allowed_path s (towards_terminal s) \<and> terminal (last (s # towards_terminal s))"
  by (cases s) (simp_all add: terminal_def)

end
