(* ===== verification/Cancel.thy ===== *)
theory Cancel
  imports Execution Domain
begin

text \<open>
  \<open>jobs/services/cancellation.py\<close>: cancelling a job according to the status it is in.
\<close>

definition cancel_job :: "time \<Rightarrow> uuid \<Rightarrow> db \<Rightarrow> (Job \<times> db) result" where
  "cancel_job now jid d =
     result_bind (get_job jid d) (\<lambda>job.
       if job_status job \<in> {SUCCEEDED, FAILED_FINAL, CANCELLED} then Inr (job, d)
       else result_bind
         (if job_status job \<in> {WAITING, RETRY_WAIT}
          then Inr (job\<lparr>job_status := CANCELLED, cancelled_at := Some now\<rparr>, d)
          else if job_status job = QUEUED
          then let job1 = job\<lparr>job_status := CANCELLED, cancelled_at := Some now\<rparr>
               in result_bind (release_capacity job1 d) (\<lambda>d1. Inr (job1, d1))
          else if job_status job = EXECUTING
          then Inr (job\<lparr>job_status := CANCEL_REQUESTED\<rparr>, d)
          else Inr (job, d))
         (\<lambda>(job2, d2). Inr (job2, save_job (job_id job2)
            (\<lambda>j. j\<lparr>job_status := job_status job2, cancelled_at := cancelled_at job2\<rparr>) d2)))"

text \<open>The status a cancellation leaves, by the status it finds.\<close>

fun cancelled_status :: "JobStatus \<Rightarrow> JobStatus" where
  "cancelled_status WAITING = CANCELLED"
| "cancelled_status RETRY_WAIT = CANCELLED"
| "cancelled_status QUEUED = CANCELLED"
| "cancelled_status EXECUTING = CANCEL_REQUESTED"
| "cancelled_status s = s"

definition cancel_row :: "time \<Rightarrow> Job \<Rightarrow> Job" where
  "cancel_row now job = job\<lparr>job_status := cancelled_status (job_status job),
     cancelled_at := (if job_status job \<in> {WAITING, RETRY_WAIT, QUEUED} then Some now
                      else cancelled_at job)\<rparr>"

lemma cancel_row_simps [simp]:
  "job_id (cancel_row now j) = job_id j" "job_tenant (cancel_row now j) = job_tenant j"
  "payload (cancel_row now j) = payload j" "attempt_count (cancel_row now j) = attempt_count j"
  "idempotency_key (cancel_row now j) = idempotency_key j"
  "job_status (cancel_row now j) = cancelled_status (job_status j)"
  by (simp_all add: cancel_row_def)

lemma save_job_released: "save_job k f (released job d) = released job (save_job k f d)"
  by (simp add: save_job_def released_def release_overlaps_def save_scheduler_state_def)

text \<open>
  One equation for the whole handler: the row becomes \<open>cancel_row\<close> of itself, and a QUEUED
  job's capacity is released.
\<close>

lemma cancel_job_eq:
  assumes "distinct (map job_id (jobs d))" "distinct (map ss_tenant (scheduler_states d))"
    and "get_job jid d = Inr job"
  shows "cancel_job now jid d =
    (if job_status job = QUEUED
     then if has_state (job_tenant job) d
          then Inr (cancel_row now job, released job (save_job jid (cancel_row now) d))
          else Inl DoesNotExist
     else Inr (cancel_row now job, save_job jid (cancel_row now) d))"
proof -
  have job: "job \<in> set (jobs d)" "job_id job = jid"
    using assms(3) by (auto simp: get_job_def dest: row_get_Inr_D)
  have only: "r = job" if "r \<in> set (jobs d)" "job_id r = jid" for r
    using assms(1) job that by (auto simp: distinct_map inj_on_def)
  have save: "save_job jid f d = save_job jid g d" if "f job = g job" for f g
    unfolding save_job_def using that
    by (intro arg_cong [where f = "\<lambda>x. d\<lparr>jobs := x\<rparr>"] rows_update_cong) (auto dest: only)
  have same: "save_job jid (cancel_row now) d = d" if "cancel_row now job = job"
  proof -
    have "save_job jid (cancel_row now) d = save_job jid (\<lambda>r. r) d" using that by (rule save)
    then show ?thesis by (simp add: save_job_def rows_update_def)
  qed
  have rel: "released (job\<lparr>job_status := s, cancelled_at := c\<rparr>) = released job" for s c
    by (rule ext) (simp add: released_def release_overlaps_def)
  have upd: "save_job jid (\<lambda>j. j\<lparr>job_status := job_status (cancel_row now job),
      cancelled_at := cancelled_at (cancel_row now job)\<rparr>) d = save_job jid (cancel_row now) d"
    by (rule save) (simp add: cancel_row_def)
  show ?thesis
    using job upd same
    by (cases "job_status job")
      (simp_all add: cancel_job_def assms(3) release_capacity_eq assms(2) rel cancel_row_def
        save_job_released Let_def)
qed

end
