(* ===== verification/DeadLetter.thy ===== *)
theory DeadLetter
  imports Execution
begin

text \<open>
  \<open>jobs/services/dead_letter.py\<close>: replaying a dead letter as a new job. \<open>generated_key\<close> is the
  text of the \<open>uuid4\<close> that is the default of \<open>idempotency_key\<close>.
\<close>

definition cloned_job :: "time \<Rightarrow> uuid \<Rightarrow> string \<Rightarrow> Job \<Rightarrow> Job" where
  "cloned_job now new_id generated_key source =
     \<lparr>job_id = new_id, job_tenant = job_tenant source, job_type = job_type source,
      job_status = WAITING, priority = priority source, payload = payload source,
      job_result = JNull, idempotency_key = Some generated_key, available_at = now,
      ready_since = now, attempt_count = 0, last_error_code = None, last_error_message = None,
      queued_at = None, started_at = None, completed_at = None, cancelled_at = None\<rparr>"

definition replay_dead_letter ::
  "time \<Rightarrow> time \<Rightarrow> uuid \<Rightarrow> string \<Rightarrow> uuid \<Rightarrow> db \<Rightarrow> (Job \<times> db) result" where
  "replay_dead_letter now refresh_now new_id generated_key dead_letter_id d =
     result_bind (get_dead_letter dead_letter_id d) (\<lambda>dlq.
     result_bind (get_job (dl_job dlq) d) (\<lambda>source.
       let new_job = cloned_job now new_id generated_key source
       in result_bind (insert_job new_job d) (\<lambda>d1.
            let d2 = save_dead_letter (dl_id dlq) (\<lambda>x. x\<lparr>dl_status := REPLAYED,
                       replayed_job := Some (job_id new_job), replayed_at := Some now\<rparr>) d1
            in result_bind (refresh_scheduler_state refresh_now (job_tenant new_job) d2)
                 (\<lambda>d3. Inr (new_job, d3)))))"

lemma cloned_job_simps [simp]:
  "job_id (cloned_job now i k s) = i" "job_tenant (cloned_job now i k s) = job_tenant s"
  "job_status (cloned_job now i k s) = WAITING" "payload (cloned_job now i k s) = payload s"
  "attempt_count (cloned_job now i k s) = 0" "idempotency_key (cloned_job now i k s) = Some k"
  "job_type (cloned_job now i k s) = job_type s" "priority (cloned_job now i k s) = priority s"
  by (simp_all add: cloned_job_def)

text \<open>
  A replay adds one job, marks the dead letter and refreshes the readiness cache; the source
  job, the attempts, reservations, locks and the outbox are as they were.
\<close>

lemma replay_dead_letter_Inr:
  assumes "replay_dead_letter now rnow i g dlid d = Inr (j, d')"
  obtains x source where "x \<in> set (dead_letters d)" "dl_id x = dlid"
    "source \<in> set (jobs d)" "job_id source = dl_job x" "j = cloned_job now i g source"
    "insert_job j d = Inr (d\<lparr>jobs := jobs d @ [j]\<rparr>)" "jobs d' = jobs d @ [j]"
    "dead_letters d' = rows_update (\<lambda>y. dl_id y = dlid) (\<lambda>y. y\<lparr>dl_status := REPLAYED,
       replayed_job := Some i, replayed_at := Some now\<rparr>) (dead_letters d)"
    "refresh_scheduler_state rnow (job_tenant j)
       (d\<lparr>jobs := jobs d', dead_letters := dead_letters d'\<rparr>) = Inr d'"
    "tenants d' = tenants d" "attempts d' = attempts d" "reservations d' = reservations d"
    "overlap_locks d' = overlap_locks d" "outbox d' = outbox d"
proof -
  from assms obtain x source d1 where
    x: "get_dead_letter dlid d = Inr x" and source: "get_job (dl_job x) d = Inr source"
    and ins: "insert_job (cloned_job now i g source) d = Inr d1"
    and ref: "refresh_scheduler_state rnow (job_tenant source)
      (save_dead_letter (dl_id x) (\<lambda>x. x\<lparr>dl_status := REPLAYED, replayed_job := Some i,
         replayed_at := Some now\<rparr>) d1) = Inr d'"
    and j: "j = cloned_job now i g source"
    by (auto simp: replay_dead_letter_def result_bind_eq_Inr Let_def)
  from ins have d1: "d1 = d\<lparr>jobs := jobs d @ [cloned_job now i g source]\<rparr>"
    by (auto simp: insert_job_def split: if_splits)
  have "dl_id x = dlid" "x \<in> set (dead_letters d)" "source \<in> set (jobs d)" "job_id source = dl_job x"
    using x source by (auto simp: get_dead_letter_def get_job_def dest: row_get_Inr_D)
  moreover have frame: "jobs d' = jobs d @ [j]"
    "dead_letters d' = rows_update (\<lambda>y. dl_id y = dlid) (\<lambda>y. y\<lparr>dl_status := REPLAYED,
       replayed_job := Some i, replayed_at := Some now\<rparr>) (dead_letters d)"
    "tenants d' = tenants d" "attempts d' = attempts d" "reservations d' = reservations d"
    "overlap_locks d' = overlap_locks d" "outbox d' = outbox d"
    using refresh_frame [OF ref] j d1 calculation(1) by (simp_all add: save_dead_letter_def)
  moreover have "refresh_scheduler_state rnow (job_tenant j)
       (d\<lparr>jobs := jobs d', dead_letters := dead_letters d'\<rparr>) = Inr d'"
    using ref frame(1,2) j d1 calculation(1) by (simp add: save_dead_letter_def)
  ultimately show thesis using that [of x source] j ins d1 by simp
qed

end
