(* ===== verification/Outbox.thy ===== *)
theory Outbox
  imports Models
begin

text \<open>
  \<open>jobs/services/outbox.py\<close>: publishing dispatch events to the broker. The broker is the list
  of job ids whose \<open>execute_job\<close> message was accepted, in order; \<open>delay\<close> says whether a
  call \<open>execute_job.delay\<close> for a job succeeds or which exception it raises. What a transaction
  sent to the broker stays there when the transaction rolls back.
\<close>

type_synonym broker = "uuid list"

text \<open>
  The body of the transaction of \<open>publish_event\<close> with its \<open>try\<close>, \<open>except\<close> and \<open>finally\<close>: its
  outcome, the database as the body leaves it and the broker. \<open>str_exc\<close> is \<open>str(exc)\<close>.
\<close>

definition publish_event_body ::
  "time \<Rightarrow> (uuid \<Rightarrow> exn option) \<Rightarrow> (exn \<Rightarrow> string) \<Rightarrow> uuid \<Rightarrow> db \<times> broker
     \<Rightarrow> unit result \<times> (db \<times> broker)" where
  "publish_event_body now delay str_exc event_id s =
     (let (d, q) = s in
      case get_outbox event_id d of
        Inl e \<Rightarrow> (Inl e, s)
      | Inr event \<Rightarrow>
          if out_status event \<noteq> PENDING then (Inr (), s)
          else
            let (outcome, event1, q1) =
                  (case delay (out_job event) of
                     None \<Rightarrow> (Inr (), event\<lparr>out_status := PUBLISHED, published_at := Some now\<rparr>,
                              q @ [out_job event])
                   | Some exc \<Rightarrow>
                       (Inl exc, event\<lparr>publish_attempts := publish_attempts event + 1,
                                   last_error := Some (str_exc exc)\<rparr>, q));
                d1 = save_outbox (out_id event) (\<lambda>x. x\<lparr>out_status := out_status event1,
                       published_at := published_at event1,
                       publish_attempts := publish_attempts event1,
                       last_error := last_error event1\<rparr>) d
            in (outcome, (d1, q1)))"

text \<open>\<open>@transaction.atomic\<close>: an exception rolls the database back, not the broker.\<close>

definition publish_event ::
  "time \<Rightarrow> (uuid \<Rightarrow> exn option) \<Rightarrow> (exn \<Rightarrow> string) \<Rightarrow> uuid \<Rightarrow> db \<times> broker
     \<Rightarrow> unit result \<times> (db \<times> broker)" where
  "publish_event now delay str_exc event_id s =
     (case publish_event_body now delay str_exc event_id s of
        (Inr u, s1) \<Rightarrow> (Inr u, s1)
      | (Inl e, (d1, q1)) \<Rightarrow> (Inl e, (fst s, q1)))"

definition pending_events :: "time \<Rightarrow> nat \<Rightarrow> db \<Rightarrow> uuid list" where
  "pending_events now limit d =
     take limit (map out_id (sort_key out_created_at
       (filter (\<lambda>e. out_status e = PENDING \<and> out_available_at e \<le> now) (outbox d))))"

definition publish_pending ::
  "time \<Rightarrow> (uuid \<Rightarrow> time) \<Rightarrow> (uuid \<Rightarrow> exn option) \<Rightarrow> (exn \<Rightarrow> string) \<Rightarrow> nat \<Rightarrow> db \<times> broker
     \<Rightarrow> unit result \<times> (db \<times> broker)" where
  "publish_pending now event_now delay str_exc limit s =
     for_each (\<lambda>event_id. publish_event (event_now event_id) delay str_exc event_id)
       (pending_events now limit (fst s)) s"

section \<open>Facts\<close>

text \<open>The four outcomes of publishing one event.\<close>

lemma publish_event_cases:
  obtains (missing) e where "publish_event now delay str_exc i (d, q) = (Inl e, (d, q))"
      "get_outbox i d = Inl e"
    | (already) ev where "publish_event now delay str_exc i (d, q) = (Inr (), (d, q))"
      "get_outbox i d = Inr ev" "out_status ev \<noteq> PENDING"
    | (sent) ev d1 where "publish_event now delay str_exc i (d, q) = (Inr (), (d1, q @ [out_job ev]))"
      "get_outbox i d = Inr ev" "out_status ev = PENDING" "delay (out_job ev) = None"
      "d1 = save_outbox (out_id ev) (\<lambda>x. x\<lparr>out_status := PUBLISHED, published_at := Some now,
         publish_attempts := publish_attempts ev, last_error := last_error ev\<rparr>) d"
    | (failed) ev exc where "publish_event now delay str_exc i (d, q) = (Inl exc, (d, q))"
      "get_outbox i d = Inr ev" "out_status ev = PENDING" "delay (out_job ev) = Some exc"
proof (cases "get_outbox i d")
  case (Inl e)
  with missing show thesis by (simp add: publish_event_def publish_event_body_def)
next
  case (Inr ev)
  show thesis
  proof (cases "out_status ev = PENDING")
    case False
    with Inr already show thesis by (simp add: publish_event_def publish_event_body_def)
  next
    case True
    with Inr sent failed show thesis
      by (cases "delay (out_job ev)") (simp_all add: publish_event_def publish_event_body_def Let_def)
  qed
qed

lemma publish_event_frame:
  assumes "publish_event now delay str_exc i (d, q) = (r, (d', q'))"
  shows "d' = d\<lparr>outbox := outbox d'\<rparr>"
  using assms
  by (cases rule: publish_event_cases [of now delay str_exc i d q]) (auto simp: save_outbox_def)

end
