(* ===== verification/Reconciliation.thy ===== *)
theory Reconciliation
  imports Failure
begin

text \<open>
  \<open>jobs/services/reconciliation.py\<close>: the reaper of expired worker leases and the recovery of
  QUEUED jobs whose reservation expired unclaimed. The inputs of one sweep are its clock
  readings and the primary keys of new dead letters, by the attempt or job at hand.
\<close>

definition worker_lease_expired :: string where
  "worker_lease_expired = ''Worker lease expired''"

definition reconcile_attempt ::
  "time \<Rightarrow> time \<Rightarrow> uuid \<Rightarrow> uuid \<Rightarrow> db \<Rightarrow> db result" where
  "reconcile_attempt now now' new_id attempt_id d =
     result_bind (get_attempt attempt_id d) (\<lambda>attempt.
       if att_status attempt \<noteq> RUNNING then Inr d
       else
         let d1 = save_attempt (att_id attempt) (\<lambda>_. attempt\<lparr>att_status := ABANDONED,
                    finished_at := Some now, failure_type := Some INFRASTRUCTURE\<rparr>) d
         in finalize_failure now' new_id (att_job attempt) INFRASTRUCTURE worker_lease_expired d1)"

definition recover_queued :: "time \<Rightarrow> time \<Rightarrow> uuid \<Rightarrow> db \<Rightarrow> db result" where
  "recover_queued now refresh_now jid d =
     result_bind (get_job jid d) (\<lambda>job.
       if job_status job \<noteq> QUEUED then Inr d
       else
         let job1 = job\<lparr>job_status := WAITING, ready_since := now\<rparr>;
             d1 = save_job (job_id job)
                    (\<lambda>j. j\<lparr>job_status := job_status job1, ready_since := ready_since job1\<rparr>) d
         in result_bind (release_capacity job1 d1) (\<lambda>d2.
              refresh_scheduler_state refresh_now (job_tenant job1) d2))"

record reconcile_env =
  re_now :: time
  re_attempt_now :: "uuid \<Rightarrow> time"
  re_failure_now :: "uuid \<Rightarrow> time"
  re_dead_letter_id :: "uuid \<Rightarrow> uuid"
  re_queued_now :: "uuid \<Rightarrow> time"
  re_refresh_now :: "uuid \<Rightarrow> time"

definition expired_attempts :: "time \<Rightarrow> nat \<Rightarrow> db \<Rightarrow> uuid list" where
  "expired_attempts now limit d =
     take limit (map att_id (filter (\<lambda>a. att_status a = RUNNING
       \<and> (case lease_expires_at a of None \<Rightarrow> False | Some t \<Rightarrow> t < now)) (attempts d)))"

text \<open>The join of the reservations with their jobs.\<close>

definition expired_queued :: "time \<Rightarrow> nat \<Rightarrow> db \<Rightarrow> uuid list" where
  "expired_queued now limit d =
     take limit (map res_job (filter (\<lambda>r. res_expires_at r < now
       \<and> (\<exists>j \<in> set (jobs d). job_id j = res_job r \<and> job_status j = QUEUED)) (reservations d)))"

definition reconcile_queued :: "reconcile_env \<Rightarrow> time \<Rightarrow> nat \<Rightarrow> db \<Rightarrow> unit result \<times> db" where
  "reconcile_queued env now limit d =
     for_each (\<lambda>jid x. commit (recover_queued (re_queued_now env jid) (re_refresh_now env jid) jid x) x)
       (expired_queued now limit d) d"

definition reconcile_expired :: "reconcile_env \<Rightarrow> nat \<Rightarrow> db \<Rightarrow> unit result \<times> db" where
  "reconcile_expired env limit d =
     (case for_each (\<lambda>i x. commit (reconcile_attempt (re_attempt_now env i) (re_failure_now env i)
               (re_dead_letter_id env i) i x) x)
             (expired_attempts (re_now env) limit d) d of
        (Inl e, d1) \<Rightarrow> (Inl e, d1)
      | (Inr _, d1) \<Rightarrow> reconcile_queued env (re_now env) limit d1)"

section \<open>Facts\<close>

lemma reconcile_attempt_eq:
  "reconcile_attempt now now' new_id i d =
     result_bind (get_attempt i d) (\<lambda>attempt.
       if att_status attempt \<noteq> RUNNING then Inr d
       else let d1 = save_attempt (att_id attempt) (\<lambda>_. attempt\<lparr>att_status := ABANDONED,
                       finished_at := Some now, failure_type := Some INFRASTRUCTURE\<rparr>) d
            in result_bind (get_job (att_job attempt) d) (\<lambda>job.
                 fail_row_tx now' new_id job INFRASTRUCTURE worker_lease_expired d1))"
proof -
  have "get_job k (save_attempt i f d) = get_job k d" for k f i
    by (simp add: get_job_def save_attempt_def)
  then show ?thesis
    by (simp add: reconcile_attempt_def finalize_failure_eq Let_def cong: if_cong)
qed

lemma reconcile_attempt_cases:
  assumes "keyed d" and "reconcile_attempt now now' i aid d = Inr d'"
  obtains (skipped) "d' = d"
    | (abandoned) a job where "a \<in> set (attempts d)" "att_id a = aid" "att_status a = RUNNING"
      "job \<in> set (jobs d)" "job_id job = att_job a"
      "fail_row_tx now' i job INFRASTRUCTURE worker_lease_expired
         (save_attempt aid (\<lambda>a. a\<lparr>att_status := ABANDONED, finished_at := Some now,
            failure_type := Some INFRASTRUCTURE\<rparr>) d) = Inr d'"
proof -
  from assms obtain a where a: "a \<in> set (attempts d)" "att_id a = aid"
    and rest: "(if att_status a \<noteq> RUNNING then Inr d else result_bind (get_job (att_job a) d)
      (\<lambda>job. fail_row_tx now' i job INFRASTRUCTURE worker_lease_expired
        (save_attempt (att_id a) (\<lambda>_. a\<lparr>att_status := ABANDONED, finished_at := Some now,
           failure_type := Some INFRASTRUCTURE\<rparr>) d))) = Inr d'"
    by (auto simp: reconcile_attempt_eq result_bind_eq_Inr Let_def cong: if_cong)
  have cong: "save_attempt (att_id a) (\<lambda>_. a\<lparr>att_status := ABANDONED, finished_at := Some now,
           failure_type := Some INFRASTRUCTURE\<rparr>) d
      = save_attempt (att_id a) (\<lambda>a. a\<lparr>att_status := ABANDONED, finished_at := Some now,
           failure_type := Some INFRASTRUCTURE\<rparr>) d"
    by (rule save_attempt_cong [OF keyedD(2) [OF assms(1)] a(1)]) simp
  show thesis
  proof (cases "att_status a = RUNNING")
    case False
    with rest skipped show thesis by simp
  next
    case True
    with rest obtain job where "job \<in> set (jobs d)" "job_id job = att_job a"
      "fail_row_tx now' i job INFRASTRUCTURE worker_lease_expired
        (save_attempt (att_id a) (\<lambda>_. a\<lparr>att_status := ABANDONED, finished_at := Some now,
           failure_type := Some INFRASTRUCTURE\<rparr>) d) = Inr d'"
      using assms(1) by (auto simp: result_bind_eq_Inr)
    then show thesis using abandoned [OF a True] cong a(2) by simp
  qed
qed

lemma recover_queued_cases:
  assumes "keyed d" and "recover_queued now rnow jid d = Inr d'"
  obtains (skipped) "d' = d"
    | (recovered) job where "job \<in> set (jobs d)" "job_id job = jid" "job_status job = QUEUED"
      "has_state (job_tenant job) d"
      "refresh_scheduler_state rnow (job_tenant job) (released job
         (save_job jid (\<lambda>j. j\<lparr>job_status := WAITING, ready_since := now\<rparr>) d)) = Inr d'"
proof -
  from assms obtain job where job: "job \<in> set (jobs d)" "job_id job = jid"
    and rest: "(if job_status job \<noteq> QUEUED then Inr d else result_bind
      (release_capacity (job\<lparr>job_status := WAITING, ready_since := now\<rparr>)
        (save_job jid (\<lambda>j. j\<lparr>job_status := WAITING, ready_since := now\<rparr>) d))
      (refresh_scheduler_state rnow (job_tenant job))) = Inr d'"
    by (auto simp: recover_queued_def result_bind_eq_Inr Let_def cong: if_cong)
  show thesis
  proof (cases "job_status job = QUEUED")
    case False
    with rest skipped show thesis by simp
  next
    case True
    have "release_capacity (job\<lparr>job_status := WAITING, ready_since := now\<rparr>) = release_capacity job"
      by (rule release_capacity_cong) simp_all
    with True rest obtain d1 where
      rel: "release_capacity job
        (save_job jid (\<lambda>j. j\<lparr>job_status := WAITING, ready_since := now\<rparr>) d) = Inr d1"
      and ref: "refresh_scheduler_state rnow (job_tenant job) d1 = Inr d'"
      by (auto simp: result_bind_eq_Inr)
    from rel keyedD(3) [OF assms(1)] have "has_state (job_tenant job) d"
      "d1 = released job (save_job jid (\<lambda>j. j\<lparr>job_status := WAITING, ready_since := now\<rparr>) d)"
      by (simp_all add: release_capacity_eq split: if_splits)
    with ref show thesis using recovered [OF job True] by simp
  qed
qed

end
