(* ===== verification/Invariants.thy ===== *)
theory Invariants
  imports Failure Dispatcher Submission Retry Cancel DeadLetter Outbox Reconciliation
begin

text \<open>
  The invariants of the database and their preservation by every transaction. Each is a
  predicate on the tables it reads, so that an operation that leaves those tables alone
  preserves it by rewriting. No assumption is made on who calls the operations or when: a slow
  worker may complete or fail an attempt long after the reaper abandoned it.
\<close>

section \<open>The predicates\<close>

text \<open>The statuses in which a job takes a slot of its tenant.\<close>

definition occupying :: "JobStatus \<Rightarrow> bool" where
  "occupying s \<longleftrightarrow> s \<in> {QUEUED, EXECUTING, CANCEL_REQUESTED}"

lemma occupying_simps [simp]:
  "occupying QUEUED" "occupying EXECUTING" "occupying CANCEL_REQUESTED"
  "\<not> occupying WAITING" "\<not> occupying RETRY_WAIT" "\<not> occupying SUCCEEDED"
  "\<not> occupying FAILED_FINAL" "\<not> occupying CANCELLED"
  by (simp_all add: occupying_def)

text \<open>
  A job has a reservation exactly while it takes a slot; the reservation names the job's
  tenant, which has a scheduler state.
\<close>

definition slots_ok ::
  "Job list \<Rightarrow> JobExecutionReservation list \<Rightarrow> TenantSchedulerState list \<Rightarrow> bool" where
  "slots_ok js vs ss \<longleftrightarrow>
     (\<forall>j \<in> set js. occupying (job_status j) \<longleftrightarrow> (\<exists>v \<in> set vs. res_job v = job_id j))
     \<and> (\<forall>v \<in> set vs. \<exists>j \<in> set js. job_id j = res_job v \<and> job_tenant j = res_tenant v)
     \<and> (\<forall>v \<in> set vs. \<exists>s \<in> set ss. ss_tenant s = res_tenant v)"

text \<open>The counter of a tenant never exceeds the number of its reservations.\<close>

definition tenant_reservations :: "uuid \<Rightarrow> JobExecutionReservation list \<Rightarrow> nat" where
  "tenant_reservations t vs = rows_count (\<lambda>v. res_tenant v = t) vs"

definition counts_le :: "JobExecutionReservation list \<Rightarrow> TenantSchedulerState list \<Rightarrow> bool" where
  "counts_le vs ss \<longleftrightarrow>
     (\<forall>s \<in> set ss. active_reservations s \<le> tenant_reservations (ss_tenant s) vs)"

text \<open>A job that takes a slot and asks for a key holds it; only such jobs hold keys.\<close>

definition wants :: "Job \<Rightarrow> string option" where
  "wants j = (case json_get (payload j) ''overlap_key'' of
     Inr (JStr k) \<Rightarrow> if k = [] then None else Some k | _ \<Rightarrow> None)"

definition lock_held :: "uuid \<Rightarrow> string \<Rightarrow> uuid \<Rightarrow> JobOverlapLock list \<Rightarrow> bool" where
  "lock_held t k j ls \<longleftrightarrow> (\<exists>l \<in> set ls. lock_scope l = TENANT \<and> lock_tenant l = Some t
     \<and> resource_key l = k \<and> lock_job l = j)"

definition owners_ok :: "Job list \<Rightarrow> JobOverlapLock list \<Rightarrow> bool" where
  "owners_ok js ls \<longleftrightarrow>
     (\<forall>l \<in> set ls. \<exists>j \<in> set js. job_id j = lock_job l \<and> occupying (job_status j))
     \<and> (\<forall>j \<in> set js. occupying (job_status j) \<longrightarrow>
          (\<forall>k. wants j = Some k \<longrightarrow> lock_held (job_tenant j) k (job_id j) ls))"

lemma owners_okD:
  "owners_ok js ls \<Longrightarrow> l \<in> set ls \<Longrightarrow>
     \<exists>j \<in> set js. job_id j = lock_job l \<and> occupying (job_status j)"
  by (simp add: owners_ok_def)

text \<open>The attempts of a job are numbered 1 to its \<open>attempt_count\<close>, each number once.\<close>

definition attempts_ok :: "Job list \<Rightarrow> JobAttempt list \<Rightarrow> bool" where
  "attempts_ok js as \<longleftrightarrow>
     (\<forall>a \<in> set as. \<exists>j \<in> set js. job_id j = att_job a)
     \<and> (\<forall>j \<in> set js. attempt_number ` {a \<in> set as. att_job a = job_id j} = {1..attempt_count j})
     \<and> distinct (map (\<lambda>a. (att_job a, attempt_number a)) as)"

text \<open>Retries are bounded: no job is claimed more than four times.\<close>

definition row_bounds :: "JobStatus \<Rightarrow> nat \<Rightarrow> bool" where
  "row_bounds s n \<longleftrightarrow> n \<le> 4 \<and> (s \<in> {WAITING, QUEUED, RETRY_WAIT} \<longrightarrow> n \<le> 3)
     \<and> (s \<in> {RETRY_WAIT, EXECUTING, CANCEL_REQUESTED} \<longrightarrow> 1 \<le> n)"

definition bounds_ok :: "Job list \<Rightarrow> bool" where
  "bounds_ok js \<longleftrightarrow> (\<forall>j \<in> set js. row_bounds (job_status j) (attempt_count j))"

text \<open>A finally failed job has a dead letter; a dead letter belongs to a job of its tenant.\<close>

definition dlq_ok :: "Job list \<Rightarrow> DeadLetterJob list \<Rightarrow> bool" where
  "dlq_ok js xs \<longleftrightarrow>
     (\<forall>j \<in> set js. job_status j = FAILED_FINAL \<longrightarrow> (\<exists>x \<in> set xs. dl_job x = job_id j))
     \<and> (\<forall>x \<in> set xs. \<exists>j \<in> set js. job_id j = dl_job x \<and> job_tenant j = dl_tenant x)"

text \<open>A job that was ever claimed belongs to a tenant with a scheduler state.\<close>

definition stateful :: "Job list \<Rightarrow> TenantSchedulerState list \<Rightarrow> bool" where
  "stateful js ss \<longleftrightarrow>
     (\<forall>j \<in> set js. 0 < attempt_count j \<longrightarrow> (\<exists>s \<in> set ss. ss_tenant s = job_tenant j))"

definition inv :: "db \<Rightarrow> bool" where
  "inv d \<longleftrightarrow> keyed d \<and> keys_unique d
     \<and> slots_ok (jobs d) (reservations d) (scheduler_states d)
     \<and> counts_le (reservations d) (scheduler_states d)
     \<and> locks_ok d \<and> owners_ok (jobs d) (overlap_locks d)
     \<and> attempts_ok (jobs d) (attempts d) \<and> bounds_ok (jobs d)
     \<and> dlq_ok (jobs d) (dead_letters d) \<and> stateful (jobs d) (scheduler_states d)"

lemma invD:
  assumes "inv d"
  shows "keyed d" "keys_unique d" "slots_ok (jobs d) (reservations d) (scheduler_states d)"
    "counts_le (reservations d) (scheduler_states d)" "locks_ok d"
    "owners_ok (jobs d) (overlap_locks d)" "attempts_ok (jobs d) (attempts d)"
    "bounds_ok (jobs d)" "dlq_ok (jobs d) (dead_letters d)"
    "stateful (jobs d) (scheduler_states d)"
  using assms by (simp_all add: inv_def)

section \<open>Updates of one job's row\<close>

text \<open>An update of a row that leaves the identity columns alone.\<close>

definition keeps_identity :: "(Job \<Rightarrow> Job) \<Rightarrow> bool" where
  "keeps_identity f \<longleftrightarrow> (\<forall>j. job_id (f j) = job_id j \<and> job_tenant (f j) = job_tenant j
     \<and> payload (f j) = payload j \<and> idempotency_key (f j) = idempotency_key j)"

lemma keeps_identityD:
  assumes "keeps_identity f"
  shows "job_id (f j) = job_id j" "job_tenant (f j) = job_tenant j" "payload (f j) = payload j"
    "idempotency_key (f j) = idempotency_key j" "wants (f j) = wants j"
  using assms by (simp_all add: keeps_identity_def wants_def)

lemma keeps_identity_rows [simp]:
  "keeps_identity (claimed_row now)" "keeps_identity (completed_row now v)"
  "keeps_identity (failed_row now ft m)" "keeps_identity (cancel_row now)"
  "keeps_identity (\<lambda>j. j\<lparr>job_status := s, ready_since := t\<rparr>)"
  "keeps_identity (\<lambda>j. j\<lparr>job_status := s, queued_at := q\<rparr>)"
  by (simp_all add: keeps_identity_def)

abbreviation upd :: "uuid \<Rightarrow> (Job \<Rightarrow> Job) \<Rightarrow> Job list \<Rightarrow> Job list" where
  "upd k f js \<equiv> rows_update (\<lambda>r. job_id r = k) f js"

lemma keys_unique_upd:
  assumes "keys_unique d" "keeps_identity f" "jobs d' = rows_update P f (jobs d)"
  shows "keys_unique d'"
proof -
  note keep = keeps_identityD [OF assms(2)]
  have "map job_id (jobs d') = map job_id (jobs d)"
    unfolding assms(3) by (rule map_rows_update) (simp add: keep)
  moreover have "i = j" if mem: "i \<in> set (jobs d')" "j \<in> set (jobs d')"
      and eqs: "idempotency_key i \<noteq> None" "job_tenant i = job_tenant j"
        "idempotency_key i = idempotency_key j" for i j
  proof -
    obtain i0 where i0: "i0 \<in> set (jobs d)" "i = (if P i0 then f i0 else i0)"
      using mem(1) unfolding assms(3) set_rows_update by blast
    obtain j0 where j0: "j0 \<in> set (jobs d)" "j = (if P j0 then f j0 else j0)"
      using mem(2) unfolding assms(3) set_rows_update by blast
    have "idempotency_key i = idempotency_key i0" "job_tenant i = job_tenant i0"
      "idempotency_key j = idempotency_key j0" "job_tenant j = job_tenant j0"
      using i0(2) j0(2) by (simp_all add: keep)
    then have "i0 = j0" using assms(1) i0(1) j0(1) eqs unfolding keys_unique_def by metis
    then show ?thesis using i0(2) j0(2) by simp
  qed
  ultimately show ?thesis using assms(1) unfolding keys_unique_def by metis
qed

text \<open>
  The jobs after an update, read through a property that only looks at the columns the update
  keeps and at what it makes of the others.
\<close>

lemma ball_rows_update [row_simps]:
  "(\<forall>r \<in> set (rows_update P f rows). Q r) \<longleftrightarrow> (\<forall>r \<in> set rows. if P r then Q (f r) else Q r)"
  by (auto simp: rows_update_def)

lemma bex_rows_update [row_simps]:
  "(\<exists>r \<in> set (rows_update P f rows). Q r) \<longleftrightarrow> (\<exists>r \<in> set rows. if P r then Q (f r) else Q r)"
  by (auto simp: rows_update_def)

lemma ball_rows_delete [row_simps]:
  "(\<forall>r \<in> set (rows_delete P rows). Q r) \<longleftrightarrow> (\<forall>r \<in> set rows. \<not> P r \<longrightarrow> Q r)"
  by (auto simp: rows_delete_def)

lemma bex_rows_delete [row_simps]:
  "(\<exists>r \<in> set (rows_delete P rows). Q r) \<longleftrightarrow> (\<exists>r \<in> set rows. \<not> P r \<and> Q r)"
  by (auto simp: rows_delete_def)

lemma bex_upd_same:
  assumes "\<And>r. Q (f r) = Q r"
  shows "(\<exists>r \<in> set (rows_update P f rows). Q r) \<longleftrightarrow> (\<exists>r \<in> set rows. Q r)"
  using assms by (auto simp: rows_update_def)

lemma mem_upd_other: "r \<in> set rows \<Longrightarrow> \<not> P r \<Longrightarrow> r \<in> set (rows_update P f rows)"
  by (force simp: rows_update_def)

lemma slots_upd:
  assumes "slots_ok js vs ss" "keeps_identity f"
    and "\<And>j. j \<in> set js \<Longrightarrow> P j \<Longrightarrow> occupying (job_status (f j)) = occupying (job_status j)"
  shows "slots_ok (rows_update P f js) vs ss"
  using assms(1,3)
  by (simp add: slots_ok_def ball_rows_update bex_rows_update keeps_identityD [OF assms(2)])

lemma owners_upd:
  assumes "owners_ok js ls" "keeps_identity f"
    and "\<And>j. j \<in> set js \<Longrightarrow> P j \<Longrightarrow> occupying (job_status (f j)) = occupying (job_status j)"
  shows "owners_ok (rows_update P f js) ls"
proof -
  have "\<exists>j \<in> set js. if P j then job_id j = i \<and> occupying (job_status (f j))
      else job_id j = i \<and> occupying (job_status j)"
    if "\<exists>j \<in> set js. job_id j = i \<and> occupying (job_status j)" for i
    using that assms(3) by metis
  then show ?thesis using assms(1,3)
    by (simp add: owners_ok_def ball_rows_update bex_rows_update keeps_identityD [OF assms(2)])
qed

lemma attempts_upd:
  assumes "attempts_ok js as" "keeps_identity f"
    and "\<And>j. j \<in> set js \<Longrightarrow> P j \<Longrightarrow> attempt_count (f j) = attempt_count j"
  shows "attempts_ok (rows_update P f js) as"
  using assms(1,3)
  by (simp add: attempts_ok_def ball_rows_update bex_rows_update keeps_identityD [OF assms(2)])

lemma bounds_upd:
  assumes "bounds_ok js"
    and "\<And>j. j \<in> set js \<Longrightarrow> P j \<Longrightarrow> row_bounds (job_status (f j)) (attempt_count (f j))"
  shows "bounds_ok (rows_update P f js)"
  using assms by (simp add: bounds_ok_def ball_rows_update)

lemma dlq_upd:
  assumes "dlq_ok js xs" "keeps_identity f"
    and "\<And>j. j \<in> set js \<Longrightarrow> P j \<Longrightarrow> job_status (f j) = FAILED_FINAL \<Longrightarrow>
      \<exists>x \<in> set xs. dl_job x = job_id j"
  shows "dlq_ok (rows_update P f js) xs"
  using assms(1,3)
  by (simp add: dlq_ok_def ball_rows_update bex_rows_update keeps_identityD [OF assms(2)])

lemma stateful_upd:
  assumes "stateful js ss" "keeps_identity f"
    and "\<And>j. j \<in> set js \<Longrightarrow> P j \<Longrightarrow> attempt_count (f j) = attempt_count j"
  shows "stateful (rows_update P f js) ss"
  using assms(1,3)
  by (simp add: stateful_def ball_rows_update keeps_identityD [OF assms(2)])

lemma states_upd:
  "(\<And>s. ss_tenant (f s) = ss_tenant s) \<Longrightarrow>
     ss_tenant ` set (rows_update P f ss) = ss_tenant ` set ss"
  unfolding set_rows_update image_image by (rule image_cong) simp_all

lemma stateful_states:
  assumes "stateful js ss" "ss_tenant ` set ss \<subseteq> ss_tenant ` set ss'"
  shows "stateful js ss'"
proof -
  have "\<exists>s \<in> set ss'. ss_tenant s = t" if "\<exists>s \<in> set ss. ss_tenant s = t" for t
    using that assms(2) by (force simp: image_iff subset_iff)
  then show ?thesis using assms(1) by (simp add: stateful_def)
qed

section \<open>Preservation by the parts of a transaction\<close>

lemma locks_ok_cong: "overlap_locks d' = overlap_locks d \<Longrightarrow> locks_ok d' = locks_ok d"
  by (simp add: locks_ok_def)

lemma keys_unique_cong: "jobs d' = jobs d \<Longrightarrow> keys_unique d' = keys_unique d"
  by (simp add: keys_unique_def)

subsection \<open>A change of a job's row\<close>

lemma inv_upd_jobs:
  assumes "inv d" "keeps_identity f"
    and occ: "\<And>j. j \<in> set (jobs d) \<Longrightarrow> P j \<Longrightarrow>
      occupying (job_status (f j)) = occupying (job_status j)"
    and count: "\<And>j. j \<in> set (jobs d) \<Longrightarrow> P j \<Longrightarrow> attempt_count (f j) = attempt_count j"
    and bound: "\<And>j. j \<in> set (jobs d) \<Longrightarrow> P j \<Longrightarrow> row_bounds (job_status (f j)) (attempt_count j)"
    and final: "\<And>j. j \<in> set (jobs d) \<Longrightarrow> P j \<Longrightarrow> job_status (f j) = FAILED_FINAL \<Longrightarrow>
      \<exists>x \<in> set (dead_letters d). dl_job x = job_id j"
  shows "inv (d\<lparr>jobs := rows_update P f (jobs d)\<rparr>)"
proof -
  let ?js = "rows_update P f (jobs d)"
  let ?d = "d\<lparr>jobs := ?js\<rparr>"
  note i = invD [OF assms(1)]
  have "map job_id ?js = map job_id (jobs d)"
    by (rule map_rows_update) (simp add: keeps_identityD [OF assms(2)])
  then have "keyed ?d" using i(1) by (simp add: keyed_def)
  moreover have "keys_unique ?d" by (rule keys_unique_upd [OF i(2) assms(2)]) simp
  moreover have "locks_ok ?d" using i(5) by (subst locks_ok_cong) simp_all
  moreover have "slots_ok ?js (reservations d) (scheduler_states d)"
    by (rule slots_upd [OF i(3) assms(2) occ])
  moreover have "owners_ok ?js (overlap_locks d)" by (rule owners_upd [OF i(6) assms(2) occ])
  moreover have "attempts_ok ?js (attempts d)" by (rule attempts_upd [OF i(7) assms(2) count])
  moreover have "bounds_ok ?js" by (rule bounds_upd [OF i(8)]) (simp add: bound count)
  moreover have "dlq_ok ?js (dead_letters d)" by (rule dlq_upd [OF i(9) assms(2) final])
  moreover have "stateful ?js (scheduler_states d)" by (rule stateful_upd [OF i(10) assms(2) count])
  ultimately show ?thesis using i(4) by (simp add: inv_def)
qed

lemma only_row: "inv d \<Longrightarrow> job \<in> set (jobs d) \<Longrightarrow> j \<in> set (jobs d) \<Longrightarrow> job_id j = job_id job \<Longrightarrow> j = job"
  using same_key [OF keyedD(1) [OF invD(1)]] by blast

lemma inv_save_job:
  assumes "inv d" "job \<in> set (jobs d)" "keeps_identity f"
    and "occupying (job_status (f job)) = occupying (job_status job)"
    and "attempt_count (f job) = attempt_count job"
    and "row_bounds (job_status (f job)) (attempt_count job)"
    and "job_status (f job) = FAILED_FINAL \<Longrightarrow> \<exists>x \<in> set (dead_letters d). dl_job x = job_id job"
  shows "inv (save_job (job_id job) f d)"
  unfolding save_job_def
  by (rule inv_upd_jobs [OF assms(1,3)]) (use only_row [OF assms(1,2)] assms(4-7) in blast)+

subsection \<open>Leaving a slot\<close>

lemma tenant_reservations_delete:
  assumes "distinct (map res_job vs)" "\<And>v. v \<in> set vs \<Longrightarrow> res_job v = k \<Longrightarrow> res_tenant v = t"
  shows "tenant_reservations u (rows_delete (\<lambda>v. res_job v = k) vs)
    + (if u = t \<and> (\<exists>v \<in> set vs. res_job v = k) then 1 else 0) = tenant_reservations u vs"
proof (cases "\<exists>v \<in> set vs. res_job v = k")
  case True
  then obtain v where "v \<in> set vs" "res_job v = k" by blast
  with rows_count_delete_key [OF assms(1), of v "\<lambda>w. res_tenant w = u"] assms(2) True
  show ?thesis by (auto simp: tenant_reservations_def)
next
  case False
  then have "rows_delete (\<lambda>v. res_job v = k) vs = vs" by (intro rows_delete_none) auto
  with False show ?thesis by simp
qed

abbreviation decremented :: "uuid \<Rightarrow> TenantSchedulerState list \<Rightarrow> TenantSchedulerState list" where
  "decremented t ss \<equiv> rows_update (\<lambda>s. ss_tenant s = t)
     (\<lambda>s. s\<lparr>active_reservations := active_reservations s - 1\<rparr>) ss"

lemma counts_release:
  assumes "counts_le vs ss" "distinct (map res_job vs)"
    and "\<And>v. v \<in> set vs \<Longrightarrow> res_job v = k \<Longrightarrow> res_tenant v = t"
  shows "counts_le (rows_delete (\<lambda>v. res_job v = k) vs) (decremented t ss)"
proof -
  have "active_reservations s - (if ss_tenant s = t then 1 else 0)
      \<le> tenant_reservations (ss_tenant s) (rows_delete (\<lambda>v. res_job v = k) vs)"
    if "s \<in> set ss" for s
    using tenant_reservations_delete [OF assms(2,3), where u = "ss_tenant s"] assms(1) that
    by (fastforce simp: counts_le_def split: if_splits)
  then show ?thesis
    by (fastforce simp: counts_le_def ball_rows_update)
qed

lemma slots_release:
  assumes "slots_ok js vs ss" "keeps_identity f" "job \<in> set js"
    and only: "\<And>j. j \<in> set js \<Longrightarrow> job_id j = job_id job \<Longrightarrow> j = job"
    and "\<not> occupying (job_status (f job))"
  shows "slots_ok (upd (job_id job) f js) (rows_delete (\<lambda>v. res_job v = job_id job) vs)
    (decremented (job_tenant job) ss)"
proof -
  note keep = keeps_identityD [OF assms(2)]
  have "occupying (job_status (f j)) \<longleftrightarrow>
      (\<exists>v \<in> set vs. res_job v \<noteq> job_id job \<and> res_job v = job_id j)"
    if "j \<in> set js" "job_id j = job_id job" for j
    using assms(5) only [OF that] by auto
  moreover have "occupying (job_status j) \<longleftrightarrow>
      (\<exists>v \<in> set vs. res_job v \<noteq> job_id job \<and> res_job v = job_id j)"
    if "j \<in> set js" "job_id j \<noteq> job_id job" for j
    using assms(1) that unfolding slots_ok_def by metis
  moreover have "\<exists>j \<in> set js. job_id j = res_job v \<and> job_tenant j = res_tenant v"
    if "v \<in> set vs" for v using assms(1) that by (auto simp: slots_ok_def)
  moreover have "\<exists>s \<in> set ss. ss_tenant s = res_tenant v" if "v \<in> set vs" for v
    using assms(1) that by (auto simp: slots_ok_def)
  moreover have "(\<exists>j \<in> set (upd k f js). job_id j = i \<and> job_tenant j = t) \<longleftrightarrow>
      (\<exists>j \<in> set js. job_id j = i \<and> job_tenant j = t)" for k i t
    by (rule bex_upd_same) (simp add: keep)
  moreover have "(\<exists>s \<in> set (decremented u ss). ss_tenant s = t) \<longleftrightarrow> (\<exists>s \<in> set ss. ss_tenant s = t)"
    for u t by (rule bex_upd_same) simp
  ultimately show ?thesis
    by (simp add: slots_ok_def ball_rows_update [where rows = js] ball_rows_delete bex_rows_delete
        keep)
qed

lemma owners_release:
  assumes "owners_ok js ls" "keeps_identity f" "job \<in> set js"
    and only: "\<And>j. j \<in> set js \<Longrightarrow> job_id j = job_id job \<Longrightarrow> j = job"
    and "\<not> occupying (job_status (f job))"
  shows "owners_ok (upd (job_id job) f js) (rows_delete (\<lambda>l. lock_job l = job_id job) ls)"
proof -
  note keep = keeps_identityD [OF assms(2)]
  have kept: "lock_held t k i (rows_delete (\<lambda>l. lock_job l = job_id job) ls)"
    if "lock_held t k i ls" "i \<noteq> job_id job" for t k i
    using that by (auto simp: lock_held_def set_rows_delete)
  have "\<exists>j \<in> set (upd (job_id job) f js). job_id j = lock_job l \<and> occupying (job_status j)"
    if l: "l \<in> set ls" "lock_job l \<noteq> job_id job" for l
  proof -
    obtain j where "j \<in> set js" "job_id j = lock_job l" "occupying (job_status j)"
      using owners_okD [OF assms(1) l(1)] by blast
    then show ?thesis using l(2) by (intro bexI [of _ j] mem_upd_other) simp_all
  qed
  moreover have "if job_id j = job_id job then \<not> occupying (job_status (f j))
      else occupying (job_status j) \<longrightarrow> (\<forall>k. wants j = Some k \<longrightarrow>
        lock_held (job_tenant j) k (job_id j) (rows_delete (\<lambda>l. lock_job l = job_id job) ls))"
    if "j \<in> set js" for j
    using assms(1,5) only kept that by (auto simp: owners_ok_def)
  ultimately show ?thesis
    by (auto simp: owners_ok_def ball_rows_update [where rows = js] ball_rows_delete keep
        split: if_splits)
qed

lemma inv_leave:
  assumes "inv d" "job \<in> set (jobs d)" "keeps_identity f"
    and "\<not> occupying (job_status (f job))"
    and "attempt_count (f job) = attempt_count job"
    and "row_bounds (job_status (f job)) (attempt_count job)"
    and "job_status (f job) = FAILED_FINAL \<Longrightarrow> \<exists>x \<in> set (dead_letters d). dl_job x = job_id job"
  shows "inv (released job (save_job (job_id job) f d))"
proof -
  let ?d = "released job (save_job (job_id job) f d)"
  note i = invD [OF assms(1)]
  note only = only_row [OF assms(1,2)]
  have tenant: "res_tenant v = job_tenant job" if "v \<in> set (reservations d)" "res_job v = job_id job" for v
    using i(3) that only by (fastforce simp: slots_ok_def)
  have "keyed (save_job (job_id job) f d)"
    using i(1) by (subst keyed_save_job) (simp_all add: keeps_identityD [OF assms(3)])
  then have "keyed ?d" by (rule keyed_released)
  moreover have "keys_unique ?d"
    by (rule keys_unique_upd [OF i(2) assms(3)]) simp
  moreover have "slots_ok (jobs ?d) (reservations ?d) (scheduler_states ?d)"
    using slots_release [OF i(3) assms(3,2) only assms(4)] by simp
  moreover have "counts_le (reservations ?d) (scheduler_states ?d)"
    using counts_release [OF i(4) keyedD(8) [OF i(1)] tenant] by simp
  moreover have "locks_ok ?d"
    using locks_ok_release [OF i(5), of job]
    by (subst (asm) locks_ok_cong [of ?d, symmetric]) (simp_all add: release_overlaps_def)
  moreover have "owners_ok (jobs ?d) (overlap_locks ?d)"
    using owners_release [OF i(6) assms(3,2) only assms(4)] by simp
  moreover have "attempts_ok (upd (job_id job) f (jobs d)) (attempts d)"
    by (rule attempts_upd [OF i(7) assms(3)]) (use only assms(5) in blast)
  moreover have "bounds_ok (upd (job_id job) f (jobs d))"
    by (rule bounds_upd [OF i(8)]) (use only assms(5,6) in fastforce)
  moreover have "dlq_ok (upd (job_id job) f (jobs d)) (dead_letters d)"
    by (rule dlq_upd [OF i(9) assms(3)]) (use only assms(7) in blast)
  moreover have "stateful (upd (job_id job) f (jobs d)) (scheduler_states ?d)"
  proof (rule stateful_states)
    show "stateful (upd (job_id job) f (jobs d)) (scheduler_states d)"
      by (rule stateful_upd [OF i(10) assms(3)]) (use only assms(5) in blast)
  qed (simp add: states_upd)
  ultimately show ?thesis by (simp add: inv_def)
qed

end
