(* ===== verification/Preservation.thy ===== *)
theory Preservation
  imports Invariants
begin

text \<open>
  Every transaction of the services keeps \<open>inv\<close>, one lemma per operation. The first section
  treats the tables one at a time, the second the operations.
\<close>

section \<open>One table at a time\<close>

text \<open>The predicates on the whole database look at one table each.\<close>

lemma frame_simps [simp]:
  "keys_unique (d\<lparr>tenants := x_tenants\<rparr>) = keys_unique d"
  "keys_unique (d\<lparr>attempts := x_attempts\<rparr>) = keys_unique d"
  "keys_unique (d\<lparr>reservations := x_reservations\<rparr>) = keys_unique d"
  "keys_unique (d\<lparr>outbox := x_outbox\<rparr>) = keys_unique d"
  "keys_unique (d\<lparr>dead_letters := x_dead_letters\<rparr>) = keys_unique d"
  "keys_unique (d\<lparr>scheduler_states := x_scheduler_states\<rparr>) = keys_unique d"
  "keys_unique (d\<lparr>overlap_locks := x_overlap_locks\<rparr>) = keys_unique d"
  "locks_ok (d\<lparr>tenants := x_tenants\<rparr>) = locks_ok d"
  "locks_ok (d\<lparr>attempts := x_attempts\<rparr>) = locks_ok d"
  "locks_ok (d\<lparr>reservations := x_reservations\<rparr>) = locks_ok d"
  "locks_ok (d\<lparr>outbox := x_outbox\<rparr>) = locks_ok d"
  "locks_ok (d\<lparr>dead_letters := x_dead_letters\<rparr>) = locks_ok d"
  "locks_ok (d\<lparr>scheduler_states := x_scheduler_states\<rparr>) = locks_ok d"
  "locks_ok (d\<lparr>jobs := x_jobs\<rparr>) = locks_ok d"
  "keys_unique (save_attempt k fa d) = keys_unique d" "locks_ok (save_attempt k fa d) = locks_ok d"
  "locks_ok (save_job k fj d) = locks_ok d"
  by (simp_all add: keys_unique_def locks_ok_def)

lemma inv_save_attempt:
  assumes "inv d" and "\<And>a. att_id (f a) = att_id a \<and> att_job (f a) = att_job a
    \<and> attempt_number (f a) = attempt_number a"
  shows "inv (save_attempt k f d)"
proof -
  note i = invD [OF assms(1)]
  let ?as = "rows_update (\<lambda>r. att_id r = k) f (attempts d)"
  have pairs: "map (\<lambda>a. (att_job a, attempt_number a)) ?as
      = map (\<lambda>a. (att_job a, attempt_number a)) (attempts d)"
    by (rule map_rows_update) (simp add: assms(2))
  have image: "attempt_number ` {a \<in> set as. att_job a = j}
      = snd ` {p \<in> set (map (\<lambda>a. (att_job a, attempt_number a)) as). fst p = j}" for as j
    by force
  have "keyed (save_attempt k f d)" using i(1) assms(2) by (subst keyed_save_attempt) simp_all
  moreover have "attempts_ok (jobs d) ?as"
    using i(7) pairs assms(2)
    by (simp only: attempts_ok_def ball_rows_update image if_cancel simp_thms) blast
  ultimately show ?thesis using i by (simp add: inv_def)
qed

lemma inv_outbox:
  assumes "inv d" "distinct (map out_id es)"
  shows "inv (d\<lparr>outbox := es\<rparr>)"
  using assms by (simp add: inv_def keyed_def)

lemma inv_tenants:
  assumes "inv d" "distinct (map ten_id ts)"
  shows "inv (d\<lparr>tenants := ts\<rparr>)"
  using assms by (simp add: inv_def keyed_def)

lemma inv_dead_letter_append:
  assumes "inv d" "job \<in> set (jobs d)" "dl_job x = job_id job" "dl_tenant x = job_tenant job"
    and "\<forall>y \<in> set (dead_letters d). dl_id y \<noteq> dl_id x \<and> dl_job y \<noteq> dl_job x"
  shows "inv (d\<lparr>dead_letters := dead_letters d @ [x]\<rparr>)"
proof -
  note i = invD [OF assms(1)]
  have "dlq_ok (jobs d) (dead_letters d @ [x])"
    using i(9) assms(2-4) by (auto simp: dlq_ok_def)
  moreover have "keyed (d\<lparr>dead_letters := dead_letters d @ [x]\<rparr>)"
    using i(1) assms(5) by (auto simp: keyed_def)
  ultimately show ?thesis using i by (simp add: inv_def)
qed

lemma inv_dead_letter_upd:
  assumes "inv d" and "\<And>x. dl_id (f x) = dl_id x \<and> dl_job (f x) = dl_job x \<and> dl_tenant (f x) = dl_tenant x"
  shows "inv (d\<lparr>dead_letters := rows_update P f (dead_letters d)\<rparr>)"
proof -
  note i = invD [OF assms(1)]
  have "dlq_ok (jobs d) (rows_update P f (dead_letters d))"
    using i(9) assms(2) by (simp add: dlq_ok_def ball_rows_update bex_upd_same)
  moreover have "keyed (d\<lparr>dead_letters := rows_update P f (dead_letters d)\<rparr>)"
    using i(1) assms(2) by (simp add: keyed_def map_rows_update)
  ultimately show ?thesis using i by (simp add: inv_def)
qed

lemma inv_reservations_upd:
  assumes "inv d" and "\<And>v. res_job (f v) = res_job v \<and> res_tenant (f v) = res_tenant v"
  shows "inv (d\<lparr>reservations := rows_update P f (reservations d)\<rparr>)"
proof -
  note i = invD [OF assms(1)]
  let ?vs = "rows_update P f (reservations d)"
  have "slots_ok (jobs d) ?vs (scheduler_states d)"
    using i(3) assms(2) by (simp add: slots_ok_def ball_rows_update bex_upd_same)
  moreover have "tenant_reservations t ?vs = tenant_reservations t (reservations d)" for t
    unfolding tenant_reservations_def by (rule rows_count_update_same) (simp add: assms(2))
  then have "counts_le ?vs (scheduler_states d)" using i(4) by (simp add: counts_le_def)
  moreover have "keyed (d\<lparr>reservations := ?vs\<rparr>)"
    using i(1) assms(2) by (simp add: keyed_def map_rows_update)
  ultimately show ?thesis using i by (simp add: inv_def)
qed

text \<open>A change of the readiness cache; a new row counts nothing.\<close>

lemma inv_states:
  assumes "inv d" "ss_tenant ` set (scheduler_states d) \<subseteq> ss_tenant ` set ss"
    and "distinct (map ss_tenant ss)"
    and "\<forall>s \<in> set ss. active_reservations s \<le> tenant_reservations (ss_tenant s) (reservations d)"
  shows "inv (d\<lparr>scheduler_states := ss\<rparr>)"
proof -
  note i = invD [OF assms(1)]
  have "\<exists>s \<in> set ss. ss_tenant s = t" if "\<exists>s \<in> set (scheduler_states d). ss_tenant s = t" for t
    using that assms(2) by (force simp: image_iff subset_iff)
  then have "slots_ok (jobs d) (reservations d) ss"
    using i(3) unfolding slots_ok_def by blast
  moreover have "stateful (jobs d) ss" by (rule stateful_states [OF i(10) assms(2)])
  moreover have "keyed (d\<lparr>scheduler_states := ss\<rparr>)" using i(1) assms(3) by (simp add: keyed_def)
  ultimately show ?thesis using i assms(4)
    by (simp add: inv_def counts_le_def)
qed

lemma inv_cache_step:
  assumes "inv d" "cache_step t d d'"
  shows "inv d'"
  using assms(2)
proof (cases rule: cache_step_cases)
  case (existing f)
  have "inv (d\<lparr>scheduler_states := rows_update (\<lambda>r. ss_tenant r = t) f (scheduler_states d)\<rparr>)"
    using invD(1,4) [OF assms(1)] existing(1,2)
    by (intro inv_states [OF assms(1)])
      (auto simp: states_upd map_rows_update keyedD ball_rows_update counts_le_def)
  then show ?thesis using existing(3) by (simp add: save_scheduler_state_def)
next
  case (new s)
  have "inv (d\<lparr>scheduler_states := scheduler_states d @ [s]\<rparr>)"
    using invD(1,4) [OF assms(1)] new(1-3)
    by (intro inv_states [OF assms(1)]) (auto simp: keyedD counts_le_def)
  then show ?thesis using new(4) by simp
qed

lemma inv_refresh: "inv d \<Longrightarrow> refresh_scheduler_state now t d = Inr d' \<Longrightarrow> inv d'"
  by (rule inv_cache_step [OF _ cache_step_refresh])

lemma refresh_total: "keyed d \<Longrightarrow> \<exists>d'. refresh_scheduler_state now t d = Inr d'"
proof (cases "get_scheduler_state t d")
  case (Inl e)
  assume "keyed d"
  with Inl row_get_Inl_distinct(1) [OF keyedD(3), of d t e] have "e = DoesNotExist"
    by (simp add: get_scheduler_state_def)
  with Inl refresh_new show ?thesis by blast
qed (use refresh_existing in blast)

lemma inv_insert_job:
  assumes "inv d" "insert_job j d = Inr d'" "job_status j = WAITING" "attempt_count j = 0"
  shows "inv d'"
proof -
  note i = invD [OF assms(1)]
  have d': "d' = d\<lparr>jobs := jobs d @ [j]\<rparr>" and fresh: "\<forall>r \<in> set (jobs d). job_id r \<noteq> job_id j"
    and key: "\<forall>r \<in> set (jobs d). idempotency_key j \<noteq> None \<longrightarrow> job_tenant r = job_tenant j \<longrightarrow>
        idempotency_key r \<noteq> idempotency_key j"
    using assms(2) by (auto simp: insert_job_def split: if_splits)
  have none: "res_job v \<noteq> job_id j" if "v \<in> set (reservations d)" for v
    using i(3) fresh that unfolding slots_ok_def by metis
  have "att_job a \<noteq> job_id j" if "a \<in> set (attempts d)" for a
    using i(7) fresh that unfolding attempts_ok_def by metis
  then have "{a \<in> set (attempts d). att_job a = job_id j} = {}" by blast
  then have "attempts_ok (jobs d @ [j]) (attempts d)"
    using i(7) assms(4) by (simp add: attempts_ok_def)
  moreover have "slots_ok (jobs d @ [j]) (reservations d) (scheduler_states d)"
    using i(3) none assms(3) by (auto simp: slots_ok_def)
  moreover have "keys_unique d'" unfolding d' by (rule keys_unique_append [OF i(2) fresh key])
  moreover have "owners_ok (jobs d @ [j]) (overlap_locks d)"
    using i(6) assms(3) by (auto simp: owners_ok_def)
  moreover have "bounds_ok (jobs d @ [j])" using i(8) assms(3,4) by (simp add: bounds_ok_def row_bounds_def)
  moreover have "dlq_ok (jobs d @ [j]) (dead_letters d)" using i(9) assms(3) by (auto simp: dlq_ok_def)
  moreover have "stateful (jobs d @ [j]) (scheduler_states d)" using i(10) assms(4) by (auto simp: stateful_def)
  moreover have "keyed d'" using i(1) fresh d' by (auto simp: keyed_def)
  moreover have "locks_ok d'" using i(5) d' by (simp add: locks_ok_def)
  ultimately show ?thesis using i(4) d' by (simp add: inv_def)
qed

section \<open>The operations\<close>

subsection \<open>Submission, replay\<close>

lemma inv_submit:
  assumes "inv d" "submit_job now i g sub d = Inr ((j, created), d')"
  shows "inv d'"
  using assms(2)
proof (cases rule: submit_job_cases)
  case new
  then show ?thesis by (intro inv_insert_job [OF assms(1) new(3)]) simp_all
qed (use assms(1) in simp)

lemma inv_replay:
  assumes "inv d" "replay_dead_letter now rnow i g dlid d = Inr (j, d')"
  shows "inv d'"
  using assms(2)
proof (rule replay_dead_letter_Inr)
  fix x source
  let ?f = "\<lambda>y. y\<lparr>dl_status := REPLAYED, replayed_job := Some i, replayed_at := Some now\<rparr>"
  assume j: "j = cloned_job now i g source" "insert_job j d = Inr (d\<lparr>jobs := jobs d @ [j]\<rparr>)"
    "jobs d' = jobs d @ [j]"
    "dead_letters d' = rows_update (\<lambda>y. dl_id y = dlid) ?f (dead_letters d)"
    and ref: "refresh_scheduler_state rnow (job_tenant j)
       (d\<lparr>jobs := jobs d', dead_letters := dead_letters d'\<rparr>) = Inr d'"
  have "inv (d\<lparr>jobs := jobs d @ [j]\<rparr>)"
    by (rule inv_insert_job [OF assms(1) j(2)]) (simp_all add: j(1))
  from inv_dead_letter_upd [OF this, of ?f] j(3,4)
  have "inv (d\<lparr>jobs := jobs d', dead_letters := dead_letters d'\<rparr>)" by simp
  then show "inv d'" using ref by (rule inv_refresh)
qed

subsection \<open>Claim\<close>

lemma attempts_claim:
  assumes "attempts_ok js as" "job \<in> set js" "keeps_identity f"
    and only: "\<And>j. j \<in> set js \<Longrightarrow> job_id j = job_id job \<Longrightarrow> j = job"
    and "attempt_count (f job) = Suc (attempt_count job)"
    and "att_job a = job_id job" "attempt_number a = Suc (attempt_count job)"
  shows "attempts_ok (upd (job_id job) f js) (as @ [a])"
proof -
  note keep = keeps_identityD [OF assms(3)]
  let ?nums = "\<lambda>j as. attempt_number ` {a \<in> set as. att_job a = job_id j}"
  have split: "?nums j (as @ [a]) = (if job_id j = job_id job
      then insert (Suc (attempt_count job)) (?nums j as) else ?nums j as)" for j
  proof -
    have "{b \<in> set (as @ [a]). att_job b = job_id j} =
        (if job_id j = job_id job then insert a {b \<in> set as. att_job b = job_id j}
         else {b \<in> set as. att_job b = job_id j})" using assms(6) by auto
    then show ?thesis using assms(7) by simp
  qed
  have nums: "?nums j as = {1..attempt_count j}" if "j \<in> set js" for j
    using assms(1) that by (simp add: attempts_ok_def)
  have "?nums j (as @ [a]) = {1..attempt_count (if job_id j = job_id job then f j else j)}"
    if "j \<in> set js" for j
  proof (cases "job_id j = job_id job")
    case True
    then have "j = job" using only that by blast
    then show ?thesis using split [of j] nums [OF that] assms(5) by (auto simp: atLeastAtMostSuc_conv)
  next
    case False
    then show ?thesis using split [of j] nums [OF that] by simp
  qed
  note nums' = this
  have "\<forall>j \<in> set (upd (job_id job) f js). ?nums j (as @ [a]) = {1..attempt_count j}"
    unfolding ball_rows_update
  proof
    fix j
    assume "j \<in> set js"
    from nums' [OF this] show "if job_id j = job_id job then ?nums (f j) (as @ [a]) = {1..attempt_count (f j)}
        else ?nums j (as @ [a]) = {1..attempt_count j}"
      by (cases "job_id j = job_id job") (simp_all add: keep)
  qed
  moreover have "(att_job b, attempt_number b) \<noteq> (att_job a, attempt_number a)" if "b \<in> set as" for b
  proof
    assume "(att_job b, attempt_number b) = (att_job a, attempt_number a)"
    then have "Suc (attempt_count job) \<in> ?nums job as" using that assms(6,7) by (auto simp: image_iff)
    then show False using nums [OF assms(2)] by simp
  qed
  then have "(att_job a, attempt_number a) \<notin> (\<lambda>b. (att_job b, attempt_number b)) ` set as"
    by (metis (no_types, lifting) imageE)
  then have "distinct (map (\<lambda>a. (att_job a, attempt_number a)) (as @ [a]))"
    using assms(1) by (simp add: attempts_ok_def)
  moreover have "\<forall>b \<in> set (as @ [a]). \<exists>j \<in> set (upd (job_id job) f js). job_id j = att_job b"
  proof -
    have "\<exists>j \<in> set js. job_id j = att_job b" if "b \<in> set (as @ [a])" for b
      using assms(1,2,6) that unfolding attempts_ok_def by auto
    then show ?thesis using bex_upd_same [of "\<lambda>j. job_id j = i" f for i] by (simp add: keep)
  qed
  ultimately show ?thesis unfolding attempts_ok_def by blast
qed

lemma inv_claim:
  assumes "inv d" "claim_job now host i jid d = Inr (r, d')"
  shows "inv d'"
proof (cases r)
  case None
  then show ?thesis using assms claim_job_None by blast
next
  case (Some aj)
  then obtain a j where "claim_job now host i jid d = Inr (Some (a, j), d')"
    using assms(2) by (cases aj) auto
  then show ?thesis
  proof (rule claim_job_Some [OF invD(1) [OF assms(1)]])
    fix job
    assume job: "job \<in> set (jobs d)" "job_id job = jid" "job_status job = QUEUED"
      and a: "att_id a = i" "att_job a = jid" "attempt_number a = Suc (attempt_count job)"
      and d': "d' = d\<lparr>jobs := upd jid (claimed_row now) (jobs d), attempts := attempts d @ [a]\<rparr>"
      and fresh: "\<forall>r \<in> set (attempts d). att_id r \<noteq> i
         \<and> \<not> (att_job r = jid \<and> attempt_number r = attempt_number a)"
    note v = invD [OF assms(1)] and only = only_row [OF assms(1) job(1)]
    let ?js = "upd (job_id job) (claimed_row now) (jobs d)"
    have same: "occupying (job_status (claimed_row now j)) = occupying (job_status j)"
      if "j \<in> set (jobs d)" "job_id j = job_id job" for j using only [OF that] job(3) by simp
    have "map job_id ?js = map job_id (jobs d)" by (rule map_rows_update) simp
    then have "keyed d'" using v(1) a(1) fresh job(2) by (auto simp: keyed_def d')
    moreover have "keys_unique d'"
      by (rule keys_unique_upd [OF v(2) keeps_identity_rows(1)]) (simp add: d')
    moreover have "slots_ok ?js (reservations d) (scheduler_states d)"
      by (rule slots_upd [OF v(3) keeps_identity_rows(1) same])
    moreover have "owners_ok ?js (overlap_locks d)"
      by (rule owners_upd [OF v(6) keeps_identity_rows(1) same])
    moreover have "bounds_ok ?js"
    proof (rule bounds_upd [OF v(8)])
      have "row_bounds QUEUED (attempt_count job)" using v(8) job by (fastforce simp: bounds_ok_def)
      then show "row_bounds (job_status (claimed_row now j)) (attempt_count (claimed_row now j))"
        if "j \<in> set (jobs d)" "job_id j = job_id job" for j
        using only [OF that] by (simp add: row_bounds_def)
    qed
    moreover have "attempts_ok ?js (attempts d @ [a])"
      by (rule attempts_claim [OF v(7) job(1) keeps_identity_rows(1) only])
        (use a job(2) in simp_all)
    moreover have "dlq_ok ?js (dead_letters d)"
      by (rule dlq_upd [OF v(9) keeps_identity_rows(1)]) simp
    moreover have "\<exists>s \<in> set (scheduler_states d). ss_tenant s = job_tenant job"
    proof -
      obtain w where w: "w \<in> set (reservations d)" "res_job w = job_id job"
        using v(3) job unfolding slots_ok_def by (metis occupying_simps(1))
      then obtain k where "k \<in> set (jobs d)" "job_id k = res_job w" "job_tenant k = res_tenant w"
        using v(3) unfolding slots_ok_def by metis
      then have "job_tenant job = res_tenant w" using only w(2) by metis
      then show ?thesis using v(3) w(1) unfolding slots_ok_def by metis
    qed
    then have "stateful ?js (scheduler_states d)"
      using v(10) only by (fastforce simp: stateful_def ball_rows_update)
    moreover have "locks_ok d'" using v(5) by (simp add: locks_ok_def d')
    ultimately show "inv d'" using v(4) job(2) by (simp add: inv_def d')
  qed
qed

subsection \<open>Dispatch\<close>

lemma lock_held_append: "lock_held t k j ls \<Longrightarrow> lock_held t k j (ls @ ms)"
  by (auto simp: lock_held_def)

lemma inv_reserved:
  assumes "inv d" "job \<in> set (jobs d)" "job_status job = WAITING"
    and st: "state \<in> set (scheduler_states d)" "ss_tenant state = job_tenant job"
    and fresh: "\<forall>r \<in> set (reservations d). res_job r \<noteq> job_id job"
      "\<forall>e \<in> set (outbox d). out_id e \<noteq> de_outbox_id env"
    and ls: "locks_ok (d\<lparr>overlap_locks := overlap_locks d @ ls\<rparr>)"
      "\<forall>l \<in> set ls. lock_job l = job_id job"
    and wants: "\<And>k. wants job = Some k \<Longrightarrow>
      lock_held (job_tenant job) k (job_id job) (overlap_locks d @ ls)"
  shows "inv (reserved env job state (d\<lparr>overlap_locks := overlap_locks d @ ls\<rparr>))"
proof -
  note i = invD [OF assms(1)] and only = only_row [OF assms(1,2)]
  let ?f = "\<lambda>j. j\<lparr>job_status := QUEUED, queued_at := Some (de_now env)\<rparr>"
  let ?js = "upd (job_id job) ?f (jobs d)"
  let ?vs = "reservations d @ [new_reservation env job (ss_tenant state)]"
  let ?g = "\<lambda>s. s\<lparr>active_reservations := active_reservations state + 1,
             last_dispatched_at := Some (de_now env)\<rparr>"
  let ?ss = "rows_update (\<lambda>s. ss_tenant s = ss_tenant state) ?g (scheduler_states d)"
  let ?d = "reserved env job state (d\<lparr>overlap_locks := overlap_locks d @ ls\<rparr>)"
  have keep: "keeps_identity ?f" by simp
  have bound: "row_bounds WAITING (attempt_count job)"
    using i(8) assms(2,3) by (fastforce simp: bounds_ok_def)
  have "map job_id ?js = map job_id (jobs d)" by (rule map_rows_update) simp
  moreover have "map ss_tenant ?ss = map ss_tenant (scheduler_states d)" by (rule map_rows_update) simp
  ultimately have "keyed ?d"
    using i(1) fresh by (auto simp: keyed_def new_reservation_def new_outbox_event_def)
  moreover have "keys_unique ?d" by (rule keys_unique_upd [OF i(2) keep]) simp
  moreover have "slots_ok ?js ?vs ?ss"
  proof -
    have ex_job: "(\<exists>j \<in> set ?js. job_id j = k \<and> job_tenant j = t) \<longleftrightarrow>
        (\<exists>j \<in> set (jobs d). job_id j = k \<and> job_tenant j = t)" for k t
      by (rule bex_upd_same) simp
    have ex_state: "(\<exists>s \<in> set ?ss. ss_tenant s = t) \<longleftrightarrow>
        (\<exists>s \<in> set (scheduler_states d). ss_tenant s = t)" for t
      by (rule bex_upd_same) simp
    have "occupying (job_status j) \<longleftrightarrow> (\<exists>v \<in> set ?vs. res_job v = job_id j)"
      if "j \<in> set (jobs d)" "job_id j \<noteq> job_id job" for j
      using i(3) that by (auto simp: slots_ok_def new_reservation_def)
    then have "\<forall>j \<in> set ?js. occupying (job_status j) \<longleftrightarrow> (\<exists>v \<in> set ?vs. res_job v = job_id j)"
      unfolding ball_rows_update by (auto simp: new_reservation_def)
    moreover have "\<exists>j \<in> set (jobs d). job_id j = res_job v \<and> job_tenant j = res_tenant v"
      if "v \<in> set ?vs" for v
      using i(3) that assms(2) st(2) by (auto simp: slots_ok_def new_reservation_def)
    then have "\<forall>v \<in> set ?vs. \<exists>j \<in> set ?js. job_id j = res_job v \<and> job_tenant j = res_tenant v"
      unfolding ex_job by blast
    moreover have "\<exists>s \<in> set (scheduler_states d). ss_tenant s = res_tenant v" if "v \<in> set ?vs" for v
      using i(3) that st by (auto simp: slots_ok_def new_reservation_def)
    then have "\<forall>v \<in> set ?vs. \<exists>s \<in> set ?ss. ss_tenant s = res_tenant v"
      unfolding ex_state by blast
    ultimately show ?thesis unfolding slots_ok_def by blast
  qed
  moreover have "counts_le ?vs ?ss"
  proof -
    have one: "tenant_reservations t ?vs = tenant_reservations t (reservations d)
        + (if t = ss_tenant state then 1 else 0)" for t
      by (simp add: tenant_reservations_def rows_count_append new_reservation_def)
    have "active_reservations s \<le> tenant_reservations (ss_tenant s) (reservations d)"
      if "s \<in> set (scheduler_states d)" for s using i(4) that by (simp add: counts_le_def)
    then show ?thesis using st(1) unfolding counts_le_def ball_rows_update one by simp
  qed
  moreover have "owners_ok ?js (overlap_locks d @ ls)"
  proof -
    have "\<exists>j \<in> set ?js. job_id j = lock_job l \<and> occupying (job_status j)"
      if l: "l \<in> set (overlap_locks d @ ls)" for l
    proof (cases "lock_job l = job_id job")
      case True
      then show ?thesis using assms(2) by (auto simp: bex_rows_update)
    next
      case False
      then have "l \<in> set (overlap_locks d)" using l ls(2) by auto
      then obtain j where "j \<in> set (jobs d)" "job_id j = lock_job l" "occupying (job_status j)"
        using owners_okD [OF i(6)] by blast
      then show ?thesis using False by (intro bexI [of _ j] mem_upd_other) simp_all
    qed
    moreover have "\<forall>k. wants j = Some k \<longrightarrow>
        lock_held (job_tenant j) k (job_id j) (overlap_locks d @ ls)"
      if j: "j \<in> set (jobs d)" "occupying (job_status j) \<or> job_id j = job_id job" for j
    proof (cases "job_id j = job_id job")
      case True
      then show ?thesis using only [OF j(1)] wants by auto
    next
      case False
      then show ?thesis using i(6) j lock_held_append unfolding owners_ok_def by blast
    qed
    note held = this
    have "\<forall>j \<in> set ?js. occupying (job_status j) \<longrightarrow> (\<forall>k. wants j = Some k \<longrightarrow>
        lock_held (job_tenant j) k (job_id j) (overlap_locks d @ ls))"
      unfolding ball_rows_update
    proof
      fix j
      assume j: "j \<in> set (jobs d)"
      let ?held = "\<lambda>j. occupying (job_status j) \<longrightarrow> (\<forall>k. wants j = Some k \<longrightarrow>
        lock_held (job_tenant j) k (job_id j) (overlap_locks d @ ls))"
      from held [OF j] show "if job_id j = job_id job then ?held (?f j) else ?held j"
        by (cases "job_id j = job_id job") (simp_all add: keeps_identityD [OF keep])
    qed
    ultimately show ?thesis unfolding owners_ok_def by blast
  qed
  moreover have "attempts_ok ?js (attempts d)" by (rule attempts_upd [OF i(7) keep]) simp
  moreover have "bounds_ok ?js"
    by (rule bounds_upd [OF i(8)]) (use bound only in \<open>fastforce simp: row_bounds_def\<close>)
  moreover have "dlq_ok ?js (dead_letters d)" by (rule dlq_upd [OF i(9) keep]) simp
  moreover have "stateful ?js ?ss"
  proof (rule stateful_states)
    show "stateful ?js (scheduler_states d)" by (rule stateful_upd [OF i(10) keep]) simp
  qed (simp add: states_upd)
  moreover have "locks_ok ?d" using ls(1) by (simp add: locks_ok_def)
  ultimately show ?thesis by (simp add: inv_def)
qed

lemma wants_resource:
  assumes "wants job = Some k" "resource_of env job = Inr r"
  shows "r = Some k"
proof -
  from assms(1) have "json_get (payload job) ''overlap_key'' = Inr (JStr k)" "k \<noteq> []"
    by (auto simp: wants_def split: sum.splits json.splits if_splits)
  with assms(2) show ?thesis by (simp add: resource_of_def char_field_def)
qed

lemma inv_dispatch:
  assumes "inv d" "dispatch_next env t d = Inr (r, d')"
  shows "inv d'"
proof (cases r)
  case None
  then show ?thesis using assms dispatch_next_None by blast
next
  case (Some j)
  then have "dispatch_next env t d = Inr (Some j, d')" using assms(2) by simp
  then show ?thesis
  proof (rule dispatch_next_Some [OF invD(1) [OF assms(1)]])
    fix state tenant before job rest d1
    assume st: "state \<in> set (scheduler_states d)" "ss_tenant state = t"
      and cand: "dispatch_candidates env t d = before @ job # rest"
      and lock: "case resource_of env job of Inl _ \<Rightarrow> False | Inr None \<Rightarrow> d1 = d
        | Inr (Some k) \<Rightarrow> acquired job k d d1"
      and res: "reserve_job env job state d1 = Inr (j, d')"
    have "job \<in> set (dispatch_candidates env t d)" using cand by simp
    then have job: "job \<in> set (jobs d)" "job_status job = WAITING" "job_tenant job = t"
      using candidates_ready by (auto simp: ready_def)
    obtain ls where d1: "d1 = d\<lparr>overlap_locks := overlap_locks d @ ls\<rparr>"
      and ls: "locks_ok (d\<lparr>overlap_locks := overlap_locks d @ ls\<rparr>)"
        "\<forall>l \<in> set ls. lock_job l = job_id job"
        "\<And>k. wants job = Some k \<Longrightarrow>
           lock_held (job_tenant job) k (job_id job) (overlap_locks d @ ls)"
    proof (cases "resource_of env job")
      case (Inr q)
      show thesis
      proof (cases q)
        case None
        then have "wants job = None" using wants_resource Inr by (metis not_None_eq)
        then show thesis using that [of "[]"] None lock Inr invD(5) [OF assms(1)] by simp
      next
        case (Some k)
        then have acq: "acquired job k d d1" using lock Inr by simp
        then show thesis
        proof (rule acquired_cases)
          fix l
          assume l: "lock_scope l = TENANT" "lock_tenant l = Some (job_tenant job)"
            "resource_key l = k" "lock_job l = job_id job"
            "d1 = d\<lparr>overlap_locks := overlap_locks d @ [l]\<rparr>"
          have "locks_ok d1" using acq locks_ok_acquire [OF invD(5) [OF assms(1)]]
            by (auto simp: acquired_def)
          then show thesis using that [of "[l]"] l wants_resource [OF _ Inr] Some
            by (auto simp: lock_held_def)
        qed
      qed
    qed (use lock in simp)
    from reserve_job_Inr [OF res] have d': "d' = reserved env job state d1"
      and fresh: "\<forall>r \<in> set (reservations d). res_job r \<noteq> job_id job"
        "\<forall>e \<in> set (outbox d). out_id e \<noteq> de_outbox_id env"
      by (simp_all add: d1)
    show "inv d'" unfolding d' d1
      by (rule inv_reserved [OF assms(1) job(1,2) st(1) _ fresh ls]) (simp_all add: st(2) job(3))
  qed
qed

subsection \<open>Completion, failure, reconciliation\<close>

lemma inv_bounds:
  "inv d \<Longrightarrow> job \<in> set (jobs d) \<Longrightarrow> row_bounds (job_status job) (attempt_count job)"
  using invD(8) by (auto simp: bounds_ok_def)

lemma attempt_job:
  assumes "inv d" "a \<in> set (attempts d)"
  obtains job where "job \<in> set (jobs d)" "job_id job = att_job a" "1 \<le> attempt_count job"
    "attempt_number a \<le> attempt_count job"
proof -
  obtain job where job: "job \<in> set (jobs d)" "job_id job = att_job a"
    using invD(7) [OF assms(1)] assms(2) unfolding attempts_ok_def by blast
  then have "attempt_number ` {b \<in> set (attempts d). att_job b = job_id job} = {1..attempt_count job}"
    using invD(7) [OF assms(1)] unfolding attempts_ok_def by blast
  moreover have "attempt_number a \<in> attempt_number ` {b \<in> set (attempts d). att_job b = job_id job}"
    using assms(2) job(2) by simp
  ultimately have "attempt_number a \<in> {1..attempt_count job}" by simp
  then show thesis using that job by simp
qed

lemma attempt_count_pos:
  assumes "inv d" "a \<in> set (attempts d)" "job \<in> set (jobs d)" "job_id job = att_job a"
  shows "1 \<le> attempt_count job" "attempt_number a \<le> attempt_count job"
proof -
  obtain j where j: "j \<in> set (jobs d)" "job_id j = att_job a" "1 \<le> attempt_count j"
    "attempt_number a \<le> attempt_count j" by (rule attempt_job [OF assms(1,2)])
  have "j = job" by (rule only_row [OF assms(1,3) j(1)]) (simp add: j(2) assms(4))
  then show "1 \<le> attempt_count job" "attempt_number a \<le> attempt_count job" using j by simp_all
qed

lemma inv_complete:
  assumes "inv d" "complete_job now i v d = Inr d'"
  shows "inv d'"
  using assms(2)
proof (rule complete_job_Inr [OF invD(1) [OF assms(1)]])
  fix a job
  let ?d = "save_attempt i (\<lambda>a. a\<lparr>att_status := ATT_SUCCEEDED, finished_at := Some now\<rparr>) d"
  assume job: "job \<in> set (jobs d)" "job_id job = att_job a"
    and d': "d' = released job (save_job (att_job a) (completed_row now v) ?d)"
  have "inv ?d" by (rule inv_save_attempt [OF assms(1)]) simp
  moreover have "attempt_count job \<le> 4" using inv_bounds [OF assms(1) job(1)] by (simp add: row_bounds_def)
  ultimately show "inv d'" unfolding d' job(2) [symmetric]
    by (intro inv_leave) (simp_all add: job(1) row_bounds_def)
qed

lemma inv_fail_row:
  assumes "inv d" "job \<in> set (jobs d)" "1 \<le> attempt_count job"
    and "fail_row_tx now i job ft m d = Inr d'"
  shows "inv d'"
  using assms(4)
proof (rule fail_row_tx_Inr [OF invD(1) [OF assms(1)] assms(2)])
  fix d2
  let ?x = "new_dead_letter i job (dead_letter_reason ft) m"
  assume d': "d' = released job (save_job (job_id job) (failed_row now ft m) d2)"
    and alt: "d2 = d \<and> (retries ft job \<or> (\<exists>x \<in> set (dead_letters d). dl_job x = job_id job))
     \<or> (let x = ?x in d2 = d\<lparr>dead_letters := dead_letters d @ [x]\<rparr> \<and> \<not> retries ft job
           \<and> (\<forall>y \<in> set (dead_letters d). dl_id y \<noteq> i \<and> dl_job y \<noteq> job_id job))"
  have "inv d2 \<and> job \<in> set (jobs d2)
    \<and> (retries ft job \<or> (\<exists>x \<in> set (dead_letters d2). dl_job x = job_id job))"
    using alt
  proof
    assume "let x = ?x in d2 = d\<lparr>dead_letters := dead_letters d @ [x]\<rparr> \<and> \<not> retries ft job
           \<and> (\<forall>y \<in> set (dead_letters d). dl_id y \<noteq> i \<and> dl_job y \<noteq> job_id job)"
    then show ?thesis
      using inv_dead_letter_append [OF assms(1,2), of ?x] assms(2)
      by (simp add: Let_def new_dead_letter_def)
  qed (use assms(1,2) in blast)
  moreover have "row_bounds (if retries ft job then RETRY_WAIT else FAILED_FINAL) (attempt_count job)"
    using inv_bounds [OF assms(1,2)] assms(3) by (auto simp: row_bounds_def retries_def)
  ultimately show "inv d'" unfolding d' by (intro inv_leave) (auto split: if_splits)
qed

lemma inv_fail:
  assumes "inv d" "fail_job now i tb lib aid exc ft d = Inr d'"
  shows "inv d'"
proof -
  let ?f = "\<lambda>a. \<lambda>_. a\<lparr>att_status := ATT_FAILED, failure_type := Some ft,
      att_error_message := Some (exc_str lib exc), att_traceback := Some tb,
      finished_at := Some now\<rparr>"
  let ?g = "\<lambda>a. a\<lparr>att_status := ATT_FAILED, failure_type := Some ft,
      att_error_message := Some (exc_str lib exc), att_traceback := Some tb,
      finished_at := Some now\<rparr>"
  from assms invD(1) [OF assms(1)] obtain a job where a: "a \<in> set (attempts d)"
    and job: "job \<in> set (jobs d)" "job_id job = att_job a"
    and f: "fail_row_tx now i job ft (exc_str lib exc) (save_attempt (att_id a) (?f a) d) = Inr d'"
    by (auto simp: fail_job_eq result_bind_eq_Inr)
  have save: "save_attempt (att_id a) (?f a) d = save_attempt (att_id a) ?g d"
    by (rule save_attempt_cong [OF keyedD(2) [OF invD(1) [OF assms(1)]] a]) simp
  have inv1: "inv (save_attempt (att_id a) ?g d)" by (rule inv_save_attempt [OF assms(1)]) simp
  show ?thesis
    by (rule inv_fail_row [OF inv1 _ attempt_count_pos(1) [OF assms(1) a job] f [unfolded save]])
      (simp add: job(1))
qed

lemma inv_reconcile_attempt:
  assumes "inv d" "reconcile_attempt now now' i aid d = Inr d'"
  shows "inv d'"
  using invD(1) [OF assms(1)] assms(2)
proof (cases rule: reconcile_attempt_cases)
  case skipped
  then show ?thesis using assms(1) by simp
next
  case (abandoned a job)
  have inv1: "inv (save_attempt aid (\<lambda>a. a\<lparr>att_status := ABANDONED, finished_at := Some now,
            failure_type := Some INFRASTRUCTURE\<rparr>) d)"
    by (rule inv_save_attempt [OF assms(1)]) simp
  show ?thesis
    by (rule inv_fail_row [OF inv1 _ attempt_count_pos(1) [OF assms(1) abandoned(1,4,5)]
          abandoned(6)])
      (simp add: abandoned(4))
qed

lemma inv_recover_queued:
  assumes "inv d" "recover_queued now rnow jid d = Inr d'"
  shows "inv d'"
  using invD(1) [OF assms(1)] assms(2)
proof (cases rule: recover_queued_cases)
  case skipped
  then show ?thesis using assms(1) by simp
next
  case (recovered job)
  have "row_bounds WAITING (attempt_count job)"
    using inv_bounds [OF assms(1) recovered(1)] recovered(3) by (simp add: row_bounds_def)
  then have "inv (released job (save_job (job_id job)
      (\<lambda>j. j\<lparr>job_status := WAITING, ready_since := now\<rparr>) d))"
    by (intro inv_leave [OF assms(1) recovered(1)]) simp_all
  then show ?thesis using recovered(2,5) inv_refresh by simp
qed

subsection \<open>Cancellation, promotion\<close>

lemma inv_cancel:
  assumes "inv d" "cancel_job now jid d = Inr (j, d')"
  shows "inv d'"
proof -
  note k = invD(1) [OF assms(1)]
  obtain job where get: "get_job jid d = Inr job"
    using assms(2) by (auto simp: cancel_job_def result_bind_eq_Inr)
  then have job: "job \<in> set (jobs d)" "job_id job = jid" using k by simp_all
  note b = inv_bounds [OF assms(1) job(1)]
  have final: "\<exists>x \<in> set (dead_letters d). dl_job x = job_id job"
    if "job_status (cancel_row now job) = FAILED_FINAL"
  proof -
    have "job_status job = FAILED_FINAL" using that by (cases "job_status job") simp_all
    then show ?thesis using invD(9) [OF assms(1)] job(1) unfolding dlq_ok_def by blast
  qed
  show ?thesis
  proof (cases "job_status job = QUEUED")
    case True
    then have "d' = released job (save_job (job_id job) (cancel_row now) d)"
      using cancel_job_eq [OF keyedD(1,3) [OF k] get, of now] assms(2) job(2) by (simp split: if_splits)
    moreover have "inv (released job (save_job (job_id job) (cancel_row now) d))"
      by (rule inv_leave [OF assms(1) job(1)]) (use True b in \<open>simp_all add: row_bounds_def\<close>)
    ultimately show ?thesis by simp
  next
    case False
    then have "d' = save_job (job_id job) (cancel_row now) d"
      using cancel_job_eq [OF keyedD(1,3) [OF k] get, of now] assms(2) job(2) by simp
    moreover have "inv (save_job (job_id job) (cancel_row now) d)"
    proof (rule inv_save_job [OF assms(1) job(1) _ _ _ _ final])
      show "occupying (job_status (cancel_row now job)) = occupying (job_status job)"
        using False by (cases "job_status job") simp_all
      show "row_bounds (job_status (cancel_row now job)) (attempt_count job)"
        using b by (cases "job_status job") (simp_all add: row_bounds_def)
    qed simp_all
    ultimately show ?thesis by simp
  qed
qed

lemma inv_refresh_all:
  assumes "inv d" "try_each (\<lambda>t. refresh_scheduler_state (refresh_now t) t) ts d = Inr d'"
  shows "inv d'"
  by (rule try_each_invariant [where I = inv, OF _ assms]) (rule inv_refresh)

lemma inv_promote_fold:
  assumes "inv d"
  shows "inv (fold (promote now) (due_retries now locked limit d) d)"
proof -
  let ?js = "due_retries now locked limit d"
  let ?f = "\<lambda>r. r\<lparr>job_status := WAITING, ready_since := now\<rparr>"
  have due: "job_status j = RETRY_WAIT" if j: "j \<in> set (jobs d)" "job_id j \<in> job_id ` set ?js" for j
  proof -
    obtain k where k: "k \<in> set ?js" "job_id j = job_id k" using j(2) by auto
    then have "j = k" using only_row [OF assms(1) due_retries_mem(1) [OF k(1)] j(1)] by blast
    then show ?thesis using due_retries_mem(2) [OF k(1)] by simp
  qed
  have "fold (promote now) ?js d
      = d\<lparr>jobs := rows_update (\<lambda>r. job_id r \<in> job_id ` set ?js) ?f (jobs d)\<rparr>"
    by (simp add: jobs_promote_fold)
  moreover have "inv (d\<lparr>jobs := rows_update (\<lambda>r. job_id r \<in> job_id ` set ?js) ?f (jobs d)\<rparr>)"
  proof (rule inv_upd_jobs [OF assms(1)])
    fix j
    assume j: "j \<in> set (jobs d)" "job_id j \<in> job_id ` set ?js"
    show "occupying (job_status (?f j)) = occupying (job_status j)" using due [OF j] by simp
    show "row_bounds (job_status (?f j)) (attempt_count j)"
      using inv_bounds [OF assms(1) j(1)] due [OF j] by (simp add: row_bounds_def)
  qed simp_all
  ultimately show ?thesis by simp
qed

lemma inv_promote:
  assumes "inv d" "promote_ready_retries now locked refresh_now limit d = Inr (n, d')"
  shows "inv d'"
proof -
  have "try_each (\<lambda>t. refresh_scheduler_state (refresh_now t) t)
      (remdups (map job_tenant (due_retries now locked limit d)))
      (fold (promote now) (due_retries now locked limit d) d) = Inr d'"
    using assms(2) by (auto simp: promote_ready_retries_def Let_def result_bind_eq_Inr)
  then show ?thesis by (rule inv_refresh_all [OF inv_promote_fold [OF assms(1)]])
qed

subsection \<open>Heartbeats, publication, tenants, the order of rows\<close>

lemma inv_heartbeat_attempt: "inv d \<Longrightarrow> inv (heartbeat_update_attempt now i d)"
  using inv_save_attempt [of d "\<lambda>a. a\<lparr>heartbeat_at := Some now,
           lease_expires_at := Some (now + timedelta_seconds LEASE_SECONDS)\<rparr>" i]
  by (simp add: heartbeat_update_attempt_def save_attempt_def)

lemma inv_heartbeat_reservation: "inv d \<Longrightarrow> inv (heartbeat_update_reservation now j d)"
  using inv_reservations_upd [of d "\<lambda>r. r\<lparr>res_expires_at := now + timedelta_seconds LEASE_SECONDS\<rparr>"]
  by (simp add: heartbeat_update_reservation_def)

lemma inv_publish:
  assumes "inv d" "publish_event now delay str_exc i (d, q) = (r, (d', q'))"
  shows "inv d'"
proof -
  have "map out_id (outbox d') = map out_id (outbox d)"
    using assms(2)
    by (cases rule: publish_event_cases [of now delay str_exc i d q])
      (auto simp: save_outbox_def map_rows_update)
  then have "distinct (map out_id (outbox d'))" using keyedD(7) [OF invD(1) [OF assms(1)]] by simp
  then have "inv (d\<lparr>outbox := outbox d'\<rparr>)" by (rule inv_outbox [OF assms(1)])
  then show ?thesis using publish_event_frame [OF assms(2)] by simp
qed

text \<open>Two databases with the same rows in another order.\<close>

definition reordered :: "db \<Rightarrow> db \<Rightarrow> bool" where
  "reordered d d' \<longleftrightarrow> mset (tenants d') = mset (tenants d) \<and> mset (jobs d') = mset (jobs d)
     \<and> mset (attempts d') = mset (attempts d) \<and> mset (reservations d') = mset (reservations d)
     \<and> mset (overlap_locks d') = mset (overlap_locks d) \<and> mset (outbox d') = mset (outbox d)
     \<and> mset (dead_letters d') = mset (dead_letters d)
     \<and> mset (scheduler_states d') = mset (scheduler_states d)"

lemma reordered_sets:
  assumes "reordered d d'"
  shows "set (tenants d') = set (tenants d)" "set (jobs d') = set (jobs d)"
    "set (attempts d') = set (attempts d)" "set (reservations d') = set (reservations d)"
    "set (overlap_locks d') = set (overlap_locks d)" "set (outbox d') = set (outbox d)"
    "set (dead_letters d') = set (dead_letters d)"
    "set (scheduler_states d') = set (scheduler_states d)"
  using assms by (auto simp: reordered_def dest: mset_eq_setD)

lemma reordered_distinct:
  assumes "reordered d d'"
  shows "distinct (map ka (jobs d')) = distinct (map ka (jobs d))"
    "distinct (map kb (attempts d')) = distinct (map kb (attempts d))"
    "distinct (map kc (scheduler_states d')) = distinct (map kc (scheduler_states d))"
    "distinct (map kd (tenants d')) = distinct (map kd (tenants d))"
    "distinct (map ke (dead_letters d')) = distinct (map ke (dead_letters d))"
    "distinct (map kf (outbox d')) = distinct (map kf (outbox d))"
    "distinct (map kg (reservations d')) = distinct (map kg (reservations d))"
    "distinct (map kh (overlap_locks d')) = distinct (map kh (overlap_locks d))"
  by (rule distinct_map_mset, use assms in \<open>simp add: reordered_def\<close>)+

lemma reordered_counts:
  "reordered d d' \<Longrightarrow> tenant_reservations t (reservations d') = tenant_reservations t (reservations d)"
  unfolding tenant_reservations_def reordered_def by (blast intro: rows_count_mset)

lemma inv_reordered:
  assumes "inv d" "reordered d d'"
  shows "inv d'"
  using assms(1)
  unfolding inv_def keyed_def keys_unique_def slots_ok_def counts_le_def locks_ok_def owners_ok_def
    lock_held_def attempts_ok_def bounds_ok_def dlq_ok_def stateful_def
    reordered_sets [OF assms(2)] reordered_distinct [OF assms(2)] reordered_counts [OF assms(2)]
  .

lemma attempt_has_state:
  assumes "inv d" "a \<in> set (attempts d)" "job \<in> set (jobs d)" "job_id job = att_job a"
  shows "has_state (job_tenant job) d"
  using invD(10) [OF assms(1)] attempt_count_pos(1) [OF assms] assms(3)
  unfolding stateful_def has_state_def by force

section \<open>Transactions that cannot fail\<close>

text \<open>
  On a consistent database the worker's three transactions succeed: the claim of a QUEUED job with
  a fresh key for its attempt, the completion and, with a fresh key for the dead letter, the
  failure of an attempt.
\<close>

lemma claim_total:
  assumes "inv d" "job \<in> set (jobs d)" "job_status job = QUEUED"
    and "\<And>a. a \<in> set (attempts d) \<Longrightarrow> att_id a \<noteq> i" "length host \<le> 255"
  shows "\<exists>a d'. claim_job now host i (job_id job) d = Inr (Some (a, claimed_row now job), d')"
proof -
  obtain r where r: "row_first job_id (filter (\<lambda>j. job_id j = job_id job) (jobs d)) = Some r"
    using row_first_ex [of job_id "\<lambda>j. job_id j = job_id job" "jobs d"] assms(2) by auto
  then have "r \<in> set (jobs d) \<and> job_id r = job_id job" by (auto dest: row_first_Some_D(1))
  then have rj: "r = job" using only_row [OF assms(1,2)] by blast
  have le: "attempt_count job \<le> 3"
    using inv_bounds [OF assms(1,2)] assms(3) by (simp add: row_bounds_def)
  have "attempt_number ` {a \<in> set (attempts d). att_job a = job_id job} = {1..attempt_count job}"
    using invD(7) [OF assms(1)] assms(2) unfolding attempts_ok_def by blast
  then have "Suc (attempt_count job) \<notin> attempt_number ` {a \<in> set (attempts d). att_job a = job_id job}"
    by simp
  then have "\<not> (att_job a = job_id job \<and> attempt_number a = Suc (attempt_count job))"
    if "a \<in> set (attempts d)" for a using that by force
  then show ?thesis
    using assms(3-5) le
    by (auto simp: claim_job_def r rj smallint_max_def insert_attempt_def Let_def claimed_row_def)
qed

lemma complete_total:
  assumes "inv d" "a \<in> set (attempts d)" "job \<in> set (jobs d)" "job_id job = att_job a"
  shows "complete_job now (att_id a) v d = Inr (released job (save_job (job_id job) (completed_row now v)
    (save_attempt (att_id a) (\<lambda>b. b\<lparr>att_status := ATT_SUCCEEDED, finished_at := Some now\<rparr>) d)))"
proof -
  note k = invD(1) [OF assms(1)]
  have get: "get_attempt (att_id a) d = Inr a" "get_job (att_job a) d = Inr job"
    using k assms(2-4) by simp_all
  have "distinct (map ss_tenant (scheduler_states d))" using k by (rule keyedD)
  then show ?thesis
    using attempt_has_state [OF assms] assms(4)
    by (simp add: complete_job_def get Let_def release_capacity_eq completed_row_def [abs_def])
qed

definition failed_attempt ::
  "time \<Rightarrow> string \<Rightarrow> FailureType \<Rightarrow> string \<Rightarrow> JobAttempt \<Rightarrow> JobAttempt" where
  "failed_attempt now tb ft m b = b\<lparr>att_status := ATT_FAILED, failure_type := Some ft,
     att_error_message := Some m, att_traceback := Some tb, finished_at := Some now\<rparr>"

lemma fail_total:
  assumes "inv d" "a \<in> set (attempts d)" "job \<in> set (jobs d)" "job_id job = att_job a"
    and "\<forall>x \<in> set (dead_letters d). dl_id x \<noteq> i"
  shows "fail_job now i tb lib (att_id a) exc ft d = Inr (failed_db now i job ft (exc_str lib exc)
    (save_attempt (att_id a) (failed_attempt now tb ft (exc_str lib exc)) d))"
proof -
  note k = invD(1) [OF assms(1)]
  let ?upd = "failed_attempt now tb ft (exc_str lib exc)"
  have id: "att_id (?upd b) = att_id b" for b by (simp add: failed_attempt_def)
  have cong: "save_attempt (att_id a) (\<lambda>_. ?upd a) d = save_attempt (att_id a) ?upd d"
    by (rule save_attempt_cong [OF keyedD(2) [OF k] assms(2)]) simp
  have get: "get_attempt (att_id a) d = Inr a" "get_job (att_job a) d = Inr job"
    using k assms(2-4) by simp_all
  have "attempt_count job \<le> smallint_max"
    using inv_bounds [OF assms(1,3)] by (simp add: row_bounds_def smallint_max_def)
  then have "fail_row_tx now i job ft (exc_str lib exc) (save_attempt (att_id a) ?upd d)
      = Inr (failed_db now i job ft (exc_str lib exc) (save_attempt (att_id a) ?upd d))"
    using k assms(3,5) attempt_has_state [OF assms(1-4)] by (intro fail_row_total) (simp_all add: id)
  then show ?thesis
    by (simp add: fail_job_eq get cong [symmetric] failed_attempt_def [symmetric])
qed

end
