(* ===== verification/Api.thy ===== *)
theory Api
  imports Submission Cancel DeadLetter
begin

text \<open>
  The REST layer of the jobs application, \<open>jobs/serializers.py\<close> and \<open>jobs/views.py\<close>, and of the
  tenants application, \<open>tenants/serializers.py\<close> and \<open>tenants/views.py\<close>. What Django REST
  framework does with a request is an argument: \<open>super_to_internal\<close> is the field validation of
  \<open>ModelSerializer\<close>, which the repository only calls. Strings are read as ASCII.
\<close>

section \<open>The serializer's normalisation\<close>

text \<open>\<open>str.strip()\<close>, \<open>str.upper()\<close> and \<open>str.replace(" ", "_")\<close> on ASCII text.\<close>

definition py_space :: "char \<Rightarrow> bool" where
  "py_space c \<longleftrightarrow> of_char c \<in> {9, 10, 11, 12, 13, 28, 29, 30, 31, 32 :: nat}"

definition py_strip :: "string \<Rightarrow> string" where
  "py_strip s = rev (dropWhile py_space (rev (dropWhile py_space s)))"

definition upper_char :: "char \<Rightarrow> char" where
  "upper_char c = (let n = of_char c :: nat in if 97 \<le> n \<and> n \<le> 122 then char_of (n - 32) else c)"

definition underscore :: "char \<Rightarrow> char" where
  "underscore c = (if c = CHR '' '' then CHR ''_'' else c)"

definition normalise_job_type :: "string \<Rightarrow> string" where
  "normalise_job_type raw = map underscore (map upper_char (py_strip raw))"

text \<open>\<open>data["job_type"] = raw\<close> on the copy of the dict.\<close>

fun dict_set :: "string \<Rightarrow> json \<Rightarrow> (string \<times> json) list \<Rightarrow> (string \<times> json) list" where
  "dict_set k v [] = [(k, v)]"
| "dict_set k v ((k', v') # kvs) = (if k' = k then (k, v) # kvs else (k', v') # dict_set k v kvs)"

definition to_internal_value :: "(json \<Rightarrow> 'v result) \<Rightarrow> json \<Rightarrow> 'v result" where
  "to_internal_value super_to_internal data = super_to_internal
     (case data of
        JObj kvs \<Rightarrow>
          (case map_of kvs ''job_type'' of
             Some (JStr raw) \<Rightarrow> JObj (dict_set ''job_type'' (JStr (normalise_job_type raw)) kvs)
           | _ \<Rightarrow> data)
      | _ \<Rightarrow> data)"

lemma map_of_dict_set: "map_of (dict_set k v kvs) k' = (if k' = k then Some v else map_of kvs k')"
  by (induction kvs) auto

section \<open>Job views\<close>

text \<open>
  The validated data of a submission, with \<open>None\<close> for the fields the client left out. The other
  validated fields go into the \<open>**kwargs\<close> of \<open>submit_job\<close>, which ignores them, and the key is a
  read-only field, so never among them.
\<close>

record validated_job =
  val_tenant :: uuid
  val_job_type :: string
  val_payload :: "json option"
  val_priority :: "int option"
  val_available_at :: "time option"

definition or_header :: "string option \<Rightarrow> json result \<Rightarrow> json result" where
  "or_header h rest = (case h of None \<Rightarrow> rest | Some k \<Rightarrow> if k = [] then rest else Inr (JStr k))"

text \<open>
  \<open>JobListCreateView.create\<close>: \<open>header\<close> looks up a request header, \<open>data\<close> is the parsed body. The
  key is the first truthy one of two headers and the body's field. The submission and the
  refresh are two transactions: when the second one fails the job stays. The response is the job
  and the status code.
\<close>

record create_env =
  ce_now :: time
  ce_job_id :: uuid
  ce_generated_key :: string
  ce_refresh_now :: time
  ce_str :: "json \<Rightarrow> string"

definition submission_of :: "validated_job \<Rightarrow> string option \<Rightarrow> submission" where
  "submission_of v key =
     (submission_defaults (val_tenant v) (val_job_type v))\<lparr>
       sub_payload := (case val_payload v of None \<Rightarrow> JNull | Some p \<Rightarrow> p),
       sub_priority := (case val_priority v of None \<Rightarrow> JobPriority_value NORMAL | Some p \<Rightarrow> p),
       sub_idempotency_key := key,
       sub_available_at := val_available_at v\<rparr>"

definition create_job ::
  "create_env \<Rightarrow> (json \<Rightarrow> validated_job result) \<Rightarrow> (string \<Rightarrow> string option) \<Rightarrow> json \<Rightarrow> db
     \<Rightarrow> (Job \<times> nat) result \<times> db" where
  "create_job env super_to_internal header data d =
     (case result_bind (to_internal_value super_to_internal data) (\<lambda>v.
             result_bind (or_header (header ''Idempotency-Key'')
                            (or_header (header ''X-Idempotency-Key'')
                               (json_get data ''idempotency_key'')))
               (\<lambda>key. Inr (v, if truthy key then Some (char_field (ce_str env) key) else None))) of
        Inl e \<Rightarrow> (Inl e, d)
      | Inr (v, key) \<Rightarrow>
          (case submit_job (ce_now env) (ce_job_id env) (ce_generated_key env)
                  (submission_of v key) d of
             Inl e \<Rightarrow> (Inl e, d)
           | Inr ((job, created), d1) \<Rightarrow>
               if created then
                 (case refresh_scheduler_state (ce_refresh_now env) (job_tenant job) d1 of
                    Inl e \<Rightarrow> (Inl e, d1)
                  | Inr d2 \<Rightarrow> (Inr (job, 201), d2))
               else (Inr (job, 200), d1)))"

definition cancel_view :: "time \<Rightarrow> uuid \<Rightarrow> db \<Rightarrow> (Job \<times> nat) result \<times> db" where
  "cancel_view now pk d =
     (case cancel_job now pk d of Inl e \<Rightarrow> (Inl e, d) | Inr (job, d1) \<Rightarrow> (Inr (job, 200), d1))"

definition replay_view ::
  "time \<Rightarrow> time \<Rightarrow> uuid \<Rightarrow> string \<Rightarrow> uuid \<Rightarrow> db \<Rightarrow> (Job \<times> nat) result \<times> db" where
  "replay_view now refresh_now new_id generated_key pk d =
     (case replay_dead_letter now refresh_now new_id generated_key pk d of
        Inl e \<Rightarrow> (Inl e, d)
      | Inr (job, d1) \<Rightarrow> (Inr (job, 201), d1))"

definition job_attempts :: "uuid \<Rightarrow> db \<Rightarrow> JobAttempt list" where
  "job_attempts jid d = filter (\<lambda>a. att_job a = jid) (attempts d)"

text \<open>
  The generic list and detail views: the queryset, and the row with the key of the URL or the
  status 404. The lists carry no filter.
\<close>

definition retrieve :: "'r result \<Rightarrow> 'r option \<times> nat" where
  "retrieve r = (case r of Inl e \<Rightarrow> (None, 404) | Inr x \<Rightarrow> (Some x, 200))"

definition job_list :: "db \<Rightarrow> Job list" where
  "job_list d = jobs d"

definition job_detail :: "uuid \<Rightarrow> db \<Rightarrow> Job option \<times> nat" where
  "job_detail pk d = retrieve (get_job pk d)"

definition dead_letter_list :: "db \<Rightarrow> DeadLetterJob list" where
  "dead_letter_list d = dead_letters d"

definition dead_letter_detail :: "uuid \<Rightarrow> db \<Rightarrow> DeadLetterJob option \<times> nat" where
  "dead_letter_detail pk d = retrieve (get_dead_letter pk d)"

section \<open>Tenant views\<close>

text \<open>
  The validated fields of a tenant. A creation fills in the model's defaults, an update sets the
  fields given and saves the row. The serializer has checked their ranges.
\<close>

record tenant_input =
  ti_name :: "string option"
  ti_is_active :: "bool option"
  ti_max_concurrent_jobs :: "nat option"

definition apply_tenant_input :: "tenant_input \<Rightarrow> Tenant \<Rightarrow> Tenant" where
  "apply_tenant_input inp t = t\<lparr>
     ten_name := (case ti_name inp of None \<Rightarrow> ten_name t | Some n \<Rightarrow> n),
     is_active := (case ti_is_active inp of None \<Rightarrow> is_active t | Some b \<Rightarrow> b),
     max_concurrent_jobs :=
       (case ti_max_concurrent_jobs inp of None \<Rightarrow> max_concurrent_jobs t | Some n \<Rightarrow> n)\<rparr>"

definition create_tenant :: "uuid \<Rightarrow> tenant_input \<Rightarrow> db \<Rightarrow> (Tenant \<times> db) result" where
  "create_tenant new_id inp d =
     (let t = apply_tenant_input inp
                \<lparr>ten_id = new_id, ten_name = [], is_active = True, max_concurrent_jobs = 2\<rparr>
      in if 255 < length (ten_name t) \<or> smallint_max < max_concurrent_jobs t then Inl DataError
         else if \<exists>r \<in> set (tenants d). ten_id r = new_id then Inl IntegrityError
         else Inr (t, d\<lparr>tenants := tenants d @ [t]\<rparr>))"

definition update_tenant :: "uuid \<Rightarrow> tenant_input \<Rightarrow> db \<Rightarrow> (Tenant \<times> db) result" where
  "update_tenant pk inp d =
     result_bind (get_tenant pk d) (\<lambda>t.
       let t1 = apply_tenant_input inp t
       in if 255 < length (ten_name t1) \<or> smallint_max < max_concurrent_jobs t1 then Inl DataError
          else Inr (t1, d\<lparr>tenants := rows_update (\<lambda>r. ten_id r = pk) (\<lambda>_. t1) (tenants d)\<rparr>))"

definition tenant_list :: "db \<Rightarrow> Tenant list" where
  "tenant_list d = tenants d"

definition tenant_detail :: "uuid \<Rightarrow> db \<Rightarrow> Tenant option \<times> nat" where
  "tenant_detail pk d = retrieve (get_tenant pk d)"

lemma apply_tenant_input_id [simp]: "ten_id (apply_tenant_input inp t) = ten_id t"
  by (simp add: apply_tenant_input_def)

lemma create_tenant_Inr:
  assumes "create_tenant i inp d = Inr (t, d')"
  shows "d' = d\<lparr>tenants := tenants d @ [t]\<rparr>" "ten_id t = i" "\<forall>r \<in> set (tenants d). ten_id r \<noteq> i"
  using assms by (auto simp: create_tenant_def Let_def split: if_splits)

lemma update_tenant_Inr:
  assumes "update_tenant pk inp d = Inr (t1, d')"
  obtains t where "get_tenant pk d = Inr t" "t1 = apply_tenant_input inp t"
    "d' = d\<lparr>tenants := rows_update (\<lambda>r. ten_id r = pk) (\<lambda>_. t1) (tenants d)\<rparr>"
    "ten_id t1 = pk"
  using assms
  by (auto simp: update_tenant_def Let_def result_bind_eq_Inr get_tenant_def
      dest: row_get_Inr_D split: if_splits)

end
