(* ===== verification/Tasks.thy ===== *)
theory Tasks
  imports Dispatcher Retry Outbox Reconciliation
begin

text \<open>
  \<open>jobs/tasks.py\<close>: the Celery tasks. \<open>execute_job\<close> is run for each delivered message, the other
  four by the beat schedule. A task that loops over transactions keeps what the iterations
  before an exception committed.
\<close>

definition execute_job :: "execute_env \<Rightarrow> registry \<Rightarrow> uuid \<Rightarrow> db \<Rightarrow> unit result \<times> db" where
  "execute_job env reg jid d = execute env reg jid d"

definition process_retries ::
  "time \<Rightarrow> (uuid \<Rightarrow> bool) \<Rightarrow> (uuid \<Rightarrow> time) \<Rightarrow> db \<Rightarrow> (nat \<times> db) result" where
  "process_retries now locked refresh_now d = promote_ready_retries now locked refresh_now 100 d"

definition publish_outbox ::
  "time \<Rightarrow> (uuid \<Rightarrow> time) \<Rightarrow> (uuid \<Rightarrow> exn option) \<Rightarrow> (exn \<Rightarrow> string) \<Rightarrow> db \<times> broker
     \<Rightarrow> unit result \<times> (db \<times> broker)" where
  "publish_outbox now event_now delay str_exc s = publish_pending now event_now delay str_exc 100 s"

definition ready_tenants :: "db \<Rightarrow> uuid list" where
  "ready_tenants d = take 100 (map ss_tenant (filter has_ready_work (scheduler_states d)))"

definition dispatch_one :: "(uuid \<Rightarrow> dispatch_env) \<Rightarrow> uuid \<Rightarrow> db \<Rightarrow> unit result \<times> db" where
  "dispatch_one envs t d =
     (case dispatch_next (envs t) t d of Inl e \<Rightarrow> (Inl e, d) | Inr (_, d1) \<Rightarrow> (Inr (), d1))"

definition dispatch_jobs :: "(uuid \<Rightarrow> dispatch_env) \<Rightarrow> db \<Rightarrow> unit result \<times> db" where
  "dispatch_jobs envs d = for_each (dispatch_one envs) (ready_tenants d) d"

definition reconcile_zombies :: "reconcile_env \<Rightarrow> db \<Rightarrow> unit result \<times> db" where
  "reconcile_zombies env d = reconcile_expired env 100 d"

end
