(* ===== verification/System.thy ===== *)
theory System
  imports Preservation Api Tasks
begin

text \<open>
  The running system: the database, the messages the broker has accepted and the worker processes
  that execute an attempt. The messages are a log: what the broker does with them, when it
  redelivers one and when it forgets one that is acknowledged, is Celery's, so a message may be
  delivered at any time after it was accepted, any number of times or never. Every transaction of the code is one event; what it draws from its
  surroundings (clock readings, new keys, the rows it finds locked, the broker's answer, the
  outcome of a handler) is an argument of the event, so any interleaving of any number of web
  processes, workers and beat tasks is a sequence of events. A transaction that raises leaves
  the database as it was.
\<close>

section \<open>States and events\<close>

record sys =
  sys_db :: db
  sys_broker :: broker
  sys_workers :: "uuid list"

definition init_sys :: sys where
  "init_sys = \<lparr>sys_db = empty_db, sys_broker = [], sys_workers = []\<rparr>"

text \<open>
  \<open>Ensure_State\<close> and \<open>Save_Readiness\<close> are the two commits of the refresh that the submission's view
  makes outside a transaction, the second with any values, since the queries between them may
  have read rows that have changed since; \<open>Refresh\<close> is both with nothing in between.
  \<open>Publish_Crash\<close> is a publisher that dies, or whose COMMIT fails, between the call of the broker
  and the end of its transaction; \<open>Claim\<close> the delivery of a message to a worker (at least once:
  a message may be delivered again); \<open>Worker_Crash\<close> the death of a worker process; \<open>Reorder\<close> a
  new order in which the database returns rows.
\<close>

datatype event =
    Create_Tenant uuid tenant_input
  | Update_Tenant uuid tenant_input
  | Submit time uuid string submission
  | Refresh time uuid
  | Ensure_State uuid
  | Save_Readiness uuid bool "int option" "time option"
  | Dispatch dispatch_env uuid
  | Publish time "uuid \<Rightarrow> exn option" "exn \<Rightarrow> string" uuid
  | Publish_Crash uuid
  | Claim time string uuid uuid
  | Complete time uuid json
  | Fail time uuid string "exn \<Rightarrow> string" uuid exn FailureType
  | Worker_Crash uuid
  | Heartbeat_Attempt time uuid
  | Heartbeat_Reservation time uuid
  | Promote time "uuid \<Rightarrow> bool" "uuid \<Rightarrow> time" nat
  | Reap time time uuid uuid
  | Recover time time uuid
  | Cancel_Job time uuid
  | Replay time time uuid string uuid
  | Reorder db

text \<open>The outcome of a transaction for the database.\<close>

definition tx :: "db result \<Rightarrow> sys \<Rightarrow> sys" where
  "tx r s = (case r of Inl _ \<Rightarrow> s | Inr d \<Rightarrow> s\<lparr>sys_db := d\<rparr>)"

lemma tx_simps [simp]: "tx (Inl e) s = s" "tx (Inr d) s = s\<lparr>sys_db := d\<rparr>"
  by (simp_all add: tx_def)

definition db_of :: "('a \<times> db) result \<Rightarrow> db result" where
  "db_of r = (case r of Inl e \<Rightarrow> Inl e | Inr (_, d) \<Rightarrow> Inr d)"

lemma db_of_simps [simp]: "db_of (Inl e) = Inl e" "db_of (Inr (x, d)) = Inr d"
  by (simp_all add: db_of_def)

lemma db_of_Inr: "db_of r = Inr d \<longleftrightarrow> (\<exists>x. r = Inr (x, d))"
  by (cases r) (auto simp: db_of_def)

text \<open>\<open>None\<close>: the event cannot happen in this state.\<close>

fun do_event :: "event \<Rightarrow> sys \<Rightarrow> sys option" where
  "do_event (Create_Tenant i inp) s = Some (tx (db_of (create_tenant i inp (sys_db s))) s)"
| "do_event (Update_Tenant i inp) s = Some (tx (db_of (update_tenant i inp (sys_db s))) s)"
| "do_event (Submit now i g sub) s = Some (tx (db_of (submit_job now i g sub (sys_db s))) s)"
| "do_event (Refresh now t) s = Some (tx (refresh_scheduler_state now t (sys_db s)) s)"
| "do_event (Ensure_State t) s = Some (tx (db_of (get_or_create_scheduler_state t (sys_db s))) s)"
| "do_event (Save_Readiness t b p n) s = Some (s\<lparr>sys_db := save_readiness t b p n (sys_db s)\<rparr>)"
| "do_event (Dispatch env t) s = Some (tx (db_of (dispatch_next env t (sys_db s))) s)"
| "do_event (Publish now delay str_exc i) s =
     (case publish_event now delay str_exc i (sys_db s, sys_broker s) of
        (_, (d, q)) \<Rightarrow> Some (s\<lparr>sys_db := d, sys_broker := q\<rparr>))"
| "do_event (Publish_Crash i) s =
     (case get_outbox i (sys_db s) of
        Inl _ \<Rightarrow> None
      | Inr ev \<Rightarrow> if out_status ev = PENDING
                 then Some (s\<lparr>sys_broker := sys_broker s @ [out_job ev]\<rparr>) else None)"
| "do_event (Claim now host i jid) s =
     (if jid \<in> set (sys_broker s) then
        (case claim_job now host i jid (sys_db s) of
           Inl _ \<Rightarrow> Some s
         | Inr (None, d) \<Rightarrow> Some (s\<lparr>sys_db := d\<rparr>)
         | Inr (Some (a, _), d) \<Rightarrow> Some (s\<lparr>sys_db := d, sys_workers := att_id a # sys_workers s\<rparr>))
      else None)"
| "do_event (Complete now i v) s =
     (if i \<in> set (sys_workers s) then
        (case complete_job now i v (sys_db s) of
           Inl _ \<Rightarrow> Some s
         | Inr d \<Rightarrow> Some (s\<lparr>sys_db := d, sys_workers := removeAll i (sys_workers s)\<rparr>))
      else None)"
| "do_event (Fail now i tb lib aid exc ft) s =
     (if aid \<in> set (sys_workers s) then
        Some (tx (fail_job now i tb lib aid exc ft (sys_db s)) s
                \<lparr>sys_workers := removeAll aid (sys_workers s)\<rparr>)
      else None)"
| "do_event (Worker_Crash i) s = Some (s\<lparr>sys_workers := removeAll i (sys_workers s)\<rparr>)"
| "do_event (Heartbeat_Attempt now i) s =
     Some (s\<lparr>sys_db := heartbeat_update_attempt now i (sys_db s)\<rparr>)"
| "do_event (Heartbeat_Reservation now j) s =
     Some (s\<lparr>sys_db := heartbeat_update_reservation now j (sys_db s)\<rparr>)"
| "do_event (Promote now locked rnow limit) s =
     Some (tx (db_of (promote_ready_retries now locked rnow limit (sys_db s))) s)"
| "do_event (Reap now now' i aid) s = Some (tx (reconcile_attempt now now' i aid (sys_db s)) s)"
| "do_event (Recover now rnow jid) s = Some (tx (recover_queued now rnow jid (sys_db s)) s)"
| "do_event (Cancel_Job now jid) s = Some (tx (db_of (cancel_job now jid (sys_db s))) s)"
| "do_event (Replay now rnow i g x) s =
     Some (tx (db_of (replay_dead_letter now rnow i g x (sys_db s))) s)"
| "do_event (Reorder d) s = (if reordered (sys_db s) d then Some (s\<lparr>sys_db := d\<rparr>) else None)"

text \<open>The states events lead to while a condition admits each of them.\<close>

inductive reachable :: "(event \<Rightarrow> sys \<Rightarrow> bool) \<Rightarrow> sys \<Rightarrow> bool" for G where
  init: "reachable G init_sys"
| step: "reachable G s \<Longrightarrow> G e s \<Longrightarrow> do_event e s = Some s' \<Longrightarrow> reachable G s'"

definition any_event :: "event \<Rightarrow> sys \<Rightarrow> bool" where
  "any_event e s \<longleftrightarrow> True"

text \<open>
  Timeliness: the reaper abandons an attempt only when no worker executes it any more. It is what
  a lease of five minutes is meant to ensure; nothing in the code does.
\<close>

fun timely :: "event \<Rightarrow> sys \<Rightarrow> bool" where
  "timely (Reap now now' i aid) s \<longleftrightarrow> aid \<notin> set (sys_workers s)"
| "timely e s \<longleftrightarrow> True"

text \<open>Timeliness, and no tenant's limit is lowered.\<close>

definition limits_kept :: "event \<Rightarrow> sys \<Rightarrow> bool" where
  "limits_kept e s \<longleftrightarrow> (case e of
     Update_Tenant i inp \<Rightarrow> (case ti_max_concurrent_jobs inp of None \<Rightarrow> True
       | Some n \<Rightarrow> \<forall>t \<in> set (tenants (sys_db s)). ten_id t = i \<longrightarrow> max_concurrent_jobs t \<le> n)
   | _ \<Rightarrow> True)"

definition steady :: "event \<Rightarrow> sys \<Rightarrow> bool" where
  "steady e s \<longleftrightarrow> timely e s \<and> limits_kept e s"

inductive later :: "(event \<Rightarrow> sys \<Rightarrow> bool) \<Rightarrow> sys \<Rightarrow> sys \<Rightarrow> bool" for G s where
  later_refl: "later G s s"
| later_step: "later G s s1 \<Longrightarrow> G e s1 \<Longrightarrow> do_event e s1 = Some s' \<Longrightarrow> later G s s'"

text \<open>A given sequence of events, executed.\<close>

fun run_events :: "(event \<Rightarrow> sys \<Rightarrow> bool) \<Rightarrow> event list \<Rightarrow> sys \<Rightarrow> sys option" where
  "run_events G [] s = Some s"
| "run_events G (e # es) s =
     (if G e s then (case do_event e s of None \<Rightarrow> None | Some s1 \<Rightarrow> run_events G es s1) else None)"

lemma run_events_append:
  "run_events G (es @ fs) s = (case run_events G es s of None \<Rightarrow> None | Some s1 \<Rightarrow> run_events G fs s1)"
  by (induction es arbitrary: s) (auto split: option.splits)

lemma later_reachable: "later G s s' \<Longrightarrow> reachable G s \<Longrightarrow> reachable G s'"
  by (induction rule: later.induct) (auto intro: reachable.intros)

lemma later_trans: "later G s1 s2 \<Longrightarrow> later G s s1 \<Longrightarrow> later G s s2"
  by (induction rule: later.induct) (auto intro: later.later_step)

lemma run_events_later: "run_events G es s = Some s' \<Longrightarrow> later G s s'"
proof (induction es arbitrary: s)
  case (Cons e es)
  then obtain s1 where "G e s" "do_event e s = Some s1" "run_events G es s1 = Some s'"
    by (auto split: option.splits if_splits)
  then show ?case using Cons.IH later.later_step [OF later.later_refl] later_trans by blast
qed (simp add: later.later_refl)

lemma run_events_reachable: "run_events G es init_sys = Some s \<Longrightarrow> reachable G s"
  using run_events_later later_reachable reachable.init by blast

lemma reachable_mono:
  assumes "reachable G s" "\<And>e s. G e s \<Longrightarrow> H e s"
  shows "reachable H s"
  using assms(1)
  by induction (auto intro: reachable.intros assms(2))

lemma reachable_any: "reachable G s \<Longrightarrow> reachable any_event s"
  by (erule reachable_mono) (simp add: any_event_def)

lemma steady_timely: "reachable steady s \<Longrightarrow> reachable timely s"
  by (erule reachable_mono) (simp add: steady_def)

text \<open>
  The contract of an invariant: it holds at the start and every admitted event keeps it. Then it
  holds in every reachable state.
\<close>

locale run_invariant =
  fixes admitted :: "event \<Rightarrow> sys \<Rightarrow> bool"
    and good :: "sys \<Rightarrow> bool"
  assumes good_init: "good init_sys"
    and good_step: "good s \<Longrightarrow> admitted e s \<Longrightarrow> do_event e s = Some s' \<Longrightarrow> good s'"
begin

lemma good_reachable: "reachable admitted s \<Longrightarrow> good s"
  by (induction rule: reachable.induct) (auto intro: good_init good_step)

lemma good_later: "later admitted s s' \<Longrightarrow> good s \<Longrightarrow> good s'"
  by (induction rule: later.induct) (auto intro: good_step)

end

section \<open>The invariant of the database\<close>

lemma inv_tx: "inv (sys_db s) \<Longrightarrow> (\<And>d. r = Inr d \<Longrightarrow> inv d) \<Longrightarrow> inv (sys_db (tx r s))"
  by (cases r) simp_all

lemma inv_create_tenant:
  assumes "inv d" "create_tenant i inp d = Inr (t, d')"
  shows "inv d'"
proof -
  have "distinct (map ten_id (tenants d @ [t]))"
    using create_tenant_Inr(2,3) [OF assms(2)] keyedD(4) [OF invD(1) [OF assms(1)]] by auto
  then show ?thesis using inv_tenants [OF assms(1)] create_tenant_Inr(1) [OF assms(2)] by simp
qed

lemma inv_update_tenant:
  assumes "inv d" "update_tenant i inp d = Inr (t, d')"
  shows "inv d'"
  using assms(2)
proof (rule update_tenant_Inr)
  assume d': "d' = d\<lparr>tenants := rows_update (\<lambda>r. ten_id r = i) (\<lambda>_. t) (tenants d)\<rparr>" "ten_id t = i"
  have "map ten_id (rows_update (\<lambda>r. ten_id r = i) (\<lambda>_. t) (tenants d)) = map ten_id (tenants d)"
    by (rule map_rows_update) (simp add: d'(2))
  then have "distinct (map ten_id (rows_update (\<lambda>r. ten_id r = i) (\<lambda>_. t) (tenants d)))"
    using keyedD(4) [OF invD(1) [OF assms(1)]] by simp
  then show "inv d'" using inv_tenants [OF assms(1)] d'(1) by simp
qed

lemma inv_init: "inv empty_db"
  by (simp add: inv_def empty_db_def keyed_def keys_unique_def slots_ok_def counts_le_def
      locks_ok_def owners_ok_def attempts_ok_def bounds_ok_def dlq_ok_def stateful_def)

text \<open>Every event keeps the database's invariant, with no condition on the event.\<close>

lemma inv_event:
  assumes "inv (sys_db s)" "do_event e s = Some s'"
  shows "inv (sys_db s')"
proof (cases e)
  case (Publish now delay str_exc i)
  obtain r d q where pub: "publish_event now delay str_exc i (sys_db s, sys_broker s) = (r, (d, q))"
    by (metis prod.exhaust)
  then have "sys_db s' = d" using assms(2) Publish by auto
  with inv_publish [OF assms(1) pub] show ?thesis by simp
next
  case (Publish_Crash i)
  with assms show ?thesis by (auto split: sum.splits if_splits)
next
  case (Claim now host i jid)
  show ?thesis
  proof (cases "claim_job now host i jid (sys_db s)")
    case (Inl e)
    with Claim assms show ?thesis by (auto split: if_splits)
  next
    case (Inr rd)
    then obtain r d where rd: "claim_job now host i jid (sys_db s) = Inr (r, d)" by (cases rd) auto
    then have "sys_db s' = d" using Claim assms(2) by (auto split: if_splits option.splits)
    with inv_claim [OF assms(1) rd] show ?thesis by simp
  qed
next
  case (Complete now i v)
  then show ?thesis using assms inv_complete [OF assms(1)] by (auto split: if_splits sum.splits)
next
  case (Fail now i tb lib aid exc ft)
  then have "sys_db s' = sys_db (tx (fail_job now i tb lib aid exc ft (sys_db s)) s)"
    using assms(2) by (auto split: if_splits)
  then show ?thesis using inv_tx [OF assms(1) inv_fail [OF assms(1)]] by simp
next
  case (Reorder d)
  then show ?thesis using assms inv_reordered by (auto split: if_splits)
qed (use assms(2) in \<open>auto simp: db_of_Inr intro!: inv_tx [OF assms(1)]
    dest: inv_create_tenant [OF assms(1)] inv_update_tenant [OF assms(1)] inv_submit [OF assms(1)]
      inv_refresh [OF assms(1)] inv_dispatch [OF assms(1)] inv_promote [OF assms(1)]
      inv_reconcile_attempt [OF assms(1)] inv_recover_queued [OF assms(1)] inv_cancel [OF assms(1)]
      inv_replay [OF assms(1)]
    dest: inv_cache_step [OF assms(1) cache_step_create]
    simp: inv_cache_step [OF assms(1) cache_step_save] assms(1) inv_heartbeat_attempt inv_heartbeat_reservation\<close>)

interpretation weak: run_invariant any_event "\<lambda>s. inv (sys_db s)"
  by unfold_locales (auto simp: init_sys_def inv_init intro: inv_event)

end
