(* ===== verification/Timely.thy ===== *)
theory Timely
  imports System
begin

text \<open>
  What holds while the reaper is timely, that is while it abandons only attempts that no worker
  executes any more: the tenants' counters are exact, every running attempt is the latest of a
  job that is being executed, every such job has one, and every worker's attempt is running. From
  these follow the concurrency limit and the life cycle of a job.
\<close>

section \<open>The predicates\<close>

definition running :: "JobStatus \<Rightarrow> bool" where
  "running s \<longleftrightarrow> s \<in> {EXECUTING, CANCEL_REQUESTED}"

lemma running_simps [simp]:
  "running EXECUTING" "running CANCEL_REQUESTED" "\<not> running WAITING" "\<not> running QUEUED"
  "\<not> running RETRY_WAIT" "\<not> running SUCCEEDED" "\<not> running FAILED_FINAL" "\<not> running CANCELLED"
  by (simp_all add: running_def)

lemma running_occupying: "running s \<Longrightarrow> occupying s"
  by (auto simp: running_def)

definition exact :: "JobExecutionReservation list \<Rightarrow> TenantSchedulerState list \<Rightarrow> bool" where
  "exact vs ss \<longleftrightarrow> (\<forall>s \<in> set ss. active_reservations s = tenant_reservations (ss_tenant s) vs)"

definition current :: "Job list \<Rightarrow> JobAttempt list \<Rightarrow> bool" where
  "current js as \<longleftrightarrow> (\<forall>a \<in> set as. att_status a = RUNNING \<longrightarrow>
     (\<exists>j \<in> set js. job_id j = att_job a \<and> running (job_status j)
        \<and> attempt_number a = attempt_count j))"

definition covered :: "Job list \<Rightarrow> JobAttempt list \<Rightarrow> bool" where
  "covered js as \<longleftrightarrow> (\<forall>j \<in> set js. running (job_status j) \<longrightarrow>
     (\<exists>a \<in> set as. att_job a = job_id j \<and> att_status a = RUNNING))"

definition owned :: "JobExecutionReservation list \<Rightarrow> Tenant list \<Rightarrow> bool" where
  "owned vs ts \<longleftrightarrow> (\<forall>v \<in> set vs. \<exists>t \<in> set ts. ten_id t = res_tenant v)"

definition strong :: "db \<Rightarrow> bool" where
  "strong d \<longleftrightarrow> inv d \<and> exact (reservations d) (scheduler_states d)
     \<and> current (jobs d) (attempts d) \<and> covered (jobs d) (attempts d)
     \<and> owned (reservations d) (tenants d)"

lemma strongD:
  assumes "strong d"
  shows "inv d" "exact (reservations d) (scheduler_states d)" "current (jobs d) (attempts d)"
    "covered (jobs d) (attempts d)" "owned (reservations d) (tenants d)"
  using assms by (simp_all add: strong_def)

definition alive :: "JobAttempt list \<Rightarrow> uuid \<Rightarrow> bool" where
  "alive as i \<longleftrightarrow> (\<exists>a \<in> set as. att_id a = i \<and> att_status a = RUNNING)"

section \<open>One table at a time\<close>

lemma current_upd:
  assumes "current js as" "\<And>j. job_id (f j) = job_id j"
    and "\<And>j. j \<in> set js \<Longrightarrow> P j \<Longrightarrow>
      running (job_status (f j)) = running (job_status j) \<and> attempt_count (f j) = attempt_count j"
  shows "current (rows_update P f js) as"
proof -
  have "\<exists>j \<in> set (rows_update P f js). job_id j = i \<and> running (job_status j) \<and> n = attempt_count j"
    if ex: "\<exists>j \<in> set js. job_id j = i \<and> running (job_status j) \<and> n = attempt_count j" for i n
  proof -
    from ex obtain j where "j \<in> set js" "job_id j = i" "running (job_status j)" "n = attempt_count j"
      by blast
    then show ?thesis using assms(2,3) unfolding bex_rows_update
      by (intro bexI [of _ j]) auto
  qed
  then show ?thesis using assms(1) unfolding current_def by blast
qed

lemma covered_upd:
  assumes "covered js as" "\<And>j. job_id (f j) = job_id j"
    and "\<And>j. j \<in> set js \<Longrightarrow> P j \<Longrightarrow> running (job_status (f j)) = running (job_status j)"
  shows "covered (rows_update P f js) as"
  using assms by (simp add: covered_def ball_rows_update)

lemma exact_release:
  assumes "exact vs ss" "distinct (map res_job vs)" "\<exists>v \<in> set vs. res_job v = k"
    and "\<And>v. v \<in> set vs \<Longrightarrow> res_job v = k \<Longrightarrow> res_tenant v = t"
  shows "exact (rows_delete (\<lambda>v. res_job v = k) vs) (decremented t ss)"
proof -
  have "active_reservations s - (if ss_tenant s = t then 1 else 0)
      = tenant_reservations (ss_tenant s) (rows_delete (\<lambda>v. res_job v = k) vs)"
    if "s \<in> set ss" for s
    using tenant_reservations_delete [OF assms(2,4), where u = "ss_tenant s"] assms(1,3) that
    by (fastforce simp: exact_def split: if_splits)
  then show ?thesis by (fastforce simp: exact_def ball_rows_update)
qed

lemma owned_delete: "owned vs ts \<Longrightarrow> owned (rows_delete P vs) ts"
  by (simp add: owned_def set_rows_delete)

lemma slot_of:
  assumes "inv d" "job \<in> set (jobs d)" "occupying (job_status job)"
  obtains v where "v \<in> set (reservations d)" "res_job v = job_id job" "res_tenant v = job_tenant job"
proof -
  note s = invD(3) [OF assms(1)]
  obtain v where v: "v \<in> set (reservations d)" "res_job v = job_id job"
    using s assms(2,3) unfolding slots_ok_def by blast
  then obtain j where j: "j \<in> set (jobs d)" "job_id j = res_job v" "job_tenant j = res_tenant v"
    using s unfolding slots_ok_def by blast
  then have "j = job" using only_row [OF assms(1,2)] v(2) by simp
  then show thesis using that v j by simp
qed

lemma slot_tenant:
  assumes "inv d" "job \<in> set (jobs d)" "v \<in> set (reservations d)" "res_job v = job_id job"
  shows "res_tenant v = job_tenant job"
proof -
  obtain j where j: "j \<in> set (jobs d)" "job_id j = res_job v" "job_tenant j = res_tenant v"
    using invD(3) [OF assms(1)] assms(3) unfolding slots_ok_def by blast
  then have "j = job" using only_row [OF assms(1,2)] assms(4) by simp
  then show ?thesis using j by simp
qed

lemma released_exact:
  assumes "strong d" "job \<in> set (jobs d)" "occupying (job_status job)"
  shows "exact (reservations (released job d)) (scheduler_states (released job d))"
    "owned (reservations (released job d)) (tenants (released job d))"
proof -
  note s = strongD [OF assms(1)]
  have "\<exists>v \<in> set (reservations d). res_job v = job_id job"
    using slot_of [OF s(1) assms(2,3)] by blast
  then show "exact (reservations (released job d)) (scheduler_states (released job d))"
    using exact_release [OF s(2) keyedD(8) [OF invD(1) [OF s(1)]] _ slot_tenant [OF s(1) assms(2)]]
    by simp
  show "owned (reservations (released job d)) (tenants (released job d))"
    using owned_delete [OF s(5)] by simp
qed

text \<open>The end of an attempt: it stops running, and so does its job.\<close>

lemma running_attempt:
  assumes "strong d" "a \<in> set (attempts d)" "att_status a = RUNNING"
    and "job \<in> set (jobs d)" "job_id job = att_job a"
  shows "running (job_status job)" "attempt_number a = attempt_count job"
proof -
  obtain j where j: "j \<in> set (jobs d)" "job_id j = att_job a" "running (job_status j)"
    "attempt_number a = attempt_count j"
    using strongD(3) [OF assms(1)] assms(2,3) unfolding current_def by blast
  have "j = job" by (rule only_row [OF strongD(1) [OF assms(1)] assms(4) j(1)]) (simp add: j(2) assms(5))
  then show "running (job_status job)" "attempt_number a = attempt_count job" using j by simp_all
qed

lemma one_running:
  assumes "strong d" "a \<in> set (attempts d)" "att_status a = RUNNING"
    and "b \<in> set (attempts d)" "att_status b = RUNNING" "att_job b = att_job a"
  shows "b = a"
proof -
  note s = strongD [OF assms(1)]
  obtain job where job: "job \<in> set (jobs d)" "job_id job = att_job a"
    using s(3) assms(2,3) unfolding current_def by blast
  have "attempt_number b = attempt_number a"
    using running_attempt(2) [OF assms(1-3) job] running_attempt(2) [OF assms(1,4,5) job(1)] job(2) assms(6)
    by simp
  moreover have "distinct (map (\<lambda>a. (att_job a, attempt_number a)) (attempts d))"
    using invD(7) [OF s(1)] by (simp add: attempts_ok_def)
  ultimately show ?thesis using same_key [OF _ assms(4,2), of "\<lambda>a. (att_job a, attempt_number a)"] assms(6)
    by simp
qed

lemma finished_tracks:
  assumes "strong d" and a: "a \<in> set (attempts d)" "att_status a = RUNNING"
    and job: "job \<in> set (jobs d)" "job_id job = att_job a"
    and f: "\<And>j. job_id (f j) = job_id j" "\<not> running (job_status (f job))"
    and g: "\<And>b. att_job (g b) = att_job b" "\<And>b. att_status (g b) \<noteq> RUNNING"
  shows "current (upd (job_id job) f (jobs d)) (rows_update (\<lambda>b. att_id b = att_id a) g (attempts d))"
    "covered (upd (job_id job) f (jobs d)) (rows_update (\<lambda>b. att_id b = att_id a) g (attempts d))"
proof -
  let ?js = "upd (job_id job) f (jobs d)"
  let ?as = "rows_update (\<lambda>b. att_id b = att_id a) g (attempts d)"
  note s = strongD [OF assms(1)]
  have other: "att_job b \<noteq> job_id job"
    if b: "b \<in> set (attempts d)" "att_id b \<noteq> att_id a" "att_status b = RUNNING" for b
    using one_running [OF assms(1) a b(1,3)] b(2) job(2) by auto
  show "current ?js ?as"
    unfolding current_def ball_rows_update
  proof
    fix b
    assume b: "b \<in> set (attempts d)"
    have "\<exists>j \<in> set ?js. job_id j = att_job b \<and> running (job_status j) \<and> attempt_number b = attempt_count j"
      if r: "att_id b \<noteq> att_id a" "att_status b = RUNNING"
    proof -
      obtain j where "j \<in> set (jobs d)" "job_id j = att_job b" "running (job_status j)"
        "attempt_number b = attempt_count j"
        using s(3) b r(2) unfolding current_def by blast
      then show ?thesis using other [OF b r] by (intro bexI [of _ j] mem_upd_other) simp_all
    qed
    then show "if att_id b = att_id a then att_status (g b) = RUNNING \<longrightarrow>
        (\<exists>j \<in> set ?js. job_id j = att_job (g b) \<and> running (job_status j) \<and> attempt_number (g b) = attempt_count j)
      else att_status b = RUNNING \<longrightarrow>
        (\<exists>j \<in> set ?js. job_id j = att_job b \<and> running (job_status j) \<and> attempt_number b = attempt_count j)"
      using g(2) [of b] by simp
  qed
  show "covered ?js ?as"
    unfolding covered_def ball_rows_update
  proof
    fix j
    assume j: "j \<in> set (jobs d)"
    have "\<exists>b \<in> set ?as. att_job b = job_id j \<and> att_status b = RUNNING"
      if r: "job_id j \<noteq> job_id job" "running (job_status j)"
    proof -
      obtain b where b: "b \<in> set (attempts d)" "att_job b = job_id j" "att_status b = RUNNING"
        using s(4) j r(2) unfolding covered_def by blast
      then have "b \<noteq> a" using r(1) job(2) by auto
      then have "att_id b \<noteq> att_id a"
        using same_key [OF keyedD(2) [OF invD(1) [OF s(1)]] b(1) a(1)] by blast
      then show ?thesis using b by (intro bexI [of _ b] mem_upd_other) simp_all
    qed
    moreover have "\<not> running (job_status (f j))" if "job_id j = job_id job"
      using only_row [OF s(1) job(1) j that] f(2) by simp
    ultimately show "if job_id j = job_id job
      then running (job_status (f j)) \<longrightarrow> (\<exists>b \<in> set ?as. att_job b = job_id (f j) \<and> att_status b = RUNNING)
      else running (job_status j) \<longrightarrow> (\<exists>b \<in> set ?as. att_job b = job_id j \<and> att_status b = RUNNING)"
      by simp
  qed
qed

section \<open>The operations\<close>

text \<open>
  An operation that leaves the attempts alone and changes jobs only within or outside the running
  statuses keeps \<open>current\<close> and \<open>covered\<close>; these are the row updates of the services.
\<close>

lemma strong_cache_step:
  assumes "strong d" "cache_step t d d'"
  shows "strong d'"
proof -
  note s = strongD [OF assms(1)]
  have "exact (reservations d) (scheduler_states d')"
    using assms(2)
  proof (cases rule: cache_step_cases)
    case (existing f)
    then show ?thesis using s(2) by (simp add: exact_def save_scheduler_state_def ball_rows_update)
  next
    case (new r)
    then have "res_tenant v \<noteq> t" if "v \<in> set (reservations d)" for v
      using invD(3) [OF s(1)] that unfolding slots_ok_def by metis
    then have "tenant_reservations t (reservations d) = 0"
      by (simp add: tenant_reservations_def rows_count_def filter_empty_conv)
    with new s(2) show ?thesis by (simp add: exact_def)
  qed
  then show ?thesis using s cache_step_frame [OF assms(2)] inv_cache_step [OF s(1) assms(2)]
    by (simp add: strong_def)
qed

lemma strong_refresh: "strong d \<Longrightarrow> refresh_scheduler_state now t d = Inr d' \<Longrightarrow> strong d'"
  by (rule strong_cache_step [OF _ cache_step_refresh])

lemma strong_insert_job:
  assumes "strong d" "insert_job j d = Inr d'" "job_status j = WAITING" "attempt_count j = 0"
  shows "strong d'"
proof -
  note s = strongD [OF assms(1)]
  have "d' = d\<lparr>jobs := jobs d @ [j]\<rparr>" using assms(2) by (auto simp: insert_job_def split: if_splits)
  moreover have "current (jobs d @ [j]) (attempts d)" using s(3) by (auto simp: current_def)
  moreover have "covered (jobs d @ [j]) (attempts d)" using s(4) assms(3) by (auto simp: covered_def)
  ultimately show ?thesis using s inv_insert_job [OF s(1) assms(2-4)] by (simp add: strong_def)
qed

lemma strong_submit:
  assumes "strong d" "submit_job now i g sub d = Inr ((j, created), d')"
  shows "strong d'"
  using assms(2)
proof (cases rule: submit_job_cases)
  case new
  then show ?thesis by (intro strong_insert_job [OF assms(1) new(3)]) simp_all
qed (use assms(1) in simp)

lemma strong_replay:
  assumes "strong d" "replay_dead_letter now rnow i g dlid d = Inr (j, d')"
  shows "strong d'"
  using assms(2)
proof (rule replay_dead_letter_Inr)
  fix x source
  let ?f = "\<lambda>y. y\<lparr>dl_status := REPLAYED, replayed_job := Some i, replayed_at := Some now\<rparr>"
  assume j: "j = cloned_job now i g source" "insert_job j d = Inr (d\<lparr>jobs := jobs d @ [j]\<rparr>)"
    "jobs d' = jobs d @ [j]"
    "dead_letters d' = rows_update (\<lambda>y. dl_id y = dlid) ?f (dead_letters d)"
    and ref: "refresh_scheduler_state rnow (job_tenant j)
       (d\<lparr>jobs := jobs d', dead_letters := dead_letters d'\<rparr>) = Inr d'"
  have s: "strong (d\<lparr>jobs := jobs d @ [j]\<rparr>)"
    by (rule strong_insert_job [OF assms(1) j(2)]) (simp_all add: j(1))
  from inv_dead_letter_upd [OF strongD(1) [OF s], of ?f] j(3,4) strongD(2-) [OF s]
  have "strong (d\<lparr>jobs := jobs d', dead_letters := dead_letters d'\<rparr>)" by (simp add: strong_def)
  then show "strong d'" using ref by (rule strong_refresh)
qed

lemma strong_claim:
  assumes "strong d" "claim_job now host i jid d = Inr (Some (a, j), d')"
  shows "strong d'" "alive (attempts d') (att_id a)" "\<And>w. alive (attempts d) w \<Longrightarrow> alive (attempts d') w"
proof -
  note s = strongD [OF assms(1)]
  obtain job where job: "job \<in> set (jobs d)" "job_id job = jid" "job_status job = QUEUED"
    and a: "att_job a = jid" "att_status a = RUNNING" "attempt_number a = Suc (attempt_count job)"
    and d': "d' = d\<lparr>jobs := upd jid (claimed_row now) (jobs d), attempts := attempts d @ [a]\<rparr>"
    by (rule claim_job_Some [OF invD(1) [OF s(1)] assms(2)])
  show "alive (attempts d') (att_id a)" using a by (simp add: alive_def d')
  show "alive (attempts d') w" if "alive (attempts d) w" for w using that by (auto simp: alive_def d')
  let ?js = "upd jid (claimed_row now) (jobs d)"
  have idle: "att_job b \<noteq> jid" if "b \<in> set (attempts d)" "att_status b = RUNNING" for b
    using running_attempt(1) [OF assms(1) that job(1)] job(2,3) by auto
  have "current ?js (attempts d @ [a])"
    unfolding current_def
  proof (intro ballI impI)
    fix b
    assume b: "b \<in> set (attempts d @ [a])" "att_status b = RUNNING"
    show "\<exists>j \<in> set ?js. job_id j = att_job b \<and> running (job_status j) \<and> attempt_number b = attempt_count j"
    proof (cases "b \<in> set (attempts d)")
      case True
      then obtain j where "j \<in> set (jobs d)" "job_id j = att_job b" "running (job_status j)"
        "attempt_number b = attempt_count j"
        using s(3) b(2) unfolding current_def by blast
      then show ?thesis using idle [OF True b(2)] by (intro bexI [of _ j] mem_upd_other) simp_all
    next
      case False
      then have "b = a" using b(1) by simp
      then show ?thesis unfolding bex_rows_update using job a by (intro bexI [of _ job]) simp_all
    qed
  qed
  moreover have "covered ?js (attempts d @ [a])"
    using s(4) a(1,2) unfolding covered_def ball_rows_update by auto
  ultimately show "strong d'" using s inv_claim [OF s(1) assms(2)] by (simp add: strong_def d')
qed

lemma strong_dispatch:
  assumes "strong d" "dispatch_next env t d = Inr (r, d')"
  shows "strong d'" "attempts d' = attempts d"
proof -
  note s = strongD [OF assms(1)]
  have "strong d' \<and> attempts d' = attempts d"
  proof (cases r)
    case None
    then show ?thesis using assms dispatch_next_None by blast
  next
    case (Some j)
    then have "dispatch_next env t d = Inr (Some j, d')" using assms(2) by simp
    then show ?thesis
    proof (rule dispatch_next_Some [OF invD(1) [OF s(1)]])
      fix state tenant before job rest d1
      assume st: "state \<in> set (scheduler_states d)" "ss_tenant state = t"
        and tn: "tenant \<in> set (tenants d)" "ten_id tenant = t"
        and cand: "dispatch_candidates env t d = before @ job # rest"
        and lock: "case resource_of env job of Inl _ \<Rightarrow> False | Inr None \<Rightarrow> d1 = d
          | Inr (Some k) \<Rightarrow> acquired job k d d1"
        and res: "reserve_job env job state d1 = Inr (j, d')"
      have d1: "jobs d1 = jobs d" "tenants d1 = tenants d" "attempts d1 = attempts d"
        "reservations d1 = reservations d" "scheduler_states d1 = scheduler_states d"
        using lock by (auto split: sum.splits option.splits dest: acquired_simps)
      have d': "d' = reserved env job state d1" by (rule reserve_job_Inr(2) [OF res])
      have "job \<in> set (dispatch_candidates env t d)" using cand by simp
      then have job: "job \<in> set (jobs d)" "job_status job = WAITING"
        using candidates_ready by (auto simp: ready_def)
      let ?js = "upd (job_id job) (\<lambda>j. j\<lparr>job_status := QUEUED, queued_at := Some (de_now env)\<rparr>) (jobs d)"
      have idle: "\<not> running (job_status k)" if "k \<in> set (jobs d)" "job_id k = job_id job" for k
        using only_row [OF s(1) job(1) that] job(2) by simp
      have "current ?js (attempts d)" by (rule current_upd [OF s(3)]) (simp_all add: idle)
      moreover have "covered ?js (attempts d)" by (rule covered_upd [OF s(4)]) (simp_all add: idle)
      moreover have "exact (reservations d') (scheduler_states d')"
        using s(2) st by (simp add: d' d1 exact_def ball_rows_update tenant_reservations_def
            rows_count_append new_reservation_def)
      moreover have "owned (reservations d') (tenants d')"
        using s(5) st(2) tn by (auto simp: d' d1 owned_def new_reservation_def)
      ultimately show "strong d' \<and> attempts d' = attempts d"
        using inv_dispatch [OF s(1) assms(2)] by (simp add: strong_def d' d1)
    qed
  qed
  then show "strong d'" "attempts d' = attempts d" by simp_all
qed

text \<open>The end of a running attempt, by its worker or by the reaper.\<close>

lemma strong_finish:
  assumes "strong d" and a: "a \<in> set (attempts d)" "att_status a = RUNNING"
    and job: "job \<in> set (jobs d)" "job_id job = att_job a"
    and f: "\<And>j. job_id (f j) = job_id j" "\<not> running (job_status (f job))"
    and g: "\<And>b. att_job (g b) = att_job b" "\<And>b. att_id (g b) = att_id b"
      "\<And>b. att_status (g b) \<noteq> RUNNING"
    and d2: "jobs d2 = jobs d" "reservations d2 = reservations d" "tenants d2 = tenants d"
      "attempts d2 = rows_update (\<lambda>b. att_id b = att_id a) g (attempts d)"
      "scheduler_states d2 = scheduler_states d"
    and inv': "inv d'" and d': "d' = released job (save_job (job_id job) f d2)"
  shows "strong d'" "alive (attempts d') w \<longleftrightarrow> alive (attempts d) w \<and> w \<noteq> att_id a"
proof -
  note s = strongD [OF assms(1)]
  have occ: "occupying (job_status job)"
    using running_attempt(1) [OF assms(1) a job] by (rule running_occupying)
  show "strong d'"
    using inv' d' d2 released_exact [OF assms(1) job(1) occ]
      finished_tracks [where f = f and g = g, OF assms(1) a job f g(1,3)]
    by (simp add: strong_def)
  have "attempts d' = rows_update (\<lambda>b. att_id b = att_id a) g (attempts d)"
    using d' d2(4) by simp
  then show "alive (attempts d') w \<longleftrightarrow> alive (attempts d) w \<and> w \<noteq> att_id a"
    using g by (auto simp: alive_def bex_rows_update split: if_splits)
qed

lemma running_row:
  assumes "keyed d" "alive (attempts d) i" "a \<in> set (attempts d)" "att_id a = i"
  shows "att_status a = RUNNING"
proof -
  obtain b where "b \<in> set (attempts d)" "att_id b = i" "att_status b = RUNNING"
    using assms(2) by (auto simp: alive_def)
  then show ?thesis using same_key [OF keyedD(2) [OF assms(1)] assms(3)] assms(4) by metis
qed

lemma strong_complete:
  assumes "strong d" "alive (attempts d) i" "complete_job now i v d = Inr d'"
  shows "strong d'" "alive (attempts d') w \<longleftrightarrow> alive (attempts d) w \<and> w \<noteq> i"
proof -
  let ?g = "\<lambda>a::JobAttempt. a\<lparr>att_status := ATT_SUCCEEDED, finished_at := Some now\<rparr>"
  note k = invD(1) [OF strongD(1) [OF assms(1)]]
  obtain a job where a: "a \<in> set (attempts d)" "att_id a = i"
    and job: "job \<in> set (jobs d)" "job_id job = att_job a"
    and d': "d' = released job (save_job (att_job a) (completed_row now v) (save_attempt i ?g d))"
    by (rule complete_job_Inr [OF k assms(3)])
  note fin = strong_finish [OF assms(1) a(1) running_row [OF k assms(2) a] job, of "completed_row now v" ?g
      "save_attempt i ?g d" d']
  show "strong d'"
    by (rule fin(1))
      (use inv_complete [OF strongD(1) [OF assms(1)] assms(3)] in \<open>simp_all add: d' a(2) job(2)\<close>)
  show "alive (attempts d') w \<longleftrightarrow> alive (attempts d) w \<and> w \<noteq> i"
    using fin(2) [of w] inv_complete [OF strongD(1) [OF assms(1)] assms(3)] d' a(2) job(2) by simp
qed

lemma strong_fail_row:
  assumes "strong d" and a: "a \<in> set (attempts d)" "att_status a = RUNNING"
    and job: "job \<in> set (jobs d)" "job_id job = att_job a"
    and g: "\<And>b. att_job (g b) = att_job b" "\<And>b. att_id (g b) = att_id b"
      "\<And>b. att_status (g b) \<noteq> RUNNING" "\<And>b. attempt_number (g b) = attempt_number b"
    and fail: "fail_row_tx now i job ft m (save_attempt (att_id a) g d) = Inr d'"
  shows "strong d'" "alive (attempts d') w \<longleftrightarrow> alive (attempts d) w \<and> w \<noteq> att_id a"
proof -
  note s = strongD [OF assms(1)]
  let ?d1 = "save_attempt (att_id a) g d"
  have inv1: "inv ?d1" by (rule inv_save_attempt [OF s(1)]) (simp add: g)
  have inv': "inv d'"
    by (rule inv_fail_row [OF inv1 _ attempt_count_pos(1) [OF s(1) a(1) job] fail])
      (simp add: job(1))
  have "job \<in> set (jobs ?d1)" using job(1) by simp
  from fail_row_tx_Inr [OF invD(1) [OF inv1] this fail] obtain d2 where
    d': "d' = released job (save_job (job_id job) (failed_row now ft m) d2)"
    and "d2 = ?d1 \<or> (\<exists>x. d2 = ?d1\<lparr>dead_letters := dead_letters ?d1 @ [x]\<rparr>)"
    by (auto simp: Let_def)
  then have d2: "jobs d2 = jobs d" "reservations d2 = reservations d" "tenants d2 = tenants d"
      "attempts d2 = rows_update (\<lambda>b. att_id b = att_id a) g (attempts d)"
      "scheduler_states d2 = scheduler_states d" by auto
  note fin = strong_finish [OF assms(1) a job _ _ g(1-3) d2 inv' d']
  show "strong d'" by (rule fin(1)) simp_all
  show "alive (attempts d') w \<longleftrightarrow> alive (attempts d) w \<and> w \<noteq> att_id a"
    by (rule fin(2)) simp_all
qed

lemma strong_fail:
  assumes "strong d" "alive (attempts d) aid" "fail_job now i tb lib aid exc ft d = Inr d'"
  shows "strong d'" "alive (attempts d') w \<longleftrightarrow> alive (attempts d) w \<and> w \<noteq> aid"
proof -
  note k = invD(1) [OF strongD(1) [OF assms(1)]]
  let ?g = "\<lambda>a. a\<lparr>att_status := ATT_FAILED, failure_type := Some ft,
      att_error_message := Some (exc_str lib exc), att_traceback := Some tb,
      finished_at := Some now\<rparr>"
  from assms(3) k obtain a job where a: "a \<in> set (attempts d)" "att_id a = aid"
    and job: "job \<in> set (jobs d)" "job_id job = att_job a"
    and f: "fail_row_tx now i job ft (exc_str lib exc) (save_attempt (att_id a) (\<lambda>_. ?g a) d) = Inr d'"
    by (auto simp: fail_job_eq result_bind_eq_Inr)
  have save: "save_attempt (att_id a) (\<lambda>_. ?g a) d = save_attempt (att_id a) ?g d"
    by (rule save_attempt_cong [OF keyedD(2) [OF k] a(1)]) simp
  note fin = strong_fail_row [OF assms(1) a(1) running_row [OF k assms(2) a] job _ _ _ _ f [unfolded save]]
  show "strong d'" by (rule fin(1)) simp_all
  show "alive (attempts d') w \<longleftrightarrow> alive (attempts d) w \<and> w \<noteq> aid"
    unfolding a(2) [symmetric] by (rule fin(2)) simp_all
qed

lemma strong_reap:
  assumes "strong d" "reconcile_attempt now now' i aid d = Inr d'"
  shows "strong d'" "w \<noteq> aid \<Longrightarrow> alive (attempts d) w \<Longrightarrow> alive (attempts d') w"
proof -
  note k = invD(1) [OF strongD(1) [OF assms(1)]]
  have "strong d' \<and> (w \<noteq> aid \<longrightarrow> alive (attempts d) w \<longrightarrow> alive (attempts d') w)"
    using k assms(2)
  proof (cases rule: reconcile_attempt_cases)
    case (abandoned a job)
    note fin = strong_fail_row [OF assms(1) abandoned(1,3,4,5) _ _ _ _ abandoned(6) [folded abandoned(2)]]
    have "strong d'" by (rule fin(1)) simp_all
    moreover have "alive (attempts d') w \<longleftrightarrow> alive (attempts d) w \<and> w \<noteq> att_id a"
      by (rule fin(2)) simp_all
    ultimately show ?thesis using abandoned(2) by simp
  qed (use assms(1) in simp)
  then show "strong d'" "w \<noteq> aid \<Longrightarrow> alive (attempts d) w \<Longrightarrow> alive (attempts d') w" by simp_all
qed

text \<open>A QUEUED job that leaves its slot.\<close>

lemma strong_leave:
  assumes "strong d" "job \<in> set (jobs d)" "job_status job = QUEUED"
    and "\<And>j. job_id (f j) = job_id j" "\<not> running (job_status (f job))"
    and "attempt_count (f job) = attempt_count job"
    and "inv (released job (save_job (job_id job) f d))"
  shows "strong (released job (save_job (job_id job) f d))"
proof -
  note s = strongD [OF assms(1)]
  have row: "running (job_status (f j)) = running (job_status j) \<and> attempt_count (f j) = attempt_count j"
    if "j \<in> set (jobs d)" "job_id j = job_id job" for j
    using only_row [OF s(1) assms(2) that] assms(3,5,6) by simp
  have "current (upd (job_id job) f (jobs d)) (attempts d)" by (rule current_upd [OF s(3) assms(4) row])
  moreover have "covered (upd (job_id job) f (jobs d)) (attempts d)"
    by (rule covered_upd [OF s(4) assms(4)]) (use row in blast)
  moreover have "occupying (job_status job)" using assms(3) by simp
  ultimately show ?thesis
    using released_exact [OF assms(1,2)] assms(7) by (simp add: strong_def)
qed

lemma strong_recover_queued:
  assumes "strong d" "recover_queued now rnow jid d = Inr d'"
  shows "strong d'" "attempts d' = attempts d"
proof -
  note k = invD(1) [OF strongD(1) [OF assms(1)]]
  have "strong d' \<and> attempts d' = attempts d"
    using k assms(2)
  proof (cases rule: recover_queued_cases)
    case (recovered job)
    let ?f = "\<lambda>j. j\<lparr>job_status := WAITING, ready_since := now\<rparr>"
    have "row_bounds WAITING (attempt_count job)"
      using inv_bounds [OF strongD(1) [OF assms(1)] recovered(1)] recovered(3) by (simp add: row_bounds_def)
    then have "inv (released job (save_job (job_id job) ?f d))"
      by (intro inv_leave [OF strongD(1) [OF assms(1)] recovered(1)]) (simp_all add: recovered(3))
    then have "strong (released job (save_job (job_id job) ?f d))"
      by (intro strong_leave [OF assms(1) recovered(1,3)]) simp_all
    then have "strong d'" using strong_refresh recovered(2,5) by simp
    then show ?thesis using refresh_frame(3) [OF recovered(5)] by simp
  qed (use assms(1) in simp)
  then show "strong d'" "attempts d' = attempts d" by simp_all
qed

lemma strong_cancel:
  assumes "strong d" "cancel_job now jid d = Inr (j, d')"
  shows "strong d'" "attempts d' = attempts d"
proof -
  note s = strongD [OF assms(1)] and k = invD(1) [OF strongD(1) [OF assms(1)]]
  obtain job where get: "get_job jid d = Inr job"
    using assms(2) by (auto simp: cancel_job_def result_bind_eq_Inr)
  then have job: "job \<in> set (jobs d)" "job_id job = jid" using k by simp_all
  have "strong d' \<and> attempts d' = attempts d"
  proof (cases "job_status job = QUEUED")
    case True
    then have d': "d' = released job (save_job (job_id job) (cancel_row now) d)"
      using cancel_job_eq [OF keyedD(1,3) [OF k] get, of now] assms(2) job(2) by (simp split: if_splits)
    have "strong d'" unfolding d'
      by (rule strong_leave [OF assms(1) job(1) True])
        (use inv_cancel [OF s(1) assms(2)] in \<open>simp_all add: True d'\<close>)
    then show ?thesis by (simp add: d')
  next
    case False
    then have d': "d' = save_job (job_id job) (cancel_row now) d"
      using cancel_job_eq [OF keyedD(1,3) [OF k] get, of now] assms(2) job(2) by simp
    have row: "running (cancelled_status s) = running s" for s by (cases s) simp_all
    have "current (upd (job_id job) (cancel_row now) (jobs d)) (attempts d)"
      by (rule current_upd [OF s(3)]) (simp_all add: row)
    moreover have "covered (upd (job_id job) (cancel_row now) (jobs d)) (attempts d)"
      by (rule covered_upd [OF s(4)]) (simp_all add: row)
    ultimately show ?thesis using s inv_cancel [OF s(1) assms(2)] by (simp add: strong_def d')
  qed
  then show "strong d'" "attempts d' = attempts d" by simp_all
qed

lemma strong_refresh_all:
  assumes "strong d" "try_each (\<lambda>t. refresh_scheduler_state (refresh_now t) t) ts d = Inr d'"
  shows "strong d'"
  by (rule try_each_invariant [where I = strong, OF _ assms]) (rule strong_refresh)

lemma strong_promote:
  assumes "strong d" "promote_ready_retries now locked refresh_now limit d = Inr (n, d')"
  shows "strong d'" "attempts d' = attempts d"
proof -
  note s = strongD [OF assms(1)]
  let ?js = "due_retries now locked limit d"
  let ?d1 = "fold (promote now) ?js d"
  let ?f = "\<lambda>r. r\<lparr>job_status := WAITING, ready_since := now\<rparr>"
  have all: "try_each (\<lambda>t. refresh_scheduler_state (refresh_now t) t)
      (remdups (map job_tenant ?js)) ?d1 = Inr d'"
    using assms(2) by (auto simp: promote_ready_retries_def Let_def result_bind_eq_Inr)
  have due: "\<not> running (job_status j)" if j: "j \<in> set (jobs d)" "job_id j \<in> job_id ` set ?js" for j
  proof -
    obtain k where k: "k \<in> set ?js" "job_id j = job_id k" using j(2) by auto
    then have "j = k" using only_row [OF s(1) due_retries_mem(1) [OF k(1)] j(1)] by blast
    then show ?thesis using due_retries_mem(2) [OF k(1)] by simp
  qed
  have "inv ?d1" by (rule inv_promote_fold [OF s(1)])
  moreover have "current (jobs ?d1) (attempts d)"
    unfolding jobs_promote_fold by (rule current_upd [OF s(3)]) (simp_all add: due)
  moreover have "covered (jobs ?d1) (attempts d)"
    unfolding jobs_promote_fold by (rule covered_upd [OF s(4)]) (simp_all add: due)
  ultimately have "strong ?d1" using s by (simp add: strong_def)
  then show "strong d'" using all by (rule strong_refresh_all)
  show "attempts d' = attempts d" using refresh_all_frame [OF all] by simp
qed

text \<open>What touches neither jobs nor reservations nor the keys and statuses of attempts.\<close>

lemma strong_heartbeat_attempt:
  assumes "strong d"
  shows "strong (heartbeat_update_attempt now i d)"
    "alive (attempts (heartbeat_update_attempt now i d)) w = alive (attempts d) w"
proof -
  note s = strongD [OF assms]
  let ?g = "\<lambda>a. a\<lparr>heartbeat_at := Some now,
           lease_expires_at := Some (now + timedelta_seconds LEASE_SECONDS)\<rparr>"
  have at: "attempts (heartbeat_update_attempt now i d)
      = rows_update (\<lambda>a. att_id a = i) ?g (attempts d)"
    by (simp add: heartbeat_update_attempt_def)
  have "current (jobs d) (rows_update (\<lambda>a. att_id a = i) ?g (attempts d))"
    using s(3) by (simp add: current_def ball_rows_update)
  moreover have "covered (jobs d) (rows_update (\<lambda>a. att_id a = i) ?g (attempts d))"
    using s(4) unfolding covered_def by (subst bex_upd_same) simp_all
  ultimately show "strong (heartbeat_update_attempt now i d)"
    using s inv_heartbeat_attempt [OF s(1)]
    by (simp add: strong_def heartbeat_updates_frame at)
  show "alive (attempts (heartbeat_update_attempt now i d)) w = alive (attempts d) w"
    unfolding at alive_def by (rule bex_upd_same) simp
qed

lemma strong_heartbeat_reservation:
  assumes "strong d"
  shows "strong (heartbeat_update_reservation now j d)"
proof -
  note s = strongD [OF assms]
  let ?g = "\<lambda>r. r\<lparr>res_expires_at := now + timedelta_seconds LEASE_SECONDS\<rparr>"
  let ?vs = "rows_update (\<lambda>r. res_job r = j) ?g (reservations d)"
  have "tenant_reservations t ?vs = tenant_reservations t (reservations d)" for t
    unfolding tenant_reservations_def by (rule rows_count_update_same) simp
  then have "exact ?vs (scheduler_states d)" using s(2) by (simp add: exact_def)
  moreover have "owned ?vs (tenants d)" using s(5) by (simp add: owned_def ball_rows_update)
  ultimately show ?thesis using s inv_heartbeat_reservation [OF s(1)]
    by (simp add: strong_def heartbeat_update_reservation_def)
qed

lemma strong_publish:
  assumes "strong d" "publish_event now delay str_exc i (d, q) = (r, (d', q'))"
  shows "strong d'" "attempts d' = attempts d"
proof -
  have d': "d' = d\<lparr>outbox := outbox d'\<rparr>" by (rule publish_event_frame [OF assms(2)])
  have f: "jobs d' = jobs d" "attempts d' = attempts d" "reservations d' = reservations d"
    "scheduler_states d' = scheduler_states d" "tenants d' = tenants d"
    by (subst d', simp)+
  show "attempts d' = attempts d" by (rule f(2))
  show "strong d'" using strongD [OF assms(1)] inv_publish [OF strongD(1) [OF assms(1)] assms(2)]
    by (simp add: strong_def f)
qed

lemma strong_reordered:
  assumes "strong d" "reordered d d'"
  shows "strong d'" "alive (attempts d') w = alive (attempts d) w"
proof -
  note r = reordered_sets [OF assms(2)]
  show "strong d'"
    using strongD [OF assms(1)] inv_reordered [OF strongD(1) [OF assms(1)] assms(2)]
    unfolding strong_def exact_def current_def covered_def owned_def r
      reordered_counts [OF assms(2)] by blast
  show "alive (attempts d') w = alive (attempts d) w" unfolding alive_def r ..
qed

lemma strong_create_tenant:
  assumes "strong d" "create_tenant i inp d = Inr (t, d')"
  shows "strong d'" "attempts d' = attempts d"
  using strongD [OF assms(1)] inv_create_tenant [OF strongD(1) [OF assms(1)] assms(2)]
    create_tenant_Inr(1) [OF assms(2)]
  by (auto simp: strong_def owned_def)

lemma strong_update_tenant:
  assumes "strong d" "update_tenant i inp d = Inr (t, d')"
  shows "strong d'" "attempts d' = attempts d"
proof -
  obtain t0 where d': "d' = d\<lparr>tenants := rows_update (\<lambda>r. ten_id r = i) (\<lambda>_. t) (tenants d)\<rparr>" "ten_id t = i"
    by (rule update_tenant_Inr [OF assms(2)])
  have "\<exists>r \<in> set (tenants d'). ten_id r = k" if ex: "\<exists>r \<in> set (tenants d). ten_id r = k" for k
  proof -
    from ex obtain r where "r \<in> set (tenants d)" "ten_id r = k" by blast
    then show ?thesis
      using d' by (intro bexI [of _ "if ten_id r = i then t else r"]) (auto simp: set_rows_update)
  qed
  then have "owned (reservations d) (tenants d')"
    using strongD(5) [OF assms(1)] by (simp add: owned_def)
  then show "strong d'" using strongD [OF assms(1)] inv_update_tenant [OF strongD(1) [OF assms(1)] assms(2)]
    by (simp add: strong_def d')
  show "attempts d' = attempts d" by (simp add: d')
qed

section \<open>Every admitted event\<close>

definition good :: "sys \<Rightarrow> bool" where
  "good s \<longleftrightarrow> strong (sys_db s) \<and> (\<forall>w \<in> set (sys_workers s). alive (attempts (sys_db s)) w)"

lemma good_tx:
  assumes "good s"
    and "\<And>d. r = Inr d \<Longrightarrow> strong d \<and> attempts d = attempts (sys_db s)"
  shows "good (tx r s)"
  using assms by (cases r) (simp_all add: good_def)

lemma good_tx_db:
  assumes "good s"
    and "\<And>x d. r = Inr (x, d) \<Longrightarrow> strong d \<and> attempts d = attempts (sys_db s)"
  shows "good (tx (db_of r) s)"
  using assms by (cases r) (auto simp: good_def)

lemma good_claim:
  assumes "good s" "do_event (Claim now host i jid) s = Some s'"
  shows "good s'"
proof (cases "claim_job now host i jid (sys_db s)")
  case (Inl e)
  with assms show ?thesis by (simp split: if_splits)
next
  case (Inr rd)
  then obtain r d where rd: "claim_job now host i jid (sys_db s) = Inr (r, d)" by (cases rd) auto
  show ?thesis
  proof (cases r)
    case None
    then have "d = sys_db s" using rd claim_job_None by blast
    then show ?thesis using rd None assms by (auto simp: good_def split: if_splits)
  next
    case (Some aj)
    then obtain a j where aj: "claim_job now host i jid (sys_db s) = Inr (Some (a, j), d)"
      using rd by (cases aj) auto
    then have "s' = s\<lparr>sys_db := d, sys_workers := att_id a # sys_workers s\<rparr>"
      using assms(2) by (simp split: if_splits)
    then show ?thesis using assms(1) strong_claim [OF _ aj] by (simp add: good_def)
  qed
qed

lemma good_event:
  assumes "good s" "timely e s" "do_event e s = Some s'"
  shows "good s'"
proof -
  have st: "strong (sys_db s)" and al: "\<And>w. w \<in> set (sys_workers s) \<Longrightarrow> alive (attempts (sys_db s)) w"
    using assms(1) by (auto simp: good_def)
  show ?thesis
  proof (cases e)
    case (Publish now delay str_exc i)
    obtain r d q where pub: "publish_event now delay str_exc i (sys_db s, sys_broker s) = (r, (d, q))"
      by (metis prod.exhaust)
    then have "s' = s\<lparr>sys_db := d, sys_broker := q\<rparr>" using assms(3) Publish by simp
    with strong_publish [OF st pub] al show ?thesis by (simp add: good_def)
  next
    case (Publish_Crash i)
    with assms show ?thesis by (auto simp: good_def split: sum.splits if_splits)
  next
    case (Claim now host i jid)
    with assms(1,3) good_claim show ?thesis by blast
  next
    case (Complete now i v)
    then have w: "i \<in> set (sys_workers s)" using assms(3) by (simp split: if_splits)
    show ?thesis
    proof (cases "complete_job now i v (sys_db s)")
      case (Inr d)
      then have "s' = s\<lparr>sys_db := d, sys_workers := removeAll i (sys_workers s)\<rparr>"
        using Complete w assms(3) by simp
      with strong_complete [OF st al [OF w] Inr] al show ?thesis by (simp add: good_def)
    qed (use assms Complete w in simp)
  next
    case (Fail now i tb lib aid exc ft)
    then have w: "aid \<in> set (sys_workers s)" using assms(3) by (simp split: if_splits)
    then have s': "s' = tx (fail_job now i tb lib aid exc ft (sys_db s)) s
        \<lparr>sys_workers := removeAll aid (sys_workers s)\<rparr>"
      using Fail assms(3) by simp
    show ?thesis
    proof (cases "fail_job now i tb lib aid exc ft (sys_db s)")
      case (Inr d)
      with s' strong_fail [OF st al [OF w] Inr] al show ?thesis by (simp add: good_def)
    qed (use s' st al in \<open>simp add: good_def\<close>)
  next
    case (Worker_Crash i)
    with assms(3) st al show ?thesis by (auto simp: good_def)
  next
    case (Heartbeat_Attempt now i)
    with assms(3) st al strong_heartbeat_attempt show ?thesis by (auto simp: good_def)
  next
    case (Heartbeat_Reservation now j)
    with assms(3) st al strong_heartbeat_reservation show ?thesis
      by (auto simp: good_def heartbeat_updates_frame)
  next
    case (Reap now now' i aid)
    then have w: "aid \<notin> set (sys_workers s)" using assms(2) by simp
    show ?thesis
    proof (cases "reconcile_attempt now now' i aid (sys_db s)")
      case (Inr d)
      then have s': "s' = s\<lparr>sys_db := d\<rparr>" using Reap assms(3) by simp
      have "alive (attempts d) w" if "w \<in> set (sys_workers s)" for w
        by (rule strong_reap(2) [OF st Inr]) (use that w al in auto)
      then show ?thesis using s' strong_reap(1) [OF st Inr] by (simp add: good_def)
    qed (use assms Reap in simp)
  next
    case (Reorder d)
    then have "reordered (sys_db s) d" "s' = s\<lparr>sys_db := d\<rparr>"
      using assms(3) by (simp_all split: if_splits)
    with strong_reordered [OF st] al show ?thesis by (simp add: good_def)
  next
    case (Create_Tenant i inp)
    with assms(3) have s': "s' = tx (db_of (create_tenant i inp (sys_db s))) s" by simp
    show ?thesis unfolding s' by (rule good_tx_db [OF assms(1)]) (use strong_create_tenant [OF st] in blast)
  next
    case (Update_Tenant i inp)
    with assms(3) have s': "s' = tx (db_of (update_tenant i inp (sys_db s))) s" by simp
    show ?thesis unfolding s' by (rule good_tx_db [OF assms(1)]) (use strong_update_tenant [OF st] in blast)
  next
    case (Submit now i g sub)
    with assms(3) have s': "s' = tx (db_of (submit_job now i g sub (sys_db s))) s" by simp
    show ?thesis unfolding s'
    proof (rule good_tx_db [OF assms(1)], clarify)
      fix j created d
      assume sub: "submit_job now i g sub (sys_db s) = Inr ((j, created), d)"
      then have "attempts d = attempts (sys_db s)" by (cases rule: submit_job_cases) simp_all
      with strong_submit [OF st sub] show "strong d \<and> attempts d = attempts (sys_db s)" by simp
    qed
  next
    case (Refresh now t)
    with assms(3) have "s' = tx (refresh_scheduler_state now t (sys_db s)) s" by simp
    then show ?thesis using strong_refresh [OF st] refresh_frame(3) good_tx [OF assms(1)] by blast
  next
    case (Ensure_State t)
    with assms(3) have s': "s' = tx (db_of (get_or_create_scheduler_state t (sys_db s))) s" by simp
    show ?thesis unfolding s'
      by (rule good_tx_db [OF assms(1)])
        (use strong_cache_step [OF st cache_step_create] cache_step_frame(3) [OF cache_step_create] in blast)
  next
    case (Save_Readiness t b p n)
    with assms(3) strong_cache_step [OF st cache_step_save] al show ?thesis
      by (auto simp: good_def cache_step_frame(3) [OF cache_step_save])
  next
    case (Dispatch env t)
    with assms(3) have s': "s' = tx (db_of (dispatch_next env t (sys_db s))) s" by simp
    show ?thesis unfolding s' by (rule good_tx_db [OF assms(1)]) (use strong_dispatch [OF st] in blast)
  next
    case (Promote now locked rnow limit)
    with assms(3) have s': "s' = tx (db_of (promote_ready_retries now locked rnow limit (sys_db s))) s" by simp
    show ?thesis unfolding s' by (rule good_tx_db [OF assms(1)]) (use strong_promote [OF st] in blast)
  next
    case (Recover now rnow jid)
    with assms(3) have "s' = tx (recover_queued now rnow jid (sys_db s)) s" by simp
    then show ?thesis using strong_recover_queued [OF st] good_tx [OF assms(1)] by blast
  next
    case (Cancel_Job now jid)
    with assms(3) have s': "s' = tx (db_of (cancel_job now jid (sys_db s))) s" by simp
    show ?thesis unfolding s' by (rule good_tx_db [OF assms(1)]) (use strong_cancel [OF st] in blast)
  next
    case (Replay now rnow i g x)
    with assms(3) have s': "s' = tx (db_of (replay_dead_letter now rnow i g x (sys_db s))) s" by simp
    show ?thesis unfolding s'
    proof (rule good_tx_db [OF assms(1)])
      fix j d
      assume rep: "replay_dead_letter now rnow i g x (sys_db s) = Inr (j, d)"
      then have "attempts d = attempts (sys_db s)" by (rule replay_dead_letter_Inr)
      with strong_replay [OF st rep] show "strong d \<and> attempts d = attempts (sys_db s)" by simp
    qed
  qed
qed

lemma good_init: "good init_sys"
  by (simp add: good_def strong_def init_sys_def inv_init)
    (simp add: empty_db_def exact_def current_def covered_def owned_def)

interpretation strong: run_invariant timely good
  by unfold_locales (auto intro: good_init good_event)

end
