(* ===== verification/Capacity.thy ===== *)
theory Capacity
  imports Timely
begin

text \<open>
  The concurrency limit of a tenant. While the reaper is timely and no limit is lowered, a tenant
  never has more reservations than its limit, and so never more jobs that are queued or executed.
\<close>

section \<open>Counting the jobs that take a slot\<close>

definition occupied :: "uuid \<Rightarrow> Job list \<Rightarrow> nat" where
  "occupied t js = rows_count (\<lambda>j. job_tenant j = t \<and> occupying (job_status j)) js"

text \<open>Reservations and the jobs that take a slot correspond one to one.\<close>

lemma occupied_reservations:
  assumes "inv d"
  shows "occupied t (jobs d) = tenant_reservations t (reservations d)"
proof -
  let ?js = "filter (\<lambda>j. job_tenant j = t \<and> occupying (job_status j)) (jobs d)"
  let ?vs = "filter (\<lambda>v. res_tenant v = t) (reservations d)"
  note k = invD(1) [OF assms] and s = invD(3) [OF assms]
  have "set (map job_id ?js) = set (map res_job ?vs)"
  proof (intro set_eqI iffI)
    fix i
    assume "i \<in> set (map job_id ?js)"
    then obtain j where j: "j \<in> set (jobs d)" "job_tenant j = t" "occupying (job_status j)" "i = job_id j"
      by auto
    then obtain v where "v \<in> set (reservations d)" "res_job v = job_id j" "res_tenant v = job_tenant j"
      using slot_of [OF assms j(1,3)] by blast
    then show "i \<in> set (map res_job ?vs)" using j by force
  next
    fix i
    assume "i \<in> set (map res_job ?vs)"
    then obtain v where v: "v \<in> set (reservations d)" "res_tenant v = t" "i = res_job v" by auto
    then obtain j where j: "j \<in> set (jobs d)" "job_id j = res_job v" "job_tenant j = res_tenant v"
      using s unfolding slots_ok_def by blast
    then have "occupying (job_status j)" using s v(1) unfolding slots_ok_def by metis
    then show "i \<in> set (map job_id ?js)" using j v by force
  qed
  moreover have "distinct (map job_id ?js)" "distinct (map res_job ?vs)"
    using keyedD(1,8) [OF k] by (simp_all add: distinct_map_filter)
  ultimately have "length (map job_id ?js) = length (map res_job ?vs)"
    by (metis distinct_card)
  then show ?thesis by (simp add: occupied_def tenant_reservations_def rows_count_def)
qed

section \<open>The limit\<close>

definition in_limits :: "db \<Rightarrow> bool" where
  "in_limits d \<longleftrightarrow> (\<forall>t \<in> set (tenants d). tenant_reservations (ten_id t) (reservations d) \<le> max_concurrent_jobs t)"

lemma limits_mono:
  assumes "in_limits d" "tenants d' = tenants d"
    and "\<And>t. tenant_reservations t (reservations d') \<le> tenant_reservations t (reservations d)"
  shows "in_limits d'"
  using assms unfolding in_limits_def by (metis le_trans)

lemma tenant_reservations_delete_le:
  "tenant_reservations t (rows_delete P vs) \<le> tenant_reservations t vs"
  by (induction vs) (auto simp: tenant_reservations_def rows_count_def rows_delete_def)

lemma limits_frame:
  "in_limits d \<Longrightarrow> tenants d' = tenants d \<Longrightarrow> reservations d' = reservations d \<Longrightarrow> in_limits d'"
  by (simp add: in_limits_def)

lemma limits_delete:
  assumes "in_limits d" "tenants d' = tenants d" "reservations d' = rows_delete P (reservations d)"
  shows "in_limits d'"
  by (rule limits_mono [OF assms(1,2)]) (simp add: assms(3) tenant_reservations_delete_le)

lemma limits_fail_row:
  assumes "in_limits d" "keyed d" "job \<in> set (jobs d)" "fail_row_tx now i job ft m d = Inr d'"
  shows "in_limits d'"
proof (rule fail_row_tx_Inr [OF assms(2-4)])
  fix d2
  assume "d' = released job (save_job (job_id job) (failed_row now ft m) d2)"
    and "d2 = d \<and> (retries ft job \<or> (\<exists>x \<in> set (dead_letters d). dl_job x = job_id job))
     \<or> (let x = new_dead_letter i job (dead_letter_reason ft) m
        in d2 = d\<lparr>dead_letters := dead_letters d @ [x]\<rparr> \<and> \<not> retries ft job
           \<and> (\<forall>y \<in> set (dead_letters d). dl_id y \<noteq> i \<and> dl_job y \<noteq> job_id job))"
  then show "in_limits d'" by (intro limits_delete [OF assms(1)]) (auto simp: Let_def)
qed

lemma limits_dispatch:
  assumes "in_limits d" "strong d" "dispatch_next env t d = Inr (r, d')"
  shows "in_limits d'"
proof (cases r)
  case None
  then show ?thesis using assms dispatch_next_None by blast
next
  case (Some j)
  note k = invD(1) [OF strongD(1) [OF assms(2)]]
  from Some assms(3) have "dispatch_next env t d = Inr (Some j, d')" by simp
  then show ?thesis
  proof (rule dispatch_next_Some [OF k])
    fix state tenant before job rest d1
    assume st: "state \<in> set (scheduler_states d)" "ss_tenant state = t"
      and tn: "tenant \<in> set (tenants d)" "ten_id tenant = t"
      and lim: "active_reservations state < max_concurrent_jobs tenant"
      and lock: "case resource_of env job of Inl _ \<Rightarrow> False | Inr None \<Rightarrow> d1 = d
        | Inr (Some k) \<Rightarrow> acquired job k d d1"
      and res: "reserve_job env job state d1 = Inr (j, d')"
    have d1: "tenants d1 = tenants d" "reservations d1 = reservations d"
      using lock by (auto split: sum.splits option.splits dest: acquired_simps)
    have d': "d' = reserved env job state d1" by (rule reserve_job_Inr(2) [OF res])
    have "tenant_reservations t (reservations d) < max_concurrent_jobs tenant"
      using strongD(2) [OF assms(2)] st lim by (auto simp: exact_def)
    moreover have "tn' = tenant" if "tn' \<in> set (tenants d)" "ten_id tn' = t" for tn'
      using same_key [OF keyedD(4) [OF k] that(1) tn(1)] that(2) tn(2) by simp
    moreover have "tenant_reservations u (reservations d')
        = tenant_reservations u (reservations d) + (if u = t then 1 else 0)" for u
      using st(2) by (simp add: d' d1 tenant_reservations_def rows_count_append new_reservation_def)
    ultimately show "in_limits d'"
      using assms(1) unfolding in_limits_def by (fastforce simp: d' d1)
  qed
qed

lemma limits_cancel:
  assumes "in_limits d" "keyed d" "cancel_job now jid d = Inr (j, d')"
  shows "in_limits d'"
proof -
  obtain job where get: "get_job jid d = Inr job"
    using assms(3) by (auto simp: cancel_job_def result_bind_eq_Inr)
  from cancel_job_eq [OF keyedD(1,3) [OF assms(2)] get, of now] assms(3)
  have "d' = released job (save_job jid (cancel_row now) d) \<or> d' = save_job jid (cancel_row now) d"
    by (auto split: if_splits)
  then show ?thesis
    using limits_delete [OF assms(1), of d'] limits_frame [OF assms(1), of d'] by auto
qed

lemma limits_recover:
  assumes "in_limits d" "keyed d" "recover_queued now rnow jid d = Inr d'"
  shows "in_limits d'"
  using assms(2,3)
proof (cases rule: recover_queued_cases)
  case (recovered job)
  note f = refresh_frame [OF recovered(5)]
  show ?thesis by (rule limits_delete [OF assms(1)]) (simp_all add: f)
qed (use assms(1) in simp)

lemma limits_reap:
  assumes "in_limits d" "inv d" "reconcile_attempt now now' i aid d = Inr d'"
  shows "in_limits d'"
  using invD(1) [OF assms(2)] assms(3)
proof (cases rule: reconcile_attempt_cases)
  case (abandoned a job)
  let ?d1 = "save_attempt aid (\<lambda>a. a\<lparr>att_status := ABANDONED, finished_at := Some now,
            failure_type := Some INFRASTRUCTURE\<rparr>) d"
  have lim: "in_limits ?d1" by (rule limits_frame [OF assms(1)]) simp_all
  have key: "keyed ?d1" using invD(1) [OF assms(2)] by (subst keyed_save_attempt) simp_all
  show ?thesis by (rule limits_fail_row [OF lim key _ abandoned(6)]) (simp add: abandoned(4))
qed (use assms(1) in simp)

lemma limits_create_tenant:
  assumes "in_limits d" "strong d" "create_tenant i inp d = Inr (t, d')"
  shows "in_limits d'"
proof -
  note c = create_tenant_Inr [OF assms(3)]
  have "res_tenant v \<noteq> i" if "v \<in> set (reservations d)" for v
    using strongD(5) [OF assms(2)] c(3) that unfolding owned_def by metis
  then have "tenant_reservations i (reservations d) = 0"
    by (simp add: tenant_reservations_def rows_count_def filter_empty_conv)
  then show ?thesis using assms(1) c(1,2) by (auto simp: in_limits_def)
qed

lemma limits_update_tenant:
  assumes "in_limits d" "keyed d" "update_tenant i inp d = Inr (t, d')"
    and "\<And>n r. ti_max_concurrent_jobs inp = Some n \<Longrightarrow> r \<in> set (tenants d) \<Longrightarrow> ten_id r = i \<Longrightarrow>
      max_concurrent_jobs r \<le> n"
  shows "in_limits d'"
proof (rule update_tenant_Inr [OF assms(3)])
  fix t0
  assume t: "get_tenant i d = Inr t0" "t = apply_tenant_input inp t0"
    "d' = d\<lparr>tenants := rows_update (\<lambda>r. ten_id r = i) (\<lambda>_. t) (tenants d)\<rparr>" "ten_id t = i"
  have t0: "t0 \<in> set (tenants d)" "ten_id t0 = i" using t(1) assms(2) by simp_all
  have "max_concurrent_jobs t0 \<le> max_concurrent_jobs t"
    using assms(4) [OF _ t0] t(2) by (auto simp: apply_tenant_input_def split: option.splits)
  moreover have "tenant_reservations i (reservations d) \<le> max_concurrent_jobs t0"
    using assms(1) t0 by (auto simp: in_limits_def)
  ultimately have "tenant_reservations i (reservations d) \<le> max_concurrent_jobs t" by simp
  then show "in_limits d'" using assms(1) t(3,4) by (simp add: in_limits_def ball_rows_update)
qed

lemma limits_fail:
  assumes "in_limits d" "inv d" "fail_job now i tb lib aid exc ft d = Inr d'"
  shows "in_limits d'"
proof -
  note k = invD(1) [OF assms(2)]
  from assms(3) k obtain a job where job: "job \<in> set (jobs d)"
    and f: "fail_row_tx now i job ft (exc_str lib exc) (save_attempt (att_id a) (\<lambda>_. a\<lparr>att_status := ATT_FAILED,
      failure_type := Some ft, att_error_message := Some (exc_str lib exc), att_traceback := Some tb,
      finished_at := Some now\<rparr>) d) = Inr d'" (is "fail_row_tx _ _ _ _ _ ?d1 = _")
    by (auto simp: fail_job_eq result_bind_eq_Inr)
  have lim: "in_limits ?d1" by (rule limits_frame [OF assms(1)]) simp_all
  have key: "keyed ?d1" using k by (subst keyed_save_attempt) simp_all
  show ?thesis by (rule limits_fail_row [OF lim key _ f]) (simp add: job)
qed

lemma limits_complete:
  assumes "in_limits d" "inv d" "complete_job now i v d = Inr d'"
  shows "in_limits d'"
  by (rule complete_job_Inr [OF invD(1) [OF assms(2)] assms(3)], rule limits_delete [OF assms(1)]) simp_all

lemma limits_claim:
  assumes "in_limits d" "inv d" "claim_job now host i jid d = Inr (r, d')"
  shows "in_limits d'"
proof (cases r)
  case None
  then show ?thesis using assms claim_job_None by blast
next
  case (Some aj)
  then obtain a j where "claim_job now host i jid d = Inr (Some (a, j), d')"
    using assms(3) by (cases aj) auto
  then show ?thesis
    by (rule claim_job_Some [OF invD(1) [OF assms(2)]]) (rule limits_frame [OF assms(1)], simp_all)
qed

lemma limits_heartbeat:
  assumes "in_limits d"
  shows "in_limits (heartbeat_update_attempt now i d)" "in_limits (heartbeat_update_reservation now j d)"
proof -
  show "in_limits (heartbeat_update_attempt now i d)"
    by (rule limits_frame [OF assms]) (simp_all add: heartbeat_updates_frame)
  have "tenant_reservations t (rows_update P (\<lambda>r. r\<lparr>res_expires_at := x\<rparr>) vs) = tenant_reservations t vs"
    for t P x vs unfolding tenant_reservations_def by (rule rows_count_update_same) simp
  then show "in_limits (heartbeat_update_reservation now j d)"
    by (intro limits_mono [OF assms]) (simp_all add: heartbeat_update_reservation_def)
qed

section \<open>Every admitted event\<close>

definition bounded :: "sys \<Rightarrow> bool" where
  "bounded s \<longleftrightarrow> good s \<and> in_limits (sys_db s)"

lemma limits_tx:
  "in_limits (sys_db s) \<Longrightarrow> (\<And>d. r = Inr d \<Longrightarrow> in_limits d) \<Longrightarrow> in_limits (sys_db (tx r s))"
  by (cases r) simp_all

lemma limits_event:
  assumes "bounded s" "steady e s" "do_event e s = Some s'"
  shows "in_limits (sys_db s')"
proof -
  have w: "in_limits (sys_db s)" and st: "strong (sys_db s)"
    using assms(1) by (simp_all add: bounded_def good_def)
  note v = strongD(1) [OF st] and k = invD(1) [OF strongD(1) [OF st]]
  have same: "in_limits d" if "tenants d = tenants (sys_db s)" "reservations d = reservations (sys_db s)" for d
    using that by (rule limits_frame [OF w])
  show ?thesis
  proof (cases e)
    case (Create_Tenant i inp)
    then show ?thesis using assms(3) limits_create_tenant [OF w st]
      by (auto simp: db_of_Inr intro!: limits_tx [OF w])
  next
    case (Update_Tenant i inp)
    have le: "max_concurrent_jobs r \<le> n"
      if "ti_max_concurrent_jobs inp = Some n" "r \<in> set (tenants (sys_db s))" "ten_id r = i" for n r
      using assms(2) that by (auto simp: steady_def limits_kept_def Update_Tenant)
    have "in_limits d" if "update_tenant i inp (sys_db s) = Inr (t, d)" for t d
      by (rule limits_update_tenant [OF w k that le])
    then show ?thesis using assms(3) Update_Tenant
      by (auto simp: db_of_Inr intro!: limits_tx [OF w])
  next
    case (Submit now i g sub)
    have "in_limits d" if sub: "submit_job now i g sub (sys_db s) = Inr ((j, c), d)" for j c d
      using sub w by (cases rule: submit_job_cases) (simp_all add: same)
    then show ?thesis using assms(3) Submit by (auto simp: db_of_Inr intro!: limits_tx [OF w])
  next
    case (Refresh now t)
    have "in_limits d" if ref: "refresh_scheduler_state now t (sys_db s) = Inr d" for d
      by (rule same) (simp_all add: refresh_frame [OF ref])
    then show ?thesis using assms(3) Refresh by (auto intro!: limits_tx [OF w])
  next
    case (Ensure_State t)
    have "in_limits d" if c: "get_or_create_scheduler_state t (sys_db s) = Inr (r, d)" for r d
      by (rule same) (simp_all add: cache_step_frame [OF cache_step_create [OF c]])
    then show ?thesis using assms(3) Ensure_State by (auto simp: db_of_Inr intro!: limits_tx [OF w])
  next
    case (Save_Readiness t b p n)
    then show ?thesis using assms(3) same by (auto simp: cache_step_frame [OF cache_step_save])
  next
    case (Dispatch env t)
    then show ?thesis using assms(3) limits_dispatch [OF w st] by (auto simp: db_of_Inr intro!: limits_tx [OF w])
  next
    case (Publish now delay str_exc i)
    obtain r d q where pub: "publish_event now delay str_exc i (sys_db s, sys_broker s) = (r, (d, q))"
      by (metis prod.exhaust)
    have d: "d = (sys_db s)\<lparr>outbox := outbox d\<rparr>" by (rule publish_event_frame [OF pub])
    have "in_limits d" by (rule same) (subst d, simp)+
    then show ?thesis using pub assms(3) Publish by auto
  next
    case (Publish_Crash i)
    with assms(3) w show ?thesis by (auto split: sum.splits if_splits)
  next
    case (Claim now host i jid)
    show ?thesis
    proof (cases "claim_job now host i jid (sys_db s)")
      case (Inl e)
      with Claim assms(3) w show ?thesis by (auto split: if_splits)
    next
      case (Inr rd)
      then obtain r d where rd: "claim_job now host i jid (sys_db s) = Inr (r, d)" by (cases rd) auto
      then have "sys_db s' = d" using Claim assms(3) by (auto split: if_splits option.splits)
      with limits_claim [OF w v rd] show ?thesis by simp
    qed
  next
    case (Complete now i v')
    then show ?thesis using assms(3) w limits_complete [OF w v] by (auto split: if_splits sum.splits)
  next
    case (Fail now i tb lib aid exc ft)
    then have "sys_db s' = sys_db (tx (fail_job now i tb lib aid exc ft (sys_db s)) s)"
      using assms(3) by (auto split: if_splits)
    then show ?thesis using limits_tx [OF w limits_fail [OF w v]] by simp
  next
    case (Worker_Crash i)
    with assms(3) w show ?thesis by auto
  next
    case (Heartbeat_Attempt now i)
    with assms(3) limits_heartbeat [OF w] show ?thesis by auto
  next
    case (Heartbeat_Reservation now j)
    with assms(3) limits_heartbeat [OF w] show ?thesis by auto
  next
    case (Promote now locked rnow limit)
    have "in_limits d" if pro: "promote_ready_retries now locked rnow limit (sys_db s) = Inr (n, d)" for n d
      by (rule same) (simp_all add: promote_ready_retries_Inr [OF pro])
    then show ?thesis using assms(3) Promote by (auto simp: db_of_Inr intro!: limits_tx [OF w])
  next
    case (Reap now now' i aid)
    then show ?thesis using assms(3) limits_reap [OF w v] by (auto intro!: limits_tx [OF w])
  next
    case (Recover now rnow jid)
    then show ?thesis using assms(3) limits_recover [OF w k] by (auto intro!: limits_tx [OF w])
  next
    case (Cancel_Job now jid)
    then show ?thesis using assms(3) limits_cancel [OF w k] by (auto simp: db_of_Inr intro!: limits_tx [OF w])
  next
    case (Replay now rnow i g x)
    have "in_limits d" if rep: "replay_dead_letter now rnow i g x (sys_db s) = Inr (j, d)" for j d
      using rep by (rule replay_dead_letter_Inr) (simp add: same)
    then show ?thesis using assms(3) Replay by (auto simp: db_of_Inr intro!: limits_tx [OF w])
  next
    case (Reorder d)
    then have r: "reordered (sys_db s) d" "sys_db s' = d" using assms(3) by (auto split: if_splits)
    show ?thesis using w reordered_sets(1) [OF r(1)] reordered_counts [OF r(1)] r(2)
      by (simp add: in_limits_def)
  qed
qed

lemma bounded_init: "bounded init_sys"
  using good_init by (simp add: bounded_def in_limits_def init_sys_def empty_db_def)

interpretation bounded: run_invariant steady bounded
proof
  show "bounded init_sys" by (rule bounded_init)
  show "bounded s'" if "bounded s" "steady e s" "do_event e s = Some s'" for s e s'
    using limits_event [OF that] good_event [of s e s'] that by (auto simp: bounded_def steady_def)
qed

end
