(* ===== verification/Lifecycle.thy ===== *)
theory Lifecycle
  imports Timely
begin

text \<open>
  The life cycle of a job: the status changes the services make, as an inductive relation with a
  rule per service, their relation to the table of \<open>jobs/domain/transitions.py\<close>, which no service
  consults, and what a job keeps from event to event.
\<close>

section \<open>The moves of the services\<close>

inductive moves :: "JobStatus \<Rightarrow> JobStatus \<Rightarrow> bool" where
  dispatched: "moves WAITING QUEUED"
| recovered: "moves QUEUED WAITING"
| claimed: "moves QUEUED EXECUTING"
| completed: "running s \<Longrightarrow> moves s SUCCEEDED"
| retried: "running s \<Longrightarrow> moves s RETRY_WAIT"
| failed: "running s \<Longrightarrow> moves s FAILED_FINAL"
| promoted: "moves RETRY_WAIT WAITING"
| cancelled: "s \<in> {WAITING, RETRY_WAIT, QUEUED} \<Longrightarrow> moves s CANCELLED"
| cancel_requested: "moves EXECUTING CANCEL_REQUESTED"

inductive_simps moves_simps [simp]:
  "moves WAITING t" "moves QUEUED t" "moves EXECUTING t" "moves RETRY_WAIT t"
  "moves CANCEL_REQUESTED t"

inductive_cases moves_terminalE: "moves SUCCEEDED t" "moves FAILED_FINAL t" "moves CANCELLED t"

lemma moves_terminal: "terminal s \<Longrightarrow> \<not> moves s t"
  by (auto simp: terminal_def elim: moves_terminalE)

text \<open>
  What a job keeps and how its status may change: no job disappears, and a job that was not there
  before is WAITING. The time of queueing changes for a WAITING job only.
\<close>

definition comes_from :: "(JobStatus \<Rightarrow> JobStatus \<Rightarrow> bool) \<Rightarrow> Job \<Rightarrow> Job \<Rightarrow> bool" where
  "comes_from R j j' \<longleftrightarrow> job_id j' = job_id j \<and> job_tenant j' = job_tenant j
     \<and> payload j' = payload j \<and> idempotency_key j' = idempotency_key j
     \<and> (job_status j' = job_status j \<or> R (job_status j) (job_status j'))
     \<and> (job_status j = WAITING \<or> queued_at j' = queued_at j)"

definition evolves :: "(JobStatus \<Rightarrow> JobStatus \<Rightarrow> bool) \<Rightarrow> Job list \<Rightarrow> Job list \<Rightarrow> bool" where
  "evolves R js js' \<longleftrightarrow> (\<forall>j \<in> set js. \<exists>j' \<in> set js'. comes_from R j j')
     \<and> (\<forall>j' \<in> set js'. job_status j' = WAITING \<or> (\<exists>j \<in> set js. comes_from R j j'))"

lemma comes_from_refl [simp]: "comes_from R j j"
  by (simp add: comes_from_def)

lemma evolves_refl [simp]: "evolves R js js"
  by (auto simp: evolves_def intro: comes_from_refl)

lemma evolves_append: "job_status k = WAITING \<Longrightarrow> evolves R js (js @ [k])"
  by (auto simp: evolves_def intro: comes_from_refl)

lemma queued_at_rows [simp]:
  "queued_at (claimed_row now j) = queued_at j" "queued_at (completed_row now v j) = queued_at j"
  "queued_at (failed_row now ft m j) = queued_at j" "queued_at (cancel_row now j) = queued_at j"
  by (simp_all add: claimed_row_def completed_row_def failed_row_def cancel_row_def)

lemma evolves_upd:
  assumes "keeps_identity f"
    and "\<And>j. j \<in> set js \<Longrightarrow> P j \<Longrightarrow> job_status (f j) = job_status j \<or> R (job_status j) (job_status (f j))"
    and "\<And>j. j \<in> set js \<Longrightarrow> P j \<Longrightarrow> job_status j = WAITING \<or> queued_at (f j) = queued_at j"
  shows "evolves R js (rows_update P f js)"
proof -
  have "comes_from R j (if P j then f j else j)" if "j \<in> set js" for j
    using assms(2,3) [OF that] keeps_identityD [OF assms(1), of j] by (simp add: comes_from_def)
  then show ?thesis unfolding evolves_def set_rows_update by blast
qed

section \<open>The operations\<close>

lemma evolves_row:
  assumes "inv d" "job \<in> set (jobs d)" "keeps_identity f" "R (job_status job) (job_status (f job))"
    and "job_status job = WAITING \<or> queued_at (f job) = queued_at job"
  shows "evolves R (jobs d) (upd (job_id job) f (jobs d))"
  by (rule evolves_upd [OF assms(3)]) (use only_row [OF assms(1,2)] assms(4,5) in blast)+

lemma evolves_submit:
  assumes "submit_job now i g sub d = Inr ((j, c), d')"
  shows "evolves R (jobs d) (jobs d')"
  using assms by (cases rule: submit_job_cases) (simp_all add: evolves_append)

lemma evolves_dispatch:
  assumes "inv d" "dispatch_next env t d = Inr (r, d')" "R WAITING QUEUED"
  shows "evolves R (jobs d) (jobs d')"
proof (cases r)
  case None
  then show ?thesis using assms(2) dispatch_next_None by fastforce
next
  case (Some j)
  from Some assms(2) have "dispatch_next env t d = Inr (Some j, d')" by simp
  then show ?thesis
  proof (rule dispatch_next_Some [OF invD(1) [OF assms(1)]])
    fix state tenant before job rest d1
    assume cand: "dispatch_candidates env t d = before @ job # rest"
      and lock: "case resource_of env job of Inl _ \<Rightarrow> False | Inr None \<Rightarrow> d1 = d
        | Inr (Some k) \<Rightarrow> acquired job k d d1"
      and res: "reserve_job env job state d1 = Inr (j, d')"
    have d1: "jobs d1 = jobs d"
      using lock by (auto split: sum.splits option.splits dest: acquired_simps)
    have d': "d' = reserved env job state d1" by (rule reserve_job_Inr(2) [OF res])
    have "job \<in> set (dispatch_candidates env t d)" using cand by simp
    then have "job \<in> set (jobs d)" "job_status job = WAITING"
      using candidates_ready by (auto simp: ready_def)
    then show "evolves R (jobs d) (jobs d')"
      using evolves_row [OF assms(1), of job "\<lambda>j. j\<lparr>job_status := QUEUED, queued_at := Some (de_now env)\<rparr>" R]
        assms(3) by (simp add: d' d1)
  qed
qed

lemma evolves_claim:
  assumes "inv d" "claim_job now host i jid d = Inr (r, d')" "R QUEUED EXECUTING"
  shows "evolves R (jobs d) (jobs d')"
proof (cases r)
  case None
  then show ?thesis using assms(2) claim_job_None by fastforce
next
  case (Some aj)
  then obtain a j where "claim_job now host i jid d = Inr (Some (a, j), d')"
    using assms(2) by (cases aj) auto
  then show ?thesis
  proof (rule claim_job_Some [OF invD(1) [OF assms(1)]])
    fix job
    assume job: "job \<in> set (jobs d)" "job_id job = jid" "job_status job = QUEUED"
      and d': "d' = d\<lparr>jobs := upd jid (claimed_row now) (jobs d), attempts := attempts d @ [a]\<rparr>"
    show "evolves R (jobs d) (jobs d')"
      using evolves_row [OF assms(1) job(1), of "claimed_row now" R] job(2,3) assms(3) by (simp add: d')
  qed
qed

lemma evolves_complete:
  assumes "inv d" "complete_job now i v d = Inr d'"
    and "\<And>a job. a \<in> set (attempts d) \<Longrightarrow> att_id a = i \<Longrightarrow> job \<in> set (jobs d) \<Longrightarrow>
      job_id job = att_job a \<Longrightarrow> R (job_status job) SUCCEEDED"
  shows "evolves R (jobs d) (jobs d')"
proof (rule complete_job_Inr [OF invD(1) [OF assms(1)] assms(2)])
  fix a job
  assume a: "a \<in> set (attempts d)" "att_id a = i" and job: "job \<in> set (jobs d)" "job_id job = att_job a"
    and d': "d' = released job (save_job (att_job a) (completed_row now v)
       (save_attempt i (\<lambda>a. a\<lparr>att_status := ATT_SUCCEEDED, finished_at := Some now\<rparr>) d))"
  show "evolves R (jobs d) (jobs d')"
    using evolves_row [OF assms(1) job(1), of "completed_row now v" R] assms(3) [OF a job] job(2)
    by (simp add: d')
qed

lemma evolves_fail_row:
  assumes "inv d" "job \<in> set (jobs d)" "fail_row_tx now i job ft m (save_attempt k g d) = Inr d'"
    and "\<And>b. att_id (g b) = att_id b"
    and "R (job_status job) RETRY_WAIT" "R (job_status job) FAILED_FINAL"
  shows "evolves R (jobs d) (jobs d')"
proof -
  have "keyed (save_attempt k g d)"
    using invD(1) [OF assms(1)] assms(4) by (subst keyed_save_attempt) simp_all
  moreover have "job \<in> set (jobs (save_attempt k g d))" using assms(2) by simp
  ultimately obtain d2 where "d' = released job (save_job (job_id job) (failed_row now ft m) d2)"
    "jobs d2 = jobs d"
    by (rule fail_row_tx_Inr [OF _ _ assms(3)]) (auto simp: Let_def)
  then show ?thesis
    using evolves_row [OF assms(1,2), of "failed_row now ft m" R] assms(5,6) by simp
qed

lemma evolves_fail:
  assumes "inv d" "fail_job now i tb lib aid exc ft d = Inr d'"
    and R: "\<And>a job. a \<in> set (attempts d) \<Longrightarrow> att_id a = aid \<Longrightarrow> job \<in> set (jobs d) \<Longrightarrow>
      job_id job = att_job a \<Longrightarrow> R (job_status job) RETRY_WAIT \<and> R (job_status job) FAILED_FINAL"
  shows "evolves R (jobs d) (jobs d')"
proof -
  note k = invD(1) [OF assms(1)]
  let ?g = "\<lambda>a. a\<lparr>att_status := ATT_FAILED, failure_type := Some ft,
      att_error_message := Some (exc_str lib exc), att_traceback := Some tb,
      finished_at := Some now\<rparr>"
  from assms(2) k obtain a job where a: "a \<in> set (attempts d)" "att_id a = aid"
    and job: "job \<in> set (jobs d)" "job_id job = att_job a"
    and f: "fail_row_tx now i job ft (exc_str lib exc) (save_attempt (att_id a) (\<lambda>_. ?g a) d) = Inr d'"
    by (auto simp: fail_job_eq result_bind_eq_Inr)
  have save: "save_attempt (att_id a) (\<lambda>_. ?g a) d = save_attempt (att_id a) ?g d"
    by (rule save_attempt_cong [OF keyedD(2) [OF k] a(1)]) simp
  show ?thesis
    by (rule evolves_fail_row [OF assms(1) job(1) f [unfolded save]]) (simp_all add: R [OF a job])
qed

lemma evolves_reap:
  assumes "inv d" "reconcile_attempt now now' i aid d = Inr d'"
    and R: "\<And>a job. a \<in> set (attempts d) \<Longrightarrow> att_status a = RUNNING \<Longrightarrow> job \<in> set (jobs d) \<Longrightarrow>
      job_id job = att_job a \<Longrightarrow> R (job_status job) RETRY_WAIT \<and> R (job_status job) FAILED_FINAL"
  shows "evolves R (jobs d) (jobs d')"
  using invD(1) [OF assms(1)] assms(2)
proof (cases rule: reconcile_attempt_cases)
  case (abandoned a job)
  show ?thesis
    by (rule evolves_fail_row [OF assms(1) abandoned(4,6)]) (simp_all add: R [OF abandoned(1,3,4,5)])
qed simp

lemma evolves_recover:
  assumes "inv d" "recover_queued now rnow jid d = Inr d'" "R QUEUED WAITING"
  shows "evolves R (jobs d) (jobs d')"
  using invD(1) [OF assms(1)] assms(2)
proof (cases rule: recover_queued_cases)
  case (recovered job)
  show ?thesis
    using evolves_row [OF assms(1) recovered(1), of "\<lambda>j. j\<lparr>job_status := WAITING, ready_since := now\<rparr>" R]
      refresh_frame(2) [OF recovered(5)] recovered(2,3) assms(3) by simp
qed simp

lemma evolves_cancel:
  assumes "inv d" "cancel_job now jid d = Inr (j, d')"
    and "\<And>s. cancelled_status s = s \<or> R s (cancelled_status s)"
  shows "evolves R (jobs d) (jobs d')"
proof -
  note k = invD(1) [OF assms(1)]
  obtain job where get: "get_job jid d = Inr job"
    using assms(2) by (auto simp: cancel_job_def result_bind_eq_Inr)
  from cancel_job_eq [OF keyedD(1,3) [OF k] get, of now] assms(2)
  have "jobs d' = upd jid (cancel_row now) (jobs d)" by (auto split: if_splits)
  moreover have "evolves R (jobs d) (upd jid (cancel_row now) (jobs d))"
  proof (rule evolves_upd [OF keeps_identity_rows(4)])
    show "job_status (cancel_row now j) = job_status j \<or> R (job_status j) (job_status (cancel_row now j))"
      for j using assms(3) by simp
  qed simp
  ultimately show ?thesis by simp
qed

lemma evolves_promote:
  assumes "inv d" "promote_ready_retries now locked refresh_now limit d = Inr (n, d')" "R RETRY_WAIT WAITING"
  shows "evolves R (jobs d) (jobs d')"
proof -
  let ?js = "due_retries now locked limit d"
  have "job_status j = RETRY_WAIT" if j: "j \<in> set (jobs d)" "job_id j \<in> job_id ` set ?js" for j
  proof -
    obtain k where k: "k \<in> set ?js" "job_id j = job_id k" using j(2) by auto
    then have "j = k" using only_row [OF assms(1) due_retries_mem(1) [OF k(1)] j(1)] by blast
    then show ?thesis using due_retries_mem(2) [OF k(1)] by simp
  qed
  then show ?thesis
    unfolding promote_ready_retries_Inr(2) [OF assms(2)]
    using assms(3) by (intro evolves_upd) simp_all
qed

section \<open>Every event\<close>

lemma evolves_tx:
  "(\<And>d. r = Inr d \<Longrightarrow> evolves R (jobs (sys_db s)) (jobs d)) \<Longrightarrow>
     evolves R (jobs (sys_db s)) (jobs (sys_db (tx r s)))"
  by (cases r) simp_all

lemma evolves_mono:
  "evolves R js js' \<Longrightarrow> (\<And>s t. R s t \<Longrightarrow> S s t) \<Longrightarrow> evolves S js js'"
  unfolding evolves_def comes_from_def by metis

text \<open>
  Every event changes statuses along \<open>R\<close>, when \<open>R\<close> includes the moves and what the ends of
  attempts do.
\<close>

lemma evolves_event_gen:
  assumes "inv (sys_db s)" "do_event e s = Some s'" 
    and R: "\<And>s t. moves s t \<Longrightarrow> (t = QUEUED \<Longrightarrow> \<exists>env k. e = Dispatch env k) \<Longrightarrow> R s t"
    and complete: "\<And>a job. a \<in> set (attempts (sys_db s)) \<Longrightarrow>
      att_id a \<in> set (sys_workers s) \<or> att_status a = RUNNING \<Longrightarrow> job \<in> set (jobs (sys_db s)) \<Longrightarrow>
      job_id job = att_job a \<Longrightarrow> R (job_status job) SUCCEEDED"
    and fail: "\<And>a job. a \<in> set (attempts (sys_db s)) \<Longrightarrow>
      att_id a \<in> set (sys_workers s) \<or> att_status a = RUNNING \<Longrightarrow> job \<in> set (jobs (sys_db s)) \<Longrightarrow>
      job_id job = att_job a \<Longrightarrow> R (job_status job) RETRY_WAIT \<and> R (job_status job) FAILED_FINAL"
  shows "evolves R (jobs (sys_db s)) (jobs (sys_db s'))"
proof -
  note v = assms(1)
  show ?thesis
  proof (cases e)
    case (Publish now delay str_exc i)
    obtain r d q where pub: "publish_event now delay str_exc i (sys_db s, sys_broker s) = (r, (d, q))"
      by (metis prod.exhaust)
    have "d = (sys_db s)\<lparr>outbox := outbox d\<rparr>" by (rule publish_event_frame [OF pub])
    then have "jobs d = jobs (sys_db s)" by (metis db.select_convs(2) db.surjective db.update_convs(6))
    then show ?thesis using pub assms(2) Publish by auto
  next
    case (Claim now host i jid)
    show ?thesis
    proof (cases "claim_job now host i jid (sys_db s)")
      case (Inl e)
      with Claim assms(2) show ?thesis by (auto split: if_splits)
    next
      case (Inr rd)
      then obtain r d where rd: "claim_job now host i jid (sys_db s) = Inr (r, d)" by (cases rd) auto
      then have "sys_db s' = d" using Claim assms(2) by (auto split: if_splits option.splits)
      with evolves_claim [OF v rd, of R] R [of QUEUED EXECUTING] show ?thesis by simp
    qed
  next
    case (Complete now i v')
    show ?thesis
    proof (cases "i \<in> set (sys_workers s)")
      case True
      have "evolves R (jobs (sys_db s)) (jobs d)" if d: "complete_job now i v' (sys_db s) = Inr d" for d
        by (rule evolves_complete [OF v d]) (use True complete in blast)
      then show ?thesis using assms(2) Complete by (auto split: if_splits sum.splits)
    qed (use assms(2) Complete in simp)
  next
    case (Fail now i tb lib aid exc ft)
    then have w: "aid \<in> set (sys_workers s)"
      and "sys_db s' = sys_db (tx (fail_job now i tb lib aid exc ft (sys_db s)) s)"
      using assms(2) by (auto split: if_splits)
    moreover have "evolves R (jobs (sys_db s)) (jobs d)"
      if d: "fail_job now i tb lib aid exc ft (sys_db s) = Inr d" for d
      by (rule evolves_fail [OF v d]) (use w fail in blast)
    ultimately show ?thesis using evolves_tx by simp
  next
    case (Create_Tenant i inp)
    then show ?thesis using assms(2) create_tenant_Inr(1)
      by (fastforce simp: db_of_Inr intro!: evolves_tx)
  next
    case (Update_Tenant i inp)
    then show ?thesis using assms(2) by (auto simp: db_of_Inr intro!: evolves_tx elim!: update_tenant_Inr)
  next
    case (Submit now i g sub)
    then show ?thesis using assms(2) evolves_submit by (auto simp: db_of_Inr intro!: evolves_tx)
  next
    case (Refresh now t)
    have "evolves R (jobs (sys_db s)) (jobs d)"
      if ref: "refresh_scheduler_state now t (sys_db s) = Inr d" for d
      by (simp add: refresh_frame [OF ref])
    then show ?thesis using assms(2) Refresh by (auto intro!: evolves_tx)
  next
    case (Ensure_State t)
    have "evolves R (jobs (sys_db s)) (jobs d)"
      if c: "get_or_create_scheduler_state t (sys_db s) = Inr (r, d)" for r d
      by (simp add: cache_step_frame [OF cache_step_create [OF c]])
    then show ?thesis using assms(2) Ensure_State by (auto simp: db_of_Inr intro!: evolves_tx)
  next
    case (Save_Readiness t b p n)
    then show ?thesis using assms(2) by (auto simp: cache_step_frame [OF cache_step_save])
  next
    case (Dispatch env t)
    then show ?thesis using assms(2) evolves_dispatch [OF v] R [of WAITING QUEUED] by (auto simp: db_of_Inr intro!: evolves_tx)
  next
    case (Promote now locked rnow limit)
    then show ?thesis using assms(2) evolves_promote [OF v] R [of RETRY_WAIT WAITING] by (auto simp: db_of_Inr intro!: evolves_tx)
  next
    case (Reap now now' i aid)
    have "evolves R (jobs (sys_db s)) (jobs d)"
      if d: "reconcile_attempt now now' i aid (sys_db s) = Inr d" for d
      by (rule evolves_reap [OF v d]) (use fail in blast)
    then show ?thesis using assms(2) Reap by (auto intro!: evolves_tx)
  next
    case (Recover now rnow jid)
    then show ?thesis using assms(2) evolves_recover [OF v] R [of QUEUED WAITING] by (auto intro!: evolves_tx)
  next
    case (Cancel_Job now jid)
    have "cancelled_status s = s \<or> R s (cancelled_status s)" for s
      using R [of s CANCELLED] R [of s CANCEL_REQUESTED] by (cases s) simp_all
    then show ?thesis using assms(2) Cancel_Job evolves_cancel [OF v] by (auto simp: db_of_Inr intro!: evolves_tx)
  next
    case (Replay now rnow i g x)
    have "evolves R (jobs (sys_db s)) (jobs d)"
      if rep: "replay_dead_letter now rnow i g x (sys_db s) = Inr (j, d)" for j d
      using rep by (rule replay_dead_letter_Inr) (simp add: evolves_append)
    then show ?thesis using assms(2) Replay by (auto simp: db_of_Inr intro!: evolves_tx)
  next
    case (Reorder d)
    then have "reordered (sys_db s) d" "sys_db s' = d" using assms(2) by (auto split: if_splits)
    then show ?thesis using reordered_sets(2) [of "sys_db s" d] by (auto simp: evolves_def intro: comes_from_refl)
  qed (use assms(2) in \<open>auto simp: heartbeat_updates_frame split: sum.splits if_splits\<close>)
qed

text \<open>With a timely reaper only the moves happen.\<close>

lemma evolves_event:
  assumes "good s" "do_event e s = Some s'"
  shows "evolves moves (jobs (sys_db s)) (jobs (sys_db s'))"
proof -
  have st: "strong (sys_db s)" using assms(1) by (simp add: good_def)
  note v = strongD(1) [OF st]
  have run: "running (job_status job)"
    if a: "a \<in> set (attempts (sys_db s))" "att_id a \<in> set (sys_workers s) \<or> att_status a = RUNNING"
      and job: "job \<in> set (jobs (sys_db s))" "job_id job = att_job a" for a job
  proof -
    have "att_status a = RUNNING"
      using a assms(1) running_row [OF invD(1) [OF v] _ a(1)] by (auto simp: good_def)
    then show ?thesis by (rule running_attempt(1) [OF st a(1) _ job])
  qed
  show ?thesis
    by (rule evolves_event_gen [OF v assms(2)]) (use run in \<open>auto intro: moves.intros\<close>)
qed

text \<open>
  Without it a worker can complete or fail an attempt long after the reaper abandoned it, whatever
  became of the job.
\<close>

definition late_moves :: "JobStatus \<Rightarrow> JobStatus \<Rightarrow> bool" where
  "late_moves s t \<longleftrightarrow> moves s t \<or> t \<in> {SUCCEEDED, RETRY_WAIT, FAILED_FINAL}"

lemma evolves_event_any:
  "inv (sys_db s) \<Longrightarrow> do_event e s = Some s' \<Longrightarrow>
     evolves late_moves (jobs (sys_db s)) (jobs (sys_db s'))"
  by (rule evolves_event_gen) (simp_all add: late_moves_def)

text \<open>A job once stored is there for ever, with its tenant, its payload and its key.\<close>

lemma job_persists:
  assumes "later any_event s s'" "inv (sys_db s)" "j \<in> set (jobs (sys_db s))"
  shows "\<exists>j' \<in> set (jobs (sys_db s')). job_id j' = job_id j \<and> job_tenant j' = job_tenant j
    \<and> payload j' = payload j \<and> idempotency_key j' = idempotency_key j"
  using assms(1,3)
proof (induction rule: later.induct)
  case later_refl
  then show ?case by blast
next
  case (later_step s1 e s')
  have "inv (sys_db s1)" using weak.good_later [OF later_step(1) assms(2)] .
  from evolves_event_any [OF this later_step(3)] later_step(4) [OF later_step.prems]
  show ?case unfolding evolves_def comes_from_def by metis
qed

lemma terminal_stays:
  assumes "later timely s s'" "good s" "j \<in> set (jobs (sys_db s))" "terminal (job_status j)"
  shows "\<exists>j' \<in> set (jobs (sys_db s')). job_id j' = job_id j \<and> job_status j' = job_status j"
  using assms(1,3)
proof (induction rule: later.induct)
  case later_refl
  then show ?case by blast
next
  case (later_step s1 e s')
  have "good s1" using strong.good_later [OF later_step(1) assms(2)] .
  from later_step(4) [OF later_step.prems] obtain j1 where
    j1: "j1 \<in> set (jobs (sys_db s1))" "job_id j1 = job_id j" "job_status j1 = job_status j" by blast
  then have "\<not> moves (job_status j1) t" for t using moves_terminal assms(4) by simp
  then show ?case using evolves_event [OF \<open>good s1\<close> later_step(3)] j1 unfolding evolves_def comes_from_def by metis
qed

end
