(* ===== verification/Delivery.thy ===== *)
theory Delivery
  imports Lifecycle
begin

text \<open>
  The transactional outbox from end to end: no job is queued without a dispatch event, no event
  counts as published without its message in the broker.
\<close>

section \<open>Dispatch events and messages\<close>

text \<open>
  Every QUEUED job has the dispatch event of its last dispatch in the outbox, every published
  event has put a message of its own into the broker, and no event has a recorded failure: the
  increments of \<open>publish_attempts\<close> are rolled back with the transaction they are made in.
\<close>

definition own_event :: "Job \<Rightarrow> JobOutbox \<Rightarrow> bool" where
  "own_event j ev \<longleftrightarrow> out_job ev = job_id j \<and> queued_at j = Some (out_available_at ev)"

definition sent_events :: "uuid \<Rightarrow> JobOutbox list \<Rightarrow> nat" where
  "sent_events jid es = rows_count (\<lambda>ev. out_job ev = jid \<and> out_status ev = PUBLISHED) es"

definition delivery :: "sys \<Rightarrow> bool" where
  "delivery s \<longleftrightarrow> inv (sys_db s)
     \<and> (\<forall>j \<in> set (jobs (sys_db s)). job_status j = QUEUED \<longrightarrow>
          (\<exists>ev \<in> set (outbox (sys_db s)). own_event j ev))
     \<and> (\<forall>jid. sent_events jid (outbox (sys_db s)) \<le> count_list (sys_broker s) jid)
     \<and> (\<forall>ev \<in> set (outbox (sys_db s)). publish_attempts ev = 0 \<and> last_error ev = None)"

lemma sent_events_append [simp]:
  "sent_events k (es @ [ev]) = sent_events k es
     + (if out_job ev = k \<and> out_status ev = PUBLISHED then 1 else 0)"
  by (simp add: sent_events_def rows_count_def)

lemma sent_events_mset: "mset es = mset es' \<Longrightarrow> sent_events k es = sent_events k es'"
  unfolding sent_events_def by (rule rows_count_mset)

text \<open>Publishing one pending event.\<close>

lemma sent_events_update:
  assumes "distinct (map out_id es)" "ev \<in> set es" "out_status ev = PENDING"
    and "\<And>x. out_job (f x) = out_job x" "\<And>x. out_status (f x) = PUBLISHED"
  shows "sent_events k (rows_update (\<lambda>x. out_id x = out_id ev) f es)
     = sent_events k es + (if out_job ev = k then 1 else 0)"
proof -
  obtain xs ys where es: "es = xs @ ev # ys" using assms(2) by (meson split_list)
  then have "rows_update (\<lambda>x. out_id x = out_id ev) f es = xs @ f ev # ys"
    using assms(1) by (auto simp: rows_update_def intro!: map_idI) (metis image_eqI)+
  then show ?thesis using assms(3-5) by (simp add: es sent_events_def rows_count_def)
qed

section \<open>Every event\<close>

text \<open>Only a dispatch and a publication touch the outbox; nothing takes messages away.\<close>

lemma outbox_tx:
  "(\<And>d. r = Inr d \<Longrightarrow> outbox d = outbox (sys_db s)) \<Longrightarrow> outbox (sys_db (tx r s)) = outbox (sys_db s)"
  by (cases r) simp_all

lemma fail_row_outbox:
  assumes "keyed d" "job \<in> set (jobs d)" "fail_row_tx now i job ft m d = Inr d'"
  shows "outbox d' = outbox d"
  using assms by (rule fail_row_tx_Inr) (auto simp: Let_def)

lemma fail_outbox:
  assumes "keyed d" "fail_job now i tb lib aid exc ft d = Inr d'"
  shows "outbox d' = outbox d"
proof -
  from assms obtain a job where job: "job \<in> set (jobs d)"
    and f: "fail_row_tx now i job ft (exc_str lib exc) (save_attempt (att_id a) (\<lambda>_. a\<lparr>att_status := ATT_FAILED,
      failure_type := Some ft, att_error_message := Some (exc_str lib exc), att_traceback := Some tb,
      finished_at := Some now\<rparr>) d) = Inr d'" (is "fail_row_tx _ _ _ _ _ ?d1 = _")
    by (auto simp: fail_job_eq result_bind_eq_Inr)
  have "keyed ?d1" using assms(1) by (subst keyed_save_attempt) simp_all
  then have "outbox d' = outbox ?d1" by (rule fail_row_outbox [OF _ _ f]) (simp add: job)
  then show ?thesis by simp
qed

lemma reap_outbox:
  assumes "keyed d" "reconcile_attempt now now' i aid d = Inr d'"
  shows "outbox d' = outbox d"
  using assms
proof (cases rule: reconcile_attempt_cases)
  case (abandoned a job)
  let ?d1 = "save_attempt aid (\<lambda>a. a\<lparr>att_status := ABANDONED, finished_at := Some now,
            failure_type := Some INFRASTRUCTURE\<rparr>) d"
  have "keyed ?d1" using assms(1) by (subst keyed_save_attempt) simp_all
  then have "outbox d' = outbox ?d1" by (rule fail_row_outbox [OF _ _ abandoned(6)]) (simp add: abandoned(4))
  then show ?thesis by simp
qed simp

lemma recover_outbox:
  assumes "keyed d" "recover_queued now rnow jid d = Inr d'"
  shows "outbox d' = outbox d"
  using assms by (cases rule: recover_queued_cases) (auto dest: refresh_frame(6))

lemma cancel_outbox:
  assumes "keyed d" "cancel_job now jid d = Inr (j, d')"
  shows "outbox d' = outbox d"
proof -
  obtain job where get: "get_job jid d = Inr job"
    using assms(2) by (auto simp: cancel_job_def result_bind_eq_Inr)
  from cancel_job_eq [OF keyedD(1,3) [OF assms(1)] get, of now] assms(2)
  show ?thesis by (auto split: if_splits)
qed

lemma claim_outbox:
  assumes "keyed d" "claim_job now host i jid d = Inr (r, d')"
  shows "outbox d' = outbox d"
proof (cases r)
  case None
  then show ?thesis using assms(2) claim_job_None by fastforce
next
  case (Some aj)
  then obtain a j where "claim_job now host i jid d = Inr (Some (a, j), d')"
    using assms(2) by (cases aj) auto
  then show ?thesis by (rule claim_job_Some [OF assms(1)]) simp
qed

lemma outbox_event:
  assumes "inv (sys_db s)" "do_event e s = Some s'"
    and "\<And>env k. e \<noteq> Dispatch env k" "\<And>now delay str_exc i. e \<noteq> Publish now delay str_exc i"
  shows "mset (outbox (sys_db s')) = mset (outbox (sys_db s))"
    "count_list (sys_broker s) k \<le> count_list (sys_broker s') k"
proof -
  note keyed = invD(1) [OF assms(1)]
  have out: "outbox (sys_db s') = outbox (sys_db s)" if "\<And>d. e \<noteq> Reorder d"
  proof (cases e)
    case (Create_Tenant i inp)
    then show ?thesis using assms(2) create_tenant_Inr(1) by (fastforce simp: db_of_Inr intro!: outbox_tx)
  next
    case (Update_Tenant i inp)
    then show ?thesis using assms(2) by (auto simp: db_of_Inr intro!: outbox_tx elim!: update_tenant_Inr)
  next
    case (Submit now i g sub)
    have "outbox d = outbox (sys_db s)" if "submit_job now i g sub (sys_db s) = Inr ((j, c), d)" for j c d
      using that by (cases rule: submit_job_cases) simp_all
    then show ?thesis using assms(2) Submit by (auto simp: db_of_Inr intro!: outbox_tx)
  next
    case (Refresh now t)
    then show ?thesis using assms(2) refresh_frame(6) by (auto intro!: outbox_tx)
  next
    case (Ensure_State t)
    then show ?thesis using assms(2) cache_step_frame(6) [OF cache_step_create]
      by (auto simp: db_of_Inr intro!: outbox_tx)
  next
    case (Save_Readiness t b p n)
    then show ?thesis using assms(2) by (auto simp: cache_step_frame [OF cache_step_save])
  next
    case (Claim now host i jid)
    show ?thesis
    proof (cases "claim_job now host i jid (sys_db s)")
      case (Inl e)
      with Claim assms(2) show ?thesis by (auto split: if_splits)
    next
      case (Inr rd)
      then obtain r d where rd: "claim_job now host i jid (sys_db s) = Inr (r, d)" by (cases rd) auto
      then have "sys_db s' = d" using Claim assms(2) by (auto split: if_splits option.splits)
      with claim_outbox [OF keyed rd] show ?thesis by simp
    qed
  next
    case (Complete now i v)
    have "outbox d = outbox (sys_db s)" if d: "complete_job now i v (sys_db s) = Inr d" for d
      by (rule complete_job_Inr [OF keyed d]) simp
    then show ?thesis using assms(2) Complete by (auto split: if_splits sum.splits)
  next
    case (Fail now i tb lib aid exc ft)
    then have "sys_db s' = sys_db (tx (fail_job now i tb lib aid exc ft (sys_db s)) s)"
      using assms(2) by (auto split: if_splits)
    then show ?thesis using outbox_tx [OF fail_outbox [OF keyed]] by simp
  next
    case (Promote now locked rnow limit)
    then show ?thesis using assms(2) promote_ready_retries_Inr(7)
      by (auto simp: db_of_Inr intro!: outbox_tx)
  next
    case (Reap now now' i aid)
    then show ?thesis using assms(2) reap_outbox [OF keyed] by (auto intro!: outbox_tx)
  next
    case (Recover now rnow jid)
    then show ?thesis using assms(2) recover_outbox [OF keyed] by (auto intro!: outbox_tx)
  next
    case (Cancel_Job now jid)
    then show ?thesis using assms(2) cancel_outbox [OF keyed] by (auto simp: db_of_Inr intro!: outbox_tx)
  next
    case (Replay now rnow i g x)
    have "outbox d = outbox (sys_db s)" if "replay_dead_letter now rnow i g x (sys_db s) = Inr (j, d)" for j d
      using that by (rule replay_dead_letter_Inr) simp
    then show ?thesis using assms(2) Replay by (auto simp: db_of_Inr intro!: outbox_tx)
  next
    case (Reorder d)
    with that show ?thesis by blast
  qed (use assms(2-4) in \<open>auto simp: heartbeat_updates_frame split: sum.splits if_splits\<close>)
  show "mset (outbox (sys_db s')) = mset (outbox (sys_db s))"
  proof (cases "\<exists>d. e = Reorder d")
    case True
    then show ?thesis using assms(2) by (auto simp: reordered_def split: if_splits)
  qed (use out in auto)
  show "count_list (sys_broker s) k \<le> count_list (sys_broker s') k"
    using assms(2-4) by (cases e) (auto simp: tx_def split: sum.splits if_splits option.splits)
qed

lemma delivery_dispatch:
  assumes "delivery s" "dispatch_next env k (sys_db s) = Inr (Some j, d')"
  shows "delivery (s\<lparr>sys_db := d'\<rparr>)"
proof -
  have v: "inv (sys_db s)" using assms(1) by (simp add: delivery_def)
  show ?thesis
  proof (rule dispatch_next_Some [OF invD(1) [OF v] assms(2)])
    fix state tenant before job rest d1
    assume lock: "case resource_of env job of Inl _ \<Rightarrow> False | Inr None \<Rightarrow> d1 = sys_db s
        | Inr (Some k) \<Rightarrow> acquired job k (sys_db s) d1"
      and res: "reserve_job env job state d1 = Inr (j, d')"
    have d1: "jobs d1 = jobs (sys_db s)" "outbox d1 = outbox (sys_db s)"
      using lock by (auto split: sum.splits option.splits dest: acquired_simps)
    have d': "d' = reserved env job state d1" by (rule reserve_job_Inr(2) [OF res])
    show "delivery (s\<lparr>sys_db := d'\<rparr>)"
      using assms(1) inv_dispatch [OF v assms(2)]
      by (auto simp: delivery_def d' d1 new_outbox_event_def ball_rows_update own_event_def)
  qed
qed

lemma delivery_publish:
  assumes "delivery s" "publish_event now delay str_exc i (sys_db s, sys_broker s) = (r, (d', q'))"
  shows "delivery (s\<lparr>sys_db := d', sys_broker := q'\<rparr>)"
proof -
  have v: "inv (sys_db s)" using assms(1) by (simp add: delivery_def)
  have v': "inv d'" by (rule inv_publish [OF v assms(2)])
  show ?thesis
  proof (cases rule: publish_event_cases [of now delay str_exc i "sys_db s" "sys_broker s"])
    case (sent ev d1)
    then have d': "d' = d1" "q' = sys_broker s @ [out_job ev]" using assms(2) by simp_all
    note pending = sent(3)
    have ev: "ev \<in> set (outbox (sys_db s))" "out_id ev = i"
      using sent(2) by (auto simp: get_outbox_def dest: row_get_Inr_D)
    let ?f = "\<lambda>x. x\<lparr>out_status := PUBLISHED, published_at := Some now,
         publish_attempts := publish_attempts ev, last_error := last_error ev\<rparr>"
    have tabs: "jobs d' = jobs (sys_db s)"
      "outbox d' = rows_update (\<lambda>x. out_id x = out_id ev) ?f (outbox (sys_db s))"
      by (simp_all add: d' sent(5) save_outbox_def)
    have "(\<exists>x \<in> set (outbox d'). own_event j x) \<longleftrightarrow> (\<exists>x \<in> set (outbox (sys_db s)). own_event j x)" for j
      unfolding tabs by (rule bex_upd_same) (simp add: own_event_def)
    then have "\<forall>j \<in> set (jobs d'). job_status j = QUEUED \<longrightarrow> (\<exists>x \<in> set (outbox d'). own_event j x)"
      using assms(1) tabs(1) by (simp add: delivery_def)
    moreover have "sent_events k (outbox d') \<le> count_list q' k" for k
      unfolding tabs d'(2)
      using assms(1) sent_events_update [OF keyedD(7) [OF invD(1) [OF v]] ev(1) pending, of ?f k]
      by (simp add: delivery_def)
    moreover have "\<forall>x \<in> set (outbox d'). publish_attempts x = 0 \<and> last_error x = None"
      using assms(1) ev(1) unfolding tabs ball_rows_update by (simp add: delivery_def)
    ultimately show ?thesis using v' by (simp add: delivery_def)
  qed (use assms in \<open>simp_all add: delivery_def\<close>)
qed

lemma delivery_event:
  assumes "delivery s" "do_event e s = Some s'"
  shows "delivery s'"
proof -
  have v: "inv (sys_db s)" using assms(1) by (simp add: delivery_def)
  consider (dispatch) env k where "e = Dispatch env k"
    | (publish) now delay str_exc i where "e = Publish now delay str_exc i"
    | (other) "\<And>env k. e \<noteq> Dispatch env k" "\<And>now delay str_exc i. e \<noteq> Publish now delay str_exc i"
    by blast
  then show ?thesis
  proof cases
    case dispatch
    show ?thesis
    proof (cases "dispatch_next env k (sys_db s)")
      case (Inr jd)
      obtain j d where jd: "jd = (j, d)" by (cases jd)
      show ?thesis
      proof (cases j)
        case None
        then have "d = sys_db s" using Inr jd dispatch_next_None by blast
        then show ?thesis using assms dispatch Inr jd by simp
      next
        case (Some j')
        then have res: "dispatch_next env k (sys_db s) = Inr (Some j', d)" using Inr jd by simp
        then have "s' = s\<lparr>sys_db := d\<rparr>" using assms(2) dispatch by simp
        then show ?thesis using delivery_dispatch [OF assms(1) res] by simp
      qed
    qed (use assms dispatch in simp)
  next
    case publish
    obtain r d q where res: "publish_event now delay str_exc i (sys_db s, sys_broker s) = (r, (d, q))"
      by (metis prod.exhaust)
    then have "s' = s\<lparr>sys_db := d, sys_broker := q\<rparr>" using assms(2) publish by simp
    then show ?thesis using delivery_publish [OF assms(1) res] by simp
  next
    case other
    note o = outbox_event [OF v assms(2) other]
    have same: "set (outbox (sys_db s')) = set (outbox (sys_db s))" using o(1) by (rule mset_eq_setD)
    have "evolves (\<lambda>s t. late_moves s t \<and> t \<noteq> QUEUED) (jobs (sys_db s)) (jobs (sys_db s'))"
      by (rule evolves_event_gen [OF v assms(2)]) (use other in \<open>auto simp: late_moves_def\<close>)
    then have "\<exists>j \<in> set (jobs (sys_db s)). job_id j = job_id j' \<and> job_status j = QUEUED \<and> queued_at j' = queued_at j"
      if "j' \<in> set (jobs (sys_db s'))" "job_status j' = QUEUED" for j'
      using that unfolding evolves_def comes_from_def by (metis JobStatus.distinct(1))
    then have "\<forall>j' \<in> set (jobs (sys_db s')). job_status j' = QUEUED \<longrightarrow>
        (\<exists>ev \<in> set (outbox (sys_db s')). own_event j' ev)"
      using assms(1) unfolding delivery_def same own_event_def by metis
    moreover have "sent_events k (outbox (sys_db s')) \<le> count_list (sys_broker s') k" for k
      using assms(1) o(2) [of k] sent_events_mset [OF o(1), of k] unfolding delivery_def by (metis order_trans)
    ultimately show ?thesis using assms(1) inv_event [OF v assms(2)] same by (simp add: delivery_def)
  qed
qed

interpretation delivery: run_invariant any_event delivery
proof
  show "delivery init_sys"
    using inv_init by (simp add: delivery_def init_sys_def) (simp add: empty_db_def sent_events_def rows_count_def)
qed (rule delivery_event)

end
