(* ===== verification/Scenarios.thy ===== *)
theory Scenarios
  imports Capacity Delivery
begin

text \<open>
  Concrete runs of the system, evaluated: they show that the hypotheses of the properties can
  hold, and what happens when the reaper is not timely.
\<close>

definition plain_env :: "time \<Rightarrow> uuid \<Rightarrow> dispatch_env" where
  "plain_env now i = \<lparr>de_now = now, de_locked = (\<lambda>_. False), de_reservation_id = i,
     de_lease_token = i, de_outbox_id = i, de_outbox_created = now, de_lock_now = (\<lambda>_. now),
     de_lock_id = (\<lambda>_. i), de_lock_token = (\<lambda>_. i), de_str = (\<lambda>_. [])\<rparr>"

definition plain_submission :: "json \<Rightarrow> submission" where
  "plain_submission p = (submission_defaults 1 ''REPORTS'')\<lparr>sub_payload := p\<rparr>"

definition one_slot :: tenant_input where
  "one_slot = \<lparr>ti_name = Some ''acme'', ti_is_active = None, ti_max_concurrent_jobs = Some 1\<rparr>"

text \<open>Two jobs that want the same resource; the first is dispatched, published and claimed.\<close>

definition locked_payload :: json where
  "locked_payload = JObj [(''overlap_key'', JStr ''ledger'')]"

definition demo_events :: "event list" where
  "demo_events =
     [Create_Tenant 1 one_slot,
      Submit 0 11 ''k11'' (plain_submission locked_payload),
      Submit 1 12 ''k12'' (plain_submission locked_payload),
      Refresh 2 1,
      Dispatch (plain_env 3 31) 1,
      Publish 4 (\<lambda>_. None) (\<lambda>_. []) 31,
      Claim 5 ''host'' 51 11]"

definition demo :: sys where
  "demo = the (run_events steady demo_events init_sys)"

lemmas run_defs = one_slot_def any_event_def steady_def limits_kept_def create_tenant_def
  apply_tenant_input_def Let_def db_of_def tx_def init_sys_def empty_db_def smallint_max_def
  submit_job_def plain_submission_def submission_defaults_def effective_key_def row_first_def
  insert_job_def submitted_job_def refresh_scheduler_state_def get_or_create_scheduler_state_def
  get_scheduler_state_def row_get_def new_scheduler_state_def save_scheduler_state_def
  rows_update_def rows_delete_def rows_count_def ready_def waiting_def dispatch_order_def
  dispatch_next_def get_tenant_def dispatch_candidates_def CANDIDATE_LIMIT_def plain_env_def
  locked_payload_def json_get_def acquire_overlap_def insert_overlap_lock_def lock_conflict_def
  new_overlap_lock_def char_field_def reserve_job_def insert_reservation_def new_reservation_def
  save_job_def insert_outbox_def new_outbox_event_def timedelta_minutes_def timedelta_seconds_def
  publish_event_def publish_event_body_def get_outbox_def save_outbox_def claim_job_def
  insert_attempt_def get_attempt_def get_job_def save_attempt_def complete_job_def
  release_capacity_def release_overlaps_def fail_job_eq finalize_failure_eq fail_row_tx_def
  reconcile_attempt_def retries_def failed_row_def retry_delay_def worker_lease_expired_def
  get_or_create_dead_letter_def new_dead_letter_def insert_dead_letter_def dead_letter_reason_def
  promote_ready_retries_def promote_def due_retries_def cancel_job_def expired_attempts_def
  occupied_def occupying_def

lemma demo_run: "run_events steady demo_events init_sys = Some demo"
  by (simp add: demo_def demo_events_def run_defs)

lemma demo_reachable: "reachable steady demo" "reachable timely demo" "reachable any_event demo"
  using run_events_reachable [OF demo_run] steady_timely reachable_any by blast+

lemma demo_tables:
  "tenants (sys_db demo) = [\<lparr>ten_id = 1, ten_name = ''acme'', is_active = True, max_concurrent_jobs = 1\<rparr>]"
  "map job_id (jobs (sys_db demo)) = [11, 12]"
  "map job_status (jobs (sys_db demo)) = [EXECUTING, WAITING]"
  "map res_job (reservations (sys_db demo)) = [11]"
  "sys_broker demo = [11]" "sys_workers demo = [51]"
  "occupied 1 (jobs (sys_db demo)) = 1"
  by (simp_all add: demo_def demo_events_def run_defs)

section \<open>A worker slower than its lease\<close>

text \<open>
  Three jobs of a tenant with one slot. The worker of the first runs for longer than the lease
  without a heartbeat, as every handler of the repository does; the reaper abandons its attempt
  and frees the slot, the second job is dispatched into it; then the first worker finishes and
  frees the slot again, although the second job is still in it, and the third job is dispatched.
\<close>

definition seconds :: "int \<Rightarrow> time" where
  "seconds n = timedelta_seconds n"

definition slow_start :: "event list" where
  "slow_start =
     [Create_Tenant 1 one_slot,
      Submit (seconds 0) 11 ''k11'' (plain_submission (JObj [])),
      Submit (seconds 0) 12 ''k12'' (plain_submission (JObj [])),
      Submit (seconds 0) 13 ''k13'' (plain_submission (JObj [])),
      Refresh (seconds 0) 1,
      Dispatch (plain_env (seconds 1) 31) 1,
      Publish (seconds 2) (\<lambda>_. None) (\<lambda>_. []) 31,
      Claim (seconds 3) ''host'' 51 11]"

definition slow_rest :: "event list" where
  "slow_rest =
     [Reap (seconds 304) (seconds 304) 91 51,
      Dispatch (plain_env (seconds 305) 32) 1,
      Complete (seconds 306) 51 JNull,
      Dispatch (plain_env (seconds 307) 33) 1]"

definition slow_claimed :: sys where
  "slow_claimed = the (run_events any_event slow_start init_sys)"

definition slow_end :: sys where
  "slow_end = the (run_events any_event slow_rest slow_claimed)"

lemma slow_claimed_run: "run_events any_event slow_start init_sys = Some slow_claimed"
  by (simp add: slow_claimed_def slow_start_def seconds_def run_defs)

lemma slow_claimed_timely: "reachable timely slow_claimed"
proof -
  have "run_events timely slow_start init_sys = Some slow_claimed"
    by (simp add: slow_claimed_def slow_start_def seconds_def run_defs)
  then show ?thesis by (rule run_events_reachable)
qed

lemma slow_end_run: "run_events any_event slow_rest slow_claimed = Some slow_end"
  by (simp add: slow_end_def slow_rest_def slow_claimed_def slow_start_def seconds_def run_defs)

lemma slow_end_reachable: "reachable any_event slow_end"
  using later_reachable [OF run_events_later [OF slow_end_run] run_events_reachable [OF slow_claimed_run]] .

text \<open>
  The same start, with the retry of the abandoned job claimed by a second worker while the first
  is still at it.
\<close>

definition twice_start :: "event list" where
  "twice_start =
     [Reap (seconds 304) (seconds 304) 91 51,
      Promote (seconds 310) (\<lambda>_. False) (\<lambda>_. seconds 310) 100,
      Cancel_Job (seconds 310) 12,
      Cancel_Job (seconds 310) 13,
      Dispatch (plain_env (seconds 311) 32) 1,
      Publish (seconds 312) (\<lambda>_. None) (\<lambda>_. []) 32,
      Claim (seconds 313) ''host'' 52 11]"

definition twice_claimed :: sys where
  "twice_claimed = the (run_events any_event (slow_start @ twice_start) init_sys)"

lemmas twice_defs = twice_claimed_def twice_start_def slow_start_def seconds_def

lemma twice_claimed_reachable: "reachable any_event twice_claimed"
proof -
  have "run_events any_event (slow_start @ twice_start) init_sys = Some twice_claimed"
    by (simp add: twice_defs run_defs)
  then show ?thesis by (rule run_events_reachable)
qed

section \<open>Other ends\<close>

text \<open>The first job of \<open>demo\<close> fails for good; a publication fails.\<close>

definition dead_events :: "event list" where
  "dead_events = [Fail 6 91 [] (\<lambda>_. []) 51 (PermanentJobError ''no'') PERMANENT]"

definition dead_demo :: sys where
  "dead_demo = the (run_events steady dead_events demo)"

lemma dead_demo_run: "run_events steady dead_events demo = Some dead_demo"
  by (simp add: dead_demo_def dead_events_def demo_def demo_events_def run_defs)

lemma dead_demo_timely: "reachable timely dead_demo"
  using later_reachable [OF run_events_later [OF dead_demo_run] demo_reachable(1)]
  by (rule steady_timely)

lemma dead_demo_reachable: "reachable any_event dead_demo"
  using dead_demo_timely by (rule reachable_any)

definition failed_publish :: "event list" where
  "failed_publish =
     [Create_Tenant 1 one_slot,
      Submit 0 11 ''k11'' (plain_submission (JObj [])),
      Refresh 1 1,
      Dispatch (plain_env 2 31) 1,
      Publish 3 (\<lambda>_. Some (BrokerError ''down'')) (\<lambda>_. ''down'') 31,
      Publish 4 (\<lambda>_. Some (BrokerError ''down'')) (\<lambda>_. ''down'') 31]"

text \<open>Three jobs wait, of the priorities 4, 1 and 3, for two slots.\<close>

definition prioritised :: "int \<Rightarrow> submission" where
  "prioritised p = (plain_submission (JObj []))\<lparr>sub_priority := p\<rparr>"

definition two_slots :: tenant_input where
  "two_slots = \<lparr>ti_name = Some ''acme'', ti_is_active = None, ti_max_concurrent_jobs = None\<rparr>"

definition waiting_events :: "event list" where
  "waiting_events =
     [Create_Tenant 1 two_slots,
      Submit 0 11 ''k11'' (prioritised 4),
      Submit 1 12 ''k12'' (prioritised 1),
      Submit 2 13 ''k13'' (prioritised 3),
      Refresh 3 1]"

definition waiting_sys :: sys where
  "waiting_sys = the (run_events steady waiting_events init_sys)"

definition waiting_db :: db where
  "waiting_db = sys_db (the (run_events steady waiting_events init_sys))"

lemmas waiting_defs = waiting_sys_def waiting_db_def waiting_events_def two_slots_def prioritised_def

lemma waiting_run: "run_events steady waiting_events init_sys = Some waiting_sys"
  by (simp add: waiting_defs run_defs)

lemma waiting_db_inv: "inv waiting_db"
  using weak.good_reachable [OF reachable_any [OF run_events_reachable [OF waiting_run]]]
  by (simp add: waiting_sys_def waiting_db_def)

text \<open>Two tenants with ready work; the first one's job has a list as its payload.\<close>

definition poison_events :: "event list" where
  "poison_events =
     [Create_Tenant 1 two_slots,
      Create_Tenant 2 two_slots,
      Submit 0 11 ''k11'' (plain_submission (JList [])),
      Submit 1 12 ''k12'' ((plain_submission (JObj []))\<lparr>sub_tenant := 2\<rparr>),
      Refresh 2 1,
      Refresh 3 2]"

definition poisoned :: sys where
  "poisoned = the (run_events steady poison_events init_sys)"

lemmas poison_defs = poisoned_def poison_events_def two_slots_def

text \<open>The start of \<open>demo\<close>, up to its dispatch.\<close>

definition queued_db :: db where
  "queued_db = sys_db (the (run_events steady (take 5 demo_events) init_sys))"

lemmas queued_defs = queued_db_def demo_events_def

lemma queued_db_inv: "inv queued_db"
proof -
  obtain s where s: "run_events steady (take 5 demo_events) init_sys = Some s"
    by (simp add: queued_defs run_defs)
  then have "inv (sys_db s)" by (intro weak.good_reachable reachable_any [OF run_events_reachable])
  then show ?thesis by (simp add: queued_db_def s)
qed

end
