(* ===== verification/Outcomes.thy ===== *)
theory Outcomes
  imports Scenarios
begin

text \<open>
  What the services do once a job has left the happy path, as properties of single calls: the
  failure of an attempt and its two implementations, cancellation, the return of retries, replay,
  the outbox batch, the reaper and the heartbeat.
\<close>

lemma occupying_has_state:
  assumes "inv d" "job \<in> set (jobs d)" "occupying (job_status job)"
  shows "has_state (job_tenant job) d"
proof -
  note slots = invD(3) [OF assms(1), unfolded slots_ok_def]
  obtain v where v: "v \<in> set (reservations d)" "res_job v = job_id job" using slots assms(2,3) by blast
  then obtain j where j: "j \<in> set (jobs d)" "job_id j = job_id job" "job_tenant j = res_tenant v"
    using slots by metis
  have "j = job" using only_row [OF assms(1,2)] j(1,2) by blast
  then show ?thesis using slots v(1) j(3) unfolding has_state_def by metis
qed

section \<open>Failure\<close>

text \<open>
  C20. A reported failure is always recorded, and this is all it writes: the attempt is FAILED
  with its diagnosis; the job waits 3, 5 or 10 seconds for its next try after the first, second
  or third attempt of a failure that is not permanent, and is FAILED_FINAL with one dead letter
  otherwise; its slot and its locks are free again.
\<close>

theorem failure_recorded:
  assumes "inv d" "a \<in> set (attempts d)" "job \<in> set (jobs d)" "job_id job = att_job a"
    and "\<forall>x \<in> set (dead_letters d). dl_id x \<noteq> i"
  shows "\<exists>d'. fail_job now i tb lib (att_id a) exc ft d = Inr d'
    \<and> jobs d' = rows_update (\<lambda>j. job_id j = job_id job) (failed_row now ft (exc_str lib exc)) (jobs d)
    \<and> attempts d' = rows_update (\<lambda>b. att_id b = att_id a)
         (\<lambda>b. b\<lparr>att_status := ATT_FAILED, failure_type := Some ft,
            att_error_message := Some (exc_str lib exc), att_traceback := Some tb,
            finished_at := Some now\<rparr>) (attempts d)
    \<and> dead_letters d' = dead_letters d @ (if dead_lettered ft job d
         then [new_dead_letter i job (dead_letter_reason ft) (exc_str lib exc)] else [])
    \<and> reservations d' = filter (\<lambda>r. res_job r \<noteq> job_id job) (reservations d)
    \<and> overlap_locks d' = filter (\<lambda>l. lock_job l \<noteq> job_id job) (overlap_locks d)
    \<and> scheduler_states d' = rows_update (\<lambda>s. ss_tenant s = job_tenant job)
         (\<lambda>s. s\<lparr>active_reservations := active_reservations s - 1\<rparr>) (scheduler_states d)
    \<and> outbox d' = outbox d \<and> tenants d' = tenants d"
  using fail_total [OF assms, of now tb lib exc ft]
  by (simp add: failed_db_def dead_lettered_def rows_delete_def failed_attempt_def [abs_def])

theorem failure_recorded_witness:
  "\<exists>d'. fail_job 6 91 [] (\<lambda>_. []) 51 (RetryableJobError ''no'') TRANSIENT (sys_db demo) = Inr d'
     \<and> map job_status (jobs d') = [RETRY_WAIT, WAITING]
     \<and> available_at (hd (jobs d')) = 6 + timedelta_seconds 3 \<and> dead_letters d' = []"
proof -
  have v: "inv (sys_db demo)" by (rule weak.good_reachable [OF demo_reachable(3)])
  have j: "hd (jobs (sys_db demo)) \<in> set (jobs (sys_db demo))" "hd (attempts (sys_db demo)) \<in> set (attempts (sys_db demo))"
    "job_id (hd (jobs (sys_db demo))) = att_job (hd (attempts (sys_db demo)))"
    "att_id (hd (attempts (sys_db demo))) = 51" "job_id (hd (jobs (sys_db demo))) = 11"
    "dead_letters (sys_db demo) = []" "retries TRANSIENT (hd (jobs (sys_db demo)))"
    by (simp_all add: demo_def demo_events_def run_defs retries_def)
  have "map job_status (rows_update (\<lambda>j. job_id j = 11) (failed_row 6 TRANSIENT ''no'') (jobs (sys_db demo)))
      = [RETRY_WAIT, WAITING]"
    "available_at (hd (rows_update (\<lambda>j. job_id j = 11) (failed_row 6 TRANSIENT ''no'') (jobs (sys_db demo))))
      = 6 + timedelta_seconds 3"
    by (simp_all add: demo_def demo_events_def run_defs failed_row_def retries_def retry_delay_def)
  with failure_recorded [OF v j(2,1,3), of 91 6 "[]" "\<lambda>_. []" "RetryableJobError ''no''" TRANSIENT] j(4-7)
  show ?thesis by (auto simp: dead_lettered_def)
qed

lemma get_job_save_attempt [simp]: "get_job k (save_attempt i f d) = get_job k d"
  by (simp add: get_job_def save_attempt_def)

lemma get_or_create_save_attempt:
  "get_or_create_dead_letter x (save_attempt k f d)
     = result_bind (get_or_create_dead_letter x d) (\<lambda>d1. Inr (save_attempt k f d1))"
  by (auto simp: get_or_create_dead_letter_def insert_dead_letter_def save_attempt_def
      split: sum.splits exn.splits)

lemma release_save_attempt:
  "release_capacity job (save_attempt k f d)
     = result_bind (release_capacity job d) (\<lambda>d1. Inr (save_attempt k f d1))"
  by (auto simp: release_capacity_def release_overlaps_def save_attempt_def get_scheduler_state_def
      save_scheduler_state_def Let_def result_bind_def split: sum.splits)

lemma fail_row_save_attempt:
  "fail_row_tx now i job ft m (save_attempt k f d)
     = result_bind (fail_row_tx now i job ft m d) (\<lambda>d1. Inr (save_attempt k f d1))"
proof -
  have swap: "save_job j g (save_attempt k f x) = save_attempt k f (save_job j g x)" for j g x
    by (simp add: save_job_def save_attempt_def)
  show ?thesis
    by (simp add: fail_row_tx_def get_or_create_save_attempt swap release_save_attempt
        result_bind_def split: sum.splits)
qed

lemma save_attempt_twice:
  "att_id x = k \<Longrightarrow> save_attempt k g (save_attempt k (\<lambda>_. x) d) = save_attempt k (\<lambda>_. g x) d"
  by (simp add: save_attempt_def rows_update_def)

text \<open>
  C21. The two implementations of failing an attempt agree: \<open>execution.fail_job\<close> does what
  \<open>failure.fail_attempt\<close> does, for every job, failure and database, and also stores the traceback.
\<close>

theorem fail_paths_agree:
  "fail_job now i tb lib aid exc ft d
     = result_bind (fail_attempt now now i lib aid exc ft d)
         (\<lambda>d1. Inr (save_attempt aid (\<lambda>b. b\<lparr>att_traceback := Some tb\<rparr>) d1))"
proof (cases "get_attempt aid d")
  case (Inr a)
  then have "att_id a = aid" by (auto simp: get_attempt_def dest: row_get_Inr_D)
  moreover have "save_attempt aid (\<lambda>_. b\<lparr>finished_at := f, att_traceback := t\<rparr>) d
      = save_attempt aid (\<lambda>_. b\<lparr>att_traceback := t, finished_at := f\<rparr>) d" for b t f
    by (rule arg_cong [where f = "\<lambda>x. save_attempt aid (\<lambda>_. x) d"]) simp
  ultimately show ?thesis
    by (cases "get_job (att_job a) d")
      (simp_all add: fail_job_eq fail_attempt_def finalize_failure_eq Inr Let_def
        fail_row_save_attempt [symmetric] save_attempt_twice)
qed (simp add: fail_job_eq fail_attempt_def)

section \<open>Cancellation\<close>

text \<open>
  C22. Cancelling by status: a job that waits or is queued is CANCELLED, one that executes is asked
  to stop, one in a final status stays as it is; only a queued job gives its slot and its locks
  back; and a second cancellation finds nothing left to do. It never raises for a stored job.
\<close>

theorem cancellation:
  assumes "inv d" "job \<in> set (jobs d)"
  shows "\<exists>d'. cancel_job now (job_id job) d = Inr (cancel_row now job, d')
    \<and> jobs d' = rows_update (\<lambda>j. job_id j = job_id job) (cancel_row now) (jobs d)
    \<and> (if job_status job = QUEUED
       then reservations d' = filter (\<lambda>r. res_job r \<noteq> job_id job) (reservations d)
          \<and> overlap_locks d' = filter (\<lambda>l. lock_job l \<noteq> job_id job) (overlap_locks d)
          \<and> scheduler_states d' = rows_update (\<lambda>s. ss_tenant s = job_tenant job)
              (\<lambda>s. s\<lparr>active_reservations := active_reservations s - 1\<rparr>) (scheduler_states d)
       else reservations d' = reservations d \<and> overlap_locks d' = overlap_locks d
          \<and> scheduler_states d' = scheduler_states d)
    \<and> attempts d' = attempts d \<and> outbox d' = outbox d \<and> dead_letters d' = dead_letters d
    \<and> cancel_job now' (job_id job) d' = Inr (cancel_row now job, d')"
proof -
  note k = invD(1) [OF assms(1)]
  let ?d = "save_job (job_id job) (cancel_row now) d"
  let ?d' = "if job_status job = QUEUED then released job ?d else ?d"
  have state: "has_state (job_tenant job) d" if "job_status job = QUEUED"
    using occupying_has_state [OF assms] that by (simp add: occupying_def)
  have first: "cancel_job now (job_id job) d = Inr (cancel_row now job, ?d')"
    using cancel_job_eq [OF keyedD(1) [OF k] keyedD(3) [OF k], of "job_id job" job now] state assms(2) k
    by simp
  have k': "keyed ?d'" using k by (simp add: keyed_released)
  have jobs: "jobs ?d' = rows_update (\<lambda>j. job_id j = job_id job) (cancel_row now) (jobs d)" by simp
  have mem: "cancel_row now job \<in> set (jobs ?d')"
    unfolding jobs set_rows_update image_iff using assms(2) by (intro bexI [of _ job]) simp_all
  have idem: "cancel_row now' (cancel_row now job) = cancel_row now job"
    by (cases "job_status job") (simp_all add: cancel_row_def)
  have "save_job (job_id job) (cancel_row now') ?d' = save_job (job_id job) (\<lambda>r. r) ?d'"
    using save_job_cong [OF keyedD(1) [OF k'] mem, of "cancel_row now'" "\<lambda>r. r"] idem by simp
  also have "\<dots> = ?d'" by (simp add: save_job_def rows_update_def)
  finally have "save_job (job_id job) (cancel_row now') ?d' = ?d'" .
  moreover have "job_status (cancel_row now job) \<noteq> QUEUED" by (cases "job_status job") simp_all
  ultimately have "cancel_job now' (job_id job) ?d' = Inr (cancel_row now job, ?d')"
    using cancel_job_eq [OF keyedD(1) [OF k'] keyedD(3) [OF k'], of "job_id job" "cancel_row now job" now']
      mem idem k' by simp
  with first show ?thesis by (intro exI [of _ ?d']) (simp add: rows_delete_def)
qed

theorem cancellation_witness:
  "\<exists>j d'. cancel_job 9 11 queued_db = Inr (j, d') \<and> job_status j = CANCELLED
     \<and> cancel_job 10 11 d' = Inr (j, d')"
proof -
  have "hd (jobs queued_db) \<in> set (jobs queued_db)" "job_status (hd (jobs queued_db)) = QUEUED"
    "job_id (hd (jobs queued_db)) = 11"
    by (simp_all add: queued_defs run_defs)
  then show ?thesis
    using cancellation [OF queued_db_inv, of "hd (jobs queued_db)" 9 10] by auto
qed

section \<open>Work made ready\<close>

text \<open>
  What the scheduler reads for a tenant after a refresh: the flag says whether a job of the
  tenant was ready.
\<close>

definition flagged :: "uuid \<Rightarrow> bool \<Rightarrow> db \<Rightarrow> bool" where
  "flagged t b d \<longleftrightarrow> (\<exists>s \<in> set (scheduler_states d). ss_tenant s = t \<and> has_ready_work s = b)"

lemma refresh_flag:
  assumes "refresh_scheduler_state now t d = Inr d'"
  shows "flagged t (\<exists>j \<in> set (jobs d). ready t now j) d'"
  using assms
proof (cases rule: refresh_cases)
  case (existing s)
  then have "s \<in> set (scheduler_states d)" "ss_tenant s = t"
    by (auto simp: get_scheduler_state_def dest: row_get_Inr_D)
  then have "readiness now t (jobs d) s \<in> set (scheduler_states d')"
    unfolding existing(2) save_scheduler_state_def
    by (simp add: set_rows_update)
  then show ?thesis unfolding flagged_def
    using \<open>ss_tenant s = t\<close> by (intro bexI [of _ "readiness now t (jobs d) s"]) simp_all
next
  case new
  have "ss_tenant (new_scheduler_state t) = t" by (simp add: new_scheduler_state_def)
  then show ?thesis unfolding flagged_def new(2)
    by (intro bexI [of _ "readiness now t (jobs d) (new_scheduler_state t)"]) simp_all
qed

lemma refresh_distinct:
  assumes "distinct (map ss_tenant (scheduler_states d))"
  shows "\<exists>d'. refresh_scheduler_state now t d = Inr d'"
proof (cases "get_scheduler_state t d")
  case (Inl e)
  then have "e = DoesNotExist"
    using row_get_Inl_distinct(1) [OF assms] by (simp add: get_scheduler_state_def)
  with Inl refresh_new show ?thesis by blast
qed (use refresh_existing in blast)

lemma refresh_flag_other:
  assumes "refresh_scheduler_state now t d = Inr d'" "flagged u b d" "u \<noteq> t"
  shows "flagged u b d'"
  using assms(1)
proof (cases rule: refresh_cases)
  case (existing s)
  obtain x where x: "x \<in> set (scheduler_states d)" "ss_tenant x = u" "has_ready_work x = b"
    using assms(2) unfolding flagged_def by blast
  then have "x \<in> set (scheduler_states d')"
    using mem_upd_other [OF x(1), of "\<lambda>r. ss_tenant r = t"] assms(3)
    by (simp add: existing(2) save_scheduler_state_def)
  then show ?thesis using x unfolding flagged_def by blast
next
  case new
  then show ?thesis using assms(2) unfolding flagged_def by auto
qed

lemma refresh_all_flags:
  assumes "try_each (\<lambda>t. refresh_scheduler_state (rnow t) t) ts d = Inr d'" "t \<in> set ts"
  shows "flagged t (\<exists>j \<in> set (jobs d). ready t (rnow t) j) d'"
  using assms
proof (induction ts arbitrary: d)
  case (Cons u ts)
  then obtain d1 where d1: "refresh_scheduler_state (rnow u) u d = Inr d1"
    and rest: "try_each (\<lambda>t. refresh_scheduler_state (rnow t) t) ts d1 = Inr d'"
    by (auto simp: result_bind_eq_Inr)
  have jobs: "jobs d1 = jobs d" using d1 by (rule refresh_frame)
  show ?case
  proof (cases "t \<in> set ts")
    case True
    then show ?thesis using Cons.IH [OF rest] jobs by simp
  next
    case False
    then have "t = u" using Cons.prems(2) by simp
    then have "flagged t (\<exists>j \<in> set (jobs d). ready t (rnow t) j) d1" using refresh_flag [OF d1] by simp
    moreover have "flagged t b d'" if f: "flagged t b d1" for b
      by (rule try_each_invariant [where I = "flagged t b", OF _ f rest])
        (use False in \<open>auto elim!: refresh_flag_other\<close>)
    ultimately show ?thesis by blast
  qed
qed simp

lemma refresh_all_total: "inv d \<Longrightarrow> \<exists>d'. try_each (\<lambda>t. refresh_scheduler_state (rnow t) t) ts d = Inr d'"
proof (induction ts arbitrary: d)
  case (Cons t ts)
  then obtain d1 where "refresh_scheduler_state (rnow t) t d = Inr d1" "inv d1"
    using refresh_total [OF invD(1)] inv_refresh by metis
  with Cons.IH [of d1] show ?case by simp
qed simp

lemma take_sort_least:
  fixes key :: "'a \<Rightarrow> 'k::linorder"
  assumes "x \<in> set (take n (sort_key key xs))" "y \<in> set xs" "y \<notin> set (take n (sort_key key xs))"
  shows "key x \<le> key y"
proof -
  let ?s = "sort_key key xs"
  have "y \<in> set (take n ?s @ drop n ?s)" using assms(2) by simp
  then have "y \<in> set (drop n ?s)" unfolding set_append using assms(3) by blast
  moreover have "sorted (map key (take n ?s) @ map key (drop n ?s))"
    unfolding map_append [symmetric] append_take_drop_id by simp
  ultimately show ?thesis using assms(1) unfolding sorted_append by simp
qed

text \<open>
  C23. The promotion of retries is exact: the batch never fails; it makes WAITING the jobs whose
  backoff is over and that no other transaction holds, at most \<open>limit\<close> of them and those due first,
  changes no other job, counts them, and leaves each of their tenants flagged for the scheduler.
\<close>

theorem promotion:
  assumes "inv d" "\<And>t. now \<le> rnow t"
  shows "\<exists>d'. promote_ready_retries now locked rnow limit d = Inr (length (due_retries now locked limit d), d')
    \<and> jobs d' = rows_update (\<lambda>r. job_id r \<in> job_id ` set (due_retries now locked limit d))
        (\<lambda>r. r\<lparr>job_status := WAITING, ready_since := now\<rparr>) (jobs d)
    \<and> length (due_retries now locked limit d) \<le> limit
    \<and> (\<forall>j \<in> set (jobs d). job_status j = RETRY_WAIT \<and> available_at j \<le> now \<and> \<not> locked (job_id j)
         \<and> j \<notin> set (due_retries now locked limit d) \<longrightarrow>
         (\<forall>p \<in> set (due_retries now locked limit d). available_at p \<le> available_at j))
    \<and> (\<forall>p \<in> set (due_retries now locked limit d). flagged (job_tenant p) True d')
    \<and> attempts d' = attempts d \<and> reservations d' = reservations d
    \<and> overlap_locks d' = overlap_locks d \<and> outbox d' = outbox d \<and> dead_letters d' = dead_letters d"
proof -
  let ?js = "due_retries now locked limit d"
  let ?d1 = "fold (promote now) ?js d"
  let ?ts = "remdups (map job_tenant ?js)"
  obtain d' where d': "try_each (\<lambda>t. refresh_scheduler_state (rnow t) t) ?ts ?d1 = Inr d'"
    using refresh_all_total [OF inv_promote_fold [OF assms(1)]] by blast
  then have run: "promote_ready_retries now locked rnow limit d = Inr (length ?js, d')"
    by (simp add: promote_ready_retries_def Let_def)
  have flags: "flagged (job_tenant p) True d'" if p: "p \<in> set ?js" for p
  proof -
    let ?p = "p\<lparr>job_status := WAITING, ready_since := now\<rparr>"
    have mem: "?p \<in> set (jobs ?d1)"
      unfolding jobs_promote_fold set_rows_update image_iff
      using p due_retries_mem(1) [OF p] by (intro bexI [of _ p]) auto
    have "available_at p \<le> rnow (job_tenant p)"
      using due_retries_mem(3) [OF p] assms(2) [of "job_tenant p"] by linarith
    then have "ready (job_tenant p) (rnow (job_tenant p)) ?p" by (simp add: ready_def)
    then have "(\<exists>j \<in> set (jobs ?d1). ready (job_tenant p) (rnow (job_tenant p)) j) = True"
      using mem by blast
    then show ?thesis using refresh_all_flags [OF d', of "job_tenant p"] p by simp
  qed
  have least: "available_at p \<le> available_at j"
    if "j \<in> set (jobs d)" "job_status j = RETRY_WAIT" "available_at j \<le> now" "\<not> locked (job_id j)"
      "j \<notin> set ?js" "p \<in> set ?js" for j p
    using take_sort_least [of p limit available_at "filter (\<lambda>j. job_status j = RETRY_WAIT
      \<and> available_at j \<le> now \<and> \<not> locked (job_id j)) (jobs d)" j] that by (simp add: due_retries_def)
  have "length ?js \<le> limit" by (simp add: due_retries_def)
  then show ?thesis
    using run flags least promote_ready_retries_Inr [OF run] by (intro exI [of _ d']) simp
qed

definition backed_off :: sys where
  "backed_off = the (run_events any_event
     [Fail 6 91 [] (\<lambda>_. []) 51 (RetryableJobError ''no'') TRANSIENT] demo)"

lemma backed_off_inv: "inv (sys_db backed_off)"
proof -
  obtain s where s: "run_events any_event
      [Fail 6 91 [] (\<lambda>_. []) 51 (RetryableJobError ''no'') TRANSIENT] demo = Some s"
    by (simp add: demo_def demo_events_def run_defs)
  from later_reachable [OF run_events_later [OF s] demo_reachable(3)]
  have "inv (sys_db s)" by (rule weak.good_reachable)
  then show ?thesis using s by (simp add: backed_off_def)
qed

theorem promotion_witness:
  "\<exists>d'. promote_ready_retries (6 + timedelta_seconds 3) (\<lambda>_. False) (\<lambda>_. 7 + timedelta_seconds 3) 100
       (sys_db backed_off) = Inr (1, d') \<and> flagged 1 True d'"
proof -
  have due: "map job_id (due_retries (6 + timedelta_seconds 3) (\<lambda>_. False) 100 (sys_db backed_off)) = [11]"
    "map job_tenant (due_retries (6 + timedelta_seconds 3) (\<lambda>_. False) 100 (sys_db backed_off)) = [1]"
    by (simp_all add: backed_off_def demo_def demo_events_def run_defs due_retries_def)
  then obtain p where "due_retries (6 + timedelta_seconds 3) (\<lambda>_. False) 100 (sys_db backed_off) = [p]"
    "job_tenant p = 1" by auto
  then show ?thesis
    using promotion [OF backed_off_inv, of "6 + timedelta_seconds 3" "\<lambda>_. 7 + timedelta_seconds 3"
        "\<lambda>_. False" 100] by auto
qed

section \<open>Replay\<close>

text \<open>
  C24. A replay always succeeds with a fresh key and key text, whatever the state of the dead letter:
  it appends one WAITING job with the source's tenant, type, priority and payload and no attempts,
  marks the letter, flags the tenant, and touches neither the source nor any slot. In particular
  a letter that was REPLAYED before is replayed again.
\<close>

theorem replay:
  assumes "inv d" "x \<in> set (dead_letters d)" "source \<in> set (jobs d)" "job_id source = dl_job x"
    and "length (job_type source) \<le> 50" "0 \<le> priority source" "priority source \<le> int smallint_max"
    and "\<And>j. j \<in> set (jobs d) \<Longrightarrow> job_id j \<noteq> i"
    and "length g \<le> 255" "\<And>j. j \<in> set (jobs d) \<Longrightarrow> \<not> has_key (job_tenant source) g j"
    and "now \<le> rnow"
  shows "\<exists>d'. replay_dead_letter now rnow i g (dl_id x) d = Inr (cloned_job now i g source, d')
    \<and> jobs d' = jobs d @ [cloned_job now i g source]
    \<and> dead_letters d' = rows_update (\<lambda>y. dl_id y = dl_id x) (\<lambda>y. y\<lparr>dl_status := REPLAYED,
         replayed_job := Some i, replayed_at := Some now\<rparr>) (dead_letters d)
    \<and> flagged (job_tenant source) True d'
    \<and> attempts d' = attempts d \<and> reservations d' = reservations d
    \<and> overlap_locks d' = overlap_locks d \<and> outbox d' = outbox d"
proof -
  note k = invD(1) [OF assms(1)]
  let ?j = "cloned_job now i g source"
  let ?d1 = "d\<lparr>jobs := jobs d @ [?j]\<rparr>"
  let ?d2 = "save_dead_letter (dl_id x) (\<lambda>y. y\<lparr>dl_status := REPLAYED, replayed_job := Some i,
    replayed_at := Some now\<rparr>) ?d1"
  have ins: "insert_job ?j d = Inr ?d1"
    using assms(5-7,9) assms(8) assms(10) by (auto simp: insert_job_def has_key_def)
  have get: "get_dead_letter (dl_id x) d = Inr x" "get_job (dl_job x) d = Inr source"
    using k assms(2-4) by (simp_all add: get_dead_letter_def row_get_distinct keyedD)
  have "distinct (map ss_tenant (scheduler_states ?d2))"
    using keyedD(3) [OF k] by (simp add: save_dead_letter_def)
  then obtain d' where d': "refresh_scheduler_state rnow (job_tenant source) ?d2 = Inr d'"
    using refresh_distinct by blast
  have run: "replay_dead_letter now rnow i g (dl_id x) d = Inr (?j, d')"
    by (simp add: replay_dead_letter_def get Let_def ins d')
  have "ready (job_tenant source) rnow ?j" using assms(11) by (simp add: ready_def cloned_job_def)
  then have "(\<exists>j \<in> set (jobs ?d2). ready (job_tenant source) rnow j) = True"
    by (simp add: save_dead_letter_def)
  then have "flagged (job_tenant source) True d'" using refresh_flag [OF d'] by simp
  then show ?thesis
    using run refresh_frame [OF d'] by (intro exI [of _ d']) (simp add: save_dead_letter_def)
qed

theorem replay_witness:
  "\<exists>j d1 j' d2. replay_dead_letter 8 9 21 ''k21'' 91 (sys_db dead_demo) = Inr (j, d1)
     \<and> map dl_status (dead_letters d1) = [REPLAYED]
     \<and> replay_dead_letter 8 9 22 ''k22'' 91 d1 = Inr (j', d2) \<and> job_id j' = 22"
proof -
  obtain j d1 where jd: "replay_dead_letter 8 9 21 ''k21'' 91 (sys_db dead_demo) = Inr (j, d1)"
    "map dl_status (dead_letters d1) = [REPLAYED]" "map dl_id (dead_letters d1) = [91]"
    "map dl_job (dead_letters d1) = [11]" "map job_id (jobs d1) = [11, 12, 21]"
    "map idempotency_key (jobs d1) = [Some ''k11'', Some ''k12'', Some ''k21'']"
    "job_type (hd (jobs d1)) = ''REPORTS''" "priority (hd (jobs d1)) = 3"
    by (simp add: dead_demo_def dead_events_def demo_def demo_events_def run_defs replay_dead_letter_def
      get_dead_letter_def cloned_job_def save_dead_letter_def)
  have v: "inv d1"
    by (rule inv_replay [OF weak.good_reachable [OF dead_demo_reachable] jd(1)])
  obtain x where x: "dead_letters d1 = [x]" "dl_id x = 91" "dl_job x = 11" using jd(3,4) by auto
  obtain j0 j1 j2 where js: "jobs d1 = [j0, j1, j2]" using jd(5) by auto
  have "\<exists>d2. replay_dead_letter 8 9 22 ''k22'' (dl_id x) d1 = Inr (cloned_job 8 22 ''k22'' j0, d2)"
  proof -
    have fresh: "job_id j \<noteq> 22 \<and> \<not> has_key (job_tenant j0) ''k22'' j" if "j \<in> set (jobs d1)" for j
      using that js jd(5,6) by (auto simp: has_key_def)
    show ?thesis
      using replay [OF v, of x j0 22 "''k22''" 8 9] fresh x js jd(5-8)
      by (simp add: smallint_max_def) blast
  qed
  then show ?thesis using jd(1,2) x(2) by auto
qed

end
