(* ===== verification/Worker.thy ===== *)
theory Worker
  imports Scenarios
begin

text \<open>
  The worker's \<open>execute\<close> as a whole: what a handler may do to the database, the ends a run can
  have, and the run as a sequence of the system's events, so that the invariants of the system
  are invariants of the worker's code.
\<close>

text \<open>The events of a worker are steady ones: it neither reaps nor lowers a limit.\<close>

lemma steady_worker:
  "steady (Claim now host i jid) s" "steady (Complete now i v) s"
  "steady (Fail now i tb lib aid exc ft) s" "steady (Heartbeat_Attempt now i) s"
  "steady (Heartbeat_Reservation now i) s"
  by (simp_all add: steady_def limits_kept_def)

section \<open>Handlers that only send heartbeats\<close>

inductive only_heartbeats :: "db \<Rightarrow> db \<Rightarrow> bool" for d where
  quiet: "only_heartbeats d d"
| beat_attempt: "only_heartbeats d d1 \<Longrightarrow> only_heartbeats d (heartbeat_update_attempt now i d1)"
| beat_reservation: "only_heartbeats d d1 \<Longrightarrow> only_heartbeats d (heartbeat_update_reservation now j d1)"

text \<open>A handler that calls \<open>context.heartbeat()\<close> is of this kind.\<close>

lemma context_heartbeat_only:
  "only_heartbeats d d1 \<Longrightarrow> only_heartbeats d (snd (context_heartbeat now c d1))"
  by (auto simp: context_heartbeat_def heartbeat_def split: option.splits intro: only_heartbeats.intros)

lemma beats_inv: "only_heartbeats d d' \<Longrightarrow> inv d \<Longrightarrow> inv d'"
  by (induction rule: only_heartbeats.induct) (auto intro: inv_heartbeat_attempt inv_heartbeat_reservation)

lemma beats_frame:
  "only_heartbeats d d' \<Longrightarrow> jobs d' = jobs d \<and> dead_letters d' = dead_letters d
     \<and> scheduler_states d' = scheduler_states d \<and> overlap_locks d' = overlap_locks d
     \<and> map (\<lambda>a. (att_id a, att_job a)) (attempts d') = map (\<lambda>a. (att_id a, att_job a)) (attempts d)"
  by (induction rule: only_heartbeats.induct)
    (auto simp: heartbeat_updates_frame heartbeat_update_attempt_def map_rows_update)

lemma beats_attempt:
  assumes "only_heartbeats d d'" "a \<in> set (attempts d)"
  shows "\<exists>b \<in> set (attempts d'). att_id b = att_id a \<and> att_job b = att_job a"
proof -
  have "(att_id a, att_job a) \<in> set (map (\<lambda>a. (att_id a, att_job a)) (attempts d'))"
    using beats_frame [OF assms(1)] assms(2) by auto
  then show ?thesis by auto
qed

lemma beats_run:
  assumes "only_heartbeats (sys_db s) d"
  shows "\<exists>es. run_events steady es s = Some (s\<lparr>sys_db := d\<rparr>)"
  using assms
proof induction
  case quiet
  then show ?case by (intro exI [of _ "[]"]) simp
next
  case (beat_attempt d1 now i)
  then obtain es where "run_events steady es s = Some (s\<lparr>sys_db := d1\<rparr>)" by blast
  then show ?case
    by (intro exI [of _ "es @ [Heartbeat_Attempt now i]"])
      (simp add: run_events_append steady_worker)
next
  case (beat_reservation d1 now j)
  then obtain es where "run_events steady es s = Some (s\<lparr>sys_db := d1\<rparr>)" by blast
  then show ?case
    by (intro exI [of _ "es @ [Heartbeat_Reservation now j]"])
      (simp add: run_events_append steady_worker)
qed

section \<open>The ends of a run\<close>

text \<open>The worker's contract with the handlers of a registry.\<close>

locale heartbeat_handlers =
  fixes reg :: registry
  assumes handler_beats: "get_handler reg jt = Inr h \<Longrightarrow> only_heartbeats d (snd (h p c d))"
begin

lemma run_attempt_ends:
  obtains (done_) dm v d2 where "run_attempt env reg job a d = (Inr (), d2)" "only_heartbeats d dm"
      "complete_job (ex_complete_now env) (att_id a) v dm = Inr d2"
    | (raised) exc dm where "run_attempt env reg job a d = (Inl exc, dm)" "only_heartbeats d dm"
proof (cases "get_handler reg (job_type job)")
  case (Inl e)
  then show thesis using raised only_heartbeats.quiet by (simp add: run_attempt_def)
next
  case (Inr h)
  obtain r dm where h: "h (payload job) \<lparr>ctx_job = job, ctx_attempt = a\<rparr> d = (r, dm)"
    by (metis prod.exhaust)
  have beats: "only_heartbeats d dm" using handler_beats [OF Inr, of d "payload job"] h by (metis snd_conv)
  show thesis
  proof (cases r)
    case (Inl e)
    then show thesis using raised [of e dm] beats Inr h by (simp add: run_attempt_def)
  next
    case v: (Inr v)
    show thesis
    proof (cases "complete_job (ex_complete_now env) (att_id a) v dm")
      case (Inl e)
      then show thesis using raised [of e dm] beats Inr h v by (simp add: run_attempt_def)
    next
      case d2: (Inr d2)
      then show thesis using done_ [of d2 dm v] beats Inr h v by (simp add: run_attempt_def)
    qed
  qed
qed

lemma execute_ends:
  obtains (unclaimed) e where "execute env reg jid d = (Inl e, d)"
      "claim_job (ex_claim_now env) (ex_hostname env) (ex_attempt_id env) jid d = Inl e"
    | (skipped) "execute env reg jid d = (Inr (), d)"
      "claim_job (ex_claim_now env) (ex_hostname env) (ex_attempt_id env) jid d = Inr (None, d)"
    | (completed) a j d1 dm v d2 where "execute env reg jid d = (Inr (), d2)"
      "claim_job (ex_claim_now env) (ex_hostname env) (ex_attempt_id env) jid d = Inr (Some (a, j), d1)"
      "only_heartbeats d1 dm" "complete_job (ex_complete_now env) (att_id a) v dm = Inr d2"
    | (failed) a j d1 dm exc r where
      "execute env reg jid d = (case r of Inl e \<Rightarrow> (Inl e, dm) | Inr d3 \<Rightarrow> (Inr (), d3))"
      "claim_job (ex_claim_now env) (ex_hostname env) (ex_attempt_id env) jid d = Inr (Some (a, j), d1)"
      "only_heartbeats d1 dm"
      "fail_job (ex_fail_now env) (ex_dead_letter_id env) (ex_format_exc env) (ex_library_text env)
         (att_id a) exc (failure_type_of exc) dm = r"
proof (cases "claim_job (ex_claim_now env) (ex_hostname env) (ex_attempt_id env) jid d")
  case (Inl e)
  then show thesis using unclaimed by (simp add: execute_def)
next
  case (Inr x)
  obtain c d1 where x: "x = (c, d1)" by (cases x)
  show thesis
  proof (cases c)
    case None
    then have "d1 = d" using claim_job_None Inr x by blast
    then show thesis using skipped Inr x None by (simp add: execute_def)
  next
    case (Some aj)
    obtain a j where aj: "aj = (a, j)" by (cases aj)
    show thesis
    proof (cases rule: run_attempt_ends [of env j a d1])
      case (done_ dm v d2)
      then show thesis using completed [of d2 a j d1 dm v] Inr x Some aj by (simp add: execute_def)
    next
      case (raised exc dm)
      show thesis
        by (rule failed [OF _ _ raised(2) refl, where a = a and j = j and exc = exc])
          (use raised Inr x Some aj in \<open>simp_all add: execute_def\<close>)
    qed
  qed
qed

text \<open>Every delivery of a QUEUED job's message settles it.\<close>

lemma worker_settles:
  assumes "inv d" "job \<in> set (jobs d)" "job_status job = QUEUED"
    and fresh: "\<And>a. a \<in> set (attempts d) \<Longrightarrow> att_id a \<noteq> ex_attempt_id env"
    and host: "length (ex_hostname env) \<le> 255"
    and dl: "\<forall>x \<in> set (dead_letters d). dl_id x \<noteq> ex_dead_letter_id env"
  shows "\<exists>d' j'. execute env reg (job_id job) d = (Inr (), d') \<and> inv d'
    \<and> j' \<in> set (jobs d') \<and> job_id j' = job_id job
    \<and> job_status j' \<in> {SUCCEEDED, RETRY_WAIT, FAILED_FINAL}
    \<and> attempt_count j' = Suc (attempt_count job)
    \<and> job_id job \<notin> res_job ` set (reservations d')"
proof -
  obtain a d1 where c: "claim_job (ex_claim_now env) (ex_hostname env) (ex_attempt_id env) (job_id job) d
      = Inr (Some (a, claimed_row (ex_claim_now env) job), d1)"
    using claim_total [OF assms(1-3) fresh host] by blast
  let ?j = "claimed_row (ex_claim_now env) job"
  have v1: "inv d1" by (rule inv_claim [OF assms(1) c])
  have a: "att_job a = job_id job" and eq: "d1 = d\<lparr>jobs := rows_update (\<lambda>r. job_id r = job_id job)
      (claimed_row (ex_claim_now env)) (jobs d), attempts := attempts d @ [a]\<rparr>"
    using claim_job_Some [OF invD(1) [OF assms(1)] c] by metis+
  have "?j \<in> set (rows_update (\<lambda>r. job_id r = job_id job) (claimed_row (ex_claim_now env)) (jobs d))"
    unfolding set_rows_update image_iff using assms(2) by (intro bexI [of _ job]) simp_all
  then have "?j \<in> set (jobs d1)" by (simp add: eq)
  then have d1: "?j \<in> set (jobs d1) \<and> a \<in> set (attempts d1) \<and> att_job a = job_id job
      \<and> dead_letters d1 = dead_letters d"
    using a by (simp add: eq)
  have after: "\<exists>b. inv dm \<and> ?j \<in> set (jobs dm) \<and> dead_letters dm = dead_letters d
      \<and> b \<in> set (attempts dm) \<and> att_id b = att_id a \<and> job_id ?j = att_job b"
    if beats: "only_heartbeats d1 dm" for dm
    using beats_inv [OF beats v1] beats_frame [OF beats] beats_attempt [OF beats, of a] d1 by auto
  have mem: "f ?j \<in> set (rows_update (\<lambda>r. job_id r = job_id job) f (jobs dm))"
    if "?j \<in> set (jobs dm)" for f dm
    unfolding set_rows_update image_iff using that by (intro bexI [of _ ?j]) simp_all
  show ?thesis
  proof (cases rule: execute_ends [of env "job_id job" d])
    case (completed a' j d1' dm v d2)
    then have eq: "a' = a" "d1' = d1" using c by simp_all
    then obtain b where b: "inv dm" "?j \<in> set (jobs dm)" "b \<in> set (attempts dm)" "att_id b = att_id a"
      "job_id ?j = att_job b" using after completed(3) by blast
    have "complete_job (ex_complete_now env) (att_id b) v dm = Inr d2" using completed(4) eq b(4) by simp
    with complete_total [OF b(1,3,2,5), of "ex_complete_now env" v]
    have d2: "jobs d2 = rows_update (\<lambda>r. job_id r = job_id job) (completed_row (ex_complete_now env) v) (jobs dm)"
      "job_id job \<notin> res_job ` set (reservations d2)" by (auto simp: rows_delete_def)
    have "inv d2" by (rule inv_complete [OF b(1) completed(4)])
    with d2 mem [OF b(2), of "completed_row (ex_complete_now env) v"] completed(1) show ?thesis
      by (intro exI [of _ d2] exI [of _ "completed_row (ex_complete_now env) v ?j"]) simp
  next
    case (failed a' j d1' dm exc r)
    then have eq: "a' = a" "d1' = d1" using c by simp_all
    then obtain b where b: "inv dm" "?j \<in> set (jobs dm)" "b \<in> set (attempts dm)" "att_id b = att_id a"
      "job_id ?j = att_job b" "dead_letters dm = dead_letters d" using after failed(3) by blast
    let ?m = "exc_str (ex_library_text env) exc" and ?ft = "failure_type_of exc"
    let ?upd = "failed_attempt (ex_fail_now env) (ex_format_exc env) ?ft ?m"
    let ?d3 = "failed_db (ex_fail_now env) (ex_dead_letter_id env) ?j ?ft ?m (save_attempt (att_id a) ?upd dm)"
    have r: "r = Inr ?d3"
      using fail_total [OF b(1,3,2,5)] failed(4) eq b(4,6) dl by simp
    then have d3: "jobs ?d3 = rows_update (\<lambda>r. job_id r = job_id job) (failed_row (ex_fail_now env) ?ft ?m) (jobs dm)"
      "job_id job \<notin> res_job ` set (reservations ?d3)" by (auto simp: failed_db_def rows_delete_def)
    have "inv ?d3" using inv_fail [OF b(1)] failed(4) r by blast
    with d3 mem [OF b(2), of "failed_row (ex_fail_now env) ?ft ?m"] failed(1) r show ?thesis
      by (intro exI [of _ ?d3] exI [of _ "failed_row (ex_fail_now env) ?ft ?m ?j"]) simp
  qed (use c in simp_all)
qed

text \<open>A run is a claim, heartbeats, and a completion or a failure.\<close>

lemma execute_run:
  assumes "jid \<in> set (sys_broker s)"
  shows "\<exists>es s'. run_events steady es s = Some s' \<and> sys_db s' = snd (execute env reg jid (sys_db s))
    \<and> sys_broker s' = sys_broker s \<and> set (sys_workers s') \<subseteq> set (sys_workers s)"
proof (cases rule: execute_ends [of env jid "sys_db s"])
  case (unclaimed e)
  then show ?thesis using assms
    by (intro exI [of _ "[Claim (ex_claim_now env) (ex_hostname env) (ex_attempt_id env) jid]"] exI [of _ s])
      (simp add: steady_worker)
next
  case skipped
  then show ?thesis using assms
    by (intro exI [of _ "[Claim (ex_claim_now env) (ex_hostname env) (ex_attempt_id env) jid]"] exI [of _ s])
      (simp add: steady_worker)
next
  case (completed a j d1 dm v d2)
  let ?s1 = "s\<lparr>sys_db := d1, sys_workers := att_id a # sys_workers s\<rparr>"
  let ?s' = "?s1\<lparr>sys_db := d2, sys_workers := removeAll (att_id a) (att_id a # sys_workers s)\<rparr>"
  obtain es where es: "run_events steady es ?s1 = Some (?s1\<lparr>sys_db := dm\<rparr>)"
    using beats_run [of ?s1 dm] completed(3) by auto
  have "run_events steady (Claim (ex_claim_now env) (ex_hostname env) (ex_attempt_id env) jid # es
      @ [Complete (ex_complete_now env) (att_id a) v]) s = Some ?s'"
    using assms completed(2,4) es by (simp add: run_events_append steady_worker)
  moreover have "sys_db ?s' = snd (execute env reg jid (sys_db s))" "sys_broker ?s' = sys_broker s"
    "set (sys_workers ?s') \<subseteq> set (sys_workers s)"
    by (auto simp: completed(1))
  ultimately show ?thesis by blast
next
  case (failed a j d1 dm exc r)
  let ?s1 = "s\<lparr>sys_db := d1, sys_workers := att_id a # sys_workers s\<rparr>"
  let ?s' = "(tx r (?s1\<lparr>sys_db := dm\<rparr>))\<lparr>sys_workers := removeAll (att_id a) (att_id a # sys_workers s)\<rparr>"
  obtain es where es: "run_events steady es ?s1 = Some (?s1\<lparr>sys_db := dm\<rparr>)"
    using beats_run [of ?s1 dm] failed(3) by auto
  have "run_events steady (Claim (ex_claim_now env) (ex_hostname env) (ex_attempt_id env) jid # es
      @ [Fail (ex_fail_now env) (ex_dead_letter_id env) (ex_format_exc env) (ex_library_text env)
           (att_id a) exc (failure_type_of exc)]) s = Some ?s'"
    using assms failed(2,4) es by (simp add: run_events_append steady_worker)
  moreover have "sys_db ?s' = snd (execute env reg jid (sys_db s))" "sys_broker ?s' = sys_broker s"
    using failed(1) by (cases r; simp)+
  moreover have "set (sys_workers ?s') \<subseteq> set (sys_workers s)" by auto
  ultimately show ?thesis by blast
qed

end

interpretation simulated: heartbeat_handlers simulated_registry
  by unfold_locales (simp add: simulated_handlers_pure only_heartbeats.quiet)

section \<open>Properties\<close>

text \<open>
  C29. A delivered message settles its job: on a consistent database, with fresh keys, the run of
  \<open>execute\<close> over the repository's handlers raises nothing, and whatever the handler does the job is
  then SUCCEEDED, waiting for its retry or FAILED_FINAL, one attempt later, without a reservation,
  and the database is consistent.
\<close>

theorem execution_settles:
  assumes "inv d" "job \<in> set (jobs d)" "job_status job = QUEUED"
    and "\<And>a. a \<in> set (attempts d) \<Longrightarrow> att_id a \<noteq> ex_attempt_id env"
    and "length (ex_hostname env) \<le> 255"
    and "\<forall>x \<in> set (dead_letters d). dl_id x \<noteq> ex_dead_letter_id env"
  shows "\<exists>d' j'. execute env simulated_registry (job_id job) d = (Inr (), d') \<and> inv d'
    \<and> j' \<in> set (jobs d') \<and> job_id j' = job_id job
    \<and> job_status j' \<in> {SUCCEEDED, RETRY_WAIT, FAILED_FINAL}
    \<and> attempt_count j' = Suc (attempt_count job)
    \<and> job_id job \<notin> res_job ` set (reservations d')"
  by (rule simulated.worker_settles [OF assms])

definition plain_worker :: execute_env where
  "plain_worker = \<lparr>ex_claim_now = 5, ex_hostname = ''host'', ex_attempt_id = 51, ex_complete_now = 6,
     ex_fail_now = 6, ex_dead_letter_id = 91, ex_format_exc = [], ex_library_text = (\<lambda>_. [])\<rparr>"

theorem execution_settles_witness:
  "\<exists>d'. execute plain_worker simulated_registry 11 queued_db = (Inr (), d') \<and> inv d'"
proof -
  have j: "hd (jobs queued_db) \<in> set (jobs queued_db)" "job_status (hd (jobs queued_db)) = QUEUED"
    "job_id (hd (jobs queued_db)) = 11" "attempts queued_db = []" "dead_letters queued_db = []"
    by (simp_all add: queued_defs run_defs)
  from execution_settles [OF queued_db_inv j(1,2), of plain_worker] j(3-5) show ?thesis
    by (auto simp: plain_worker_def)
qed

text \<open>
  C30. The worker implements the system: whatever \<open>execute\<close> does with a message that is in the
  broker, in every environment and for every database, is a sequence of events of the system, and
  one that a timely run allows. So what holds in all reachable states holds between and after
  its transactions.
\<close>

theorem execution_refines:
  assumes "jid \<in> set (sys_broker s)"
  shows "\<exists>es s'. run_events steady es s = Some s'
    \<and> sys_db s' = snd (execute_job env simulated_registry jid (sys_db s))
    \<and> sys_broker s' = sys_broker s \<and> set (sys_workers s') \<subseteq> set (sys_workers s)"
  unfolding execute_job_def by (rule simulated.execute_run [OF assms])

theorem execution_refines_witness:
  "\<exists>es s'. run_events steady es (init_sys\<lparr>sys_db := queued_db, sys_broker := [11]\<rparr>) = Some s'
     \<and> sys_db s' = snd (execute_job plain_worker simulated_registry 11 queued_db)"
  using execution_refines [of 11 "init_sys\<lparr>sys_db := queued_db, sys_broker := [11]\<rparr>" plain_worker]
  by (simp del: run_events.simps) blast

end
