(* ===== verification/Refinement.thy ===== *)
theory Refinement
  imports Scenarios
begin

text \<open>
  The periodic tasks and the requests of the API as sequences of the system's events: the system
  theory names single transactions, here the code that strings them together is shown to do
  nothing else.
\<close>

section \<open>Loops of transactions\<close>

definition simulates :: "(event \<Rightarrow> sys \<Rightarrow> bool) \<Rightarrow> sys \<Rightarrow> db \<Rightarrow> bool" where
  "simulates G s d \<longleftrightarrow> (\<exists>es. run_events G es s = Some (s\<lparr>sys_db := d\<rparr>))"

lemma simulates_refl: "simulates G s (sys_db s)"
  unfolding simulates_def by (rule exI [of _ "[]"]) simp

lemma simulates_trans:
  assumes "simulates G s d" "simulates G (s\<lparr>sys_db := d\<rparr>) d'"
  shows "simulates G s d'"
proof -
  from assms obtain es fs where "run_events G es s = Some (s\<lparr>sys_db := d\<rparr>)"
    "run_events G fs (s\<lparr>sys_db := d\<rparr>) = Some (s\<lparr>sys_db := d'\<rparr>)"
    by (auto simp: simulates_def)
  then have "run_events G (es @ fs) s = Some (s\<lparr>sys_db := d'\<rparr>)" by (simp add: run_events_append)
  then show ?thesis unfolding simulates_def by blast
qed

lemma simulates_event:
  "G e s \<Longrightarrow> do_event e s = Some (s\<lparr>sys_db := d\<rparr>) \<Longrightarrow> simulates G s d"
  unfolding simulates_def by (rule exI [of _ "[e]"]) simp

lemma simulates_loop:
  assumes "\<And>x s. x \<in> set xs \<Longrightarrow> simulates G s (snd (f x (sys_db s)))"
  shows "simulates G s (snd (for_each f xs (sys_db s)))"
  using assms
proof (induction xs arbitrary: s)
  case Nil
  show ?case by (simp add: simulates_refl)
next
  case (Cons x xs)
  obtain r d where step: "f x (sys_db s) = (r, d)" by (rule prod.exhaust)
  have here: "simulates G s d" using Cons.prems [of x s] step by simp
  have "simulates G (s\<lparr>sys_db := d\<rparr>) (snd (for_each f xs (sys_db (s\<lparr>sys_db := d\<rparr>))))"
    using Cons.prems by (intro Cons.IH) simp
  then show ?case using here step simulates_trans [OF here] by (cases r) simp_all
qed

lemma tx_db: "tx r s = s\<lparr>sys_db := (case r of Inl e \<Rightarrow> sys_db s | Inr d \<Rightarrow> d)\<rparr>"
  by (cases r) simp_all

lemma steady_tasks:
  "steady (Dispatch env t) s" "steady (Promote now locked rnow limit) s"
  "steady (Publish now delay str_exc i) s" "steady (Recover now now' jid) s"
  "steady (Submit now i g sub) s" "steady (Refresh now t) s" "steady (Cancel_Job now jid) s"
  "steady (Replay now now' i g x) s"
  by (simp_all add: steady_def limits_kept_def)

lemma dispatch_simulates: "simulates steady s (snd (dispatch_one envs t (sys_db s)))"
  by (rule simulates_event [of _ "Dispatch (envs t) t"])
    (auto simp: steady_tasks dispatch_one_def tx_db db_of_def split: sum.splits prod.splits)

lemma commit_snd: "snd (commit r d) = (case r of Inl e \<Rightarrow> d | Inr d' \<Rightarrow> d')"
  by (cases r) simp_all

lemma reap_simulates:
  "simulates any_event s (snd (commit (reconcile_attempt now now' i aid (sys_db s)) (sys_db s)))"
  by (rule simulates_event [of _ "Reap now now' i aid"]) (simp_all add: any_event_def tx_db commit_snd)

lemma recover_simulates:
  "simulates any_event s (snd (commit (recover_queued now rnow jid (sys_db s)) (sys_db s)))"
  by (rule simulates_event [of _ "Recover now rnow jid"]) (simp_all add: any_event_def tx_db commit_snd)

lemma reconcile_simulates: "simulates any_event s (snd (reconcile_zombies env (sys_db s)))"
proof -
  let ?reap = "\<lambda>i x. commit (reconcile_attempt (re_attempt_now env i) (re_failure_now env i)
    (re_dead_letter_id env i) i x) x"
  obtain r d where reaped: "for_each ?reap (expired_attempts (re_now env) 100 (sys_db s)) (sys_db s) = (r, d)"
    by (rule prod.exhaust)
  have "simulates any_event s (snd (for_each ?reap (expired_attempts (re_now env) 100 (sys_db s)) (sys_db s)))"
    by (rule simulates_loop [of _ _ ?reap]) (rule reap_simulates)
  then have first: "simulates any_event s d" using reaped by simp
  have "simulates any_event (s\<lparr>sys_db := d\<rparr>)
      (snd (reconcile_queued env (re_now env) 100 (sys_db (s\<lparr>sys_db := d\<rparr>))))"
    unfolding reconcile_queued_def
    by (rule simulates_loop [of _ _ "\<lambda>jid x. commit (recover_queued (re_queued_now env jid)
        (re_refresh_now env jid) jid x) x"]) (rule recover_simulates)
  with first reaped simulates_trans [OF first] show ?thesis
    by (cases r) (simp_all add: reconcile_zombies_def reconcile_expired_def)
qed

lemma publish_loop:
  "\<exists>es. run_events steady es s = Some (s
     \<lparr>sys_db := fst (snd (for_each (\<lambda>i. publish_event (enow i) delay str_exc i) ids (sys_db s, sys_broker s))),
      sys_broker := snd (snd (for_each (\<lambda>i. publish_event (enow i) delay str_exc i) ids (sys_db s, sys_broker s)))\<rparr>)"
proof (induction ids arbitrary: s)
  case Nil
  show ?case by (rule exI [of _ "[]"]) simp
next
  case (Cons i ids)
  obtain r d q where step: "publish_event (enow i) delay str_exc i (sys_db s, sys_broker s) = (r, (d, q))"
    by (metis prod.exhaust)
  let ?s1 = "s\<lparr>sys_db := d, sys_broker := q\<rparr>"
  have e: "do_event (Publish (enow i) delay str_exc i) s = Some ?s1" using step by simp
  show ?case
  proof (cases r)
    case (Inl exc)
    then show ?thesis using e step
      by (intro exI [of _ "[Publish (enow i) delay str_exc i]"]) (simp add: steady_tasks)
  next
    case (Inr u)
    obtain es where "run_events steady es ?s1 = Some (?s1
     \<lparr>sys_db := fst (snd (for_each (\<lambda>i. publish_event (enow i) delay str_exc i) ids (d, q))),
      sys_broker := snd (snd (for_each (\<lambda>i. publish_event (enow i) delay str_exc i) ids (d, q)))\<rparr>)"
      using Cons.IH [of ?s1] by auto
    then show ?thesis using e step Inr
      by (intro exI [of _ "Publish (enow i) delay str_exc i # es"]) (simp add: steady_tasks)
  qed
qed

lemma tasks_refine:
  "simulates steady s (snd (dispatch_jobs envs (sys_db s)))
   \<and> simulates steady s (case process_retries now locked rnow (sys_db s) of
        Inl e \<Rightarrow> sys_db s | Inr (n, d) \<Rightarrow> d)
   \<and> (\<exists>es. run_events steady es s = Some (s
        \<lparr>sys_db := fst (snd (publish_outbox now enow delay str_exc (sys_db s, sys_broker s))),
         sys_broker := snd (snd (publish_outbox now enow delay str_exc (sys_db s, sys_broker s)))\<rparr>))
   \<and> simulates any_event s (snd (reconcile_zombies env (sys_db s)))"
proof (intro conjI)
  show "simulates steady s (snd (dispatch_jobs envs (sys_db s)))"
    unfolding dispatch_jobs_def by (rule simulates_loop) (rule dispatch_simulates)
  show "simulates steady s (case process_retries now locked rnow (sys_db s) of
        Inl e \<Rightarrow> sys_db s | Inr (n, d) \<Rightarrow> d)"
    by (rule simulates_event [of _ "Promote now locked rnow 100"])
      (auto simp: steady_tasks process_retries_def tx_db db_of_def split: sum.splits prod.splits)
  show "\<exists>es. run_events steady es s = Some (s
        \<lparr>sys_db := fst (snd (publish_outbox now enow delay str_exc (sys_db s, sys_broker s))),
         sys_broker := snd (snd (publish_outbox now enow delay str_exc (sys_db s, sys_broker s)))\<rparr>)"
    unfolding publish_outbox_def publish_pending_def by (rule publish_loop)
  show "simulates any_event s (snd (reconcile_zombies env (sys_db s)))" by (rule reconcile_simulates)
qed

section \<open>Requests\<close>

lemma create_job_simulates:
  "simulates steady s (snd (create_job env super header data (sys_db s)))"
proof (cases "result_bind (to_internal_value super data) (\<lambda>v.
    result_bind (or_header (header ''Idempotency-Key'') (or_header (header ''X-Idempotency-Key'')
      (json_get data ''idempotency_key'')))
      (\<lambda>key. Inr (v, if truthy key then Some (char_field (ce_str env) key) else None)))")
  case (Inl e)
  then show ?thesis by (simp add: create_job_def simulates_refl)
next
  case (Inr vk)
  obtain v key where vk: "vk = (v, key)" by (cases vk)
  note parsed = Inr [unfolded vk]
  let ?submit = "submit_job (ce_now env) (ce_job_id env) (ce_generated_key env) (submission_of v key)"
  show ?thesis
  proof (cases "?submit (sys_db s)")
    case (Inl e)
    then show ?thesis using parsed by (simp add: create_job_def simulates_refl)
  next
    case (Inr x)
    obtain job created d1 where x: "x = ((job, created), d1)" by (metis prod.exhaust)
    have first: "simulates steady s d1"
      by (rule simulates_event [of _ "Submit (ce_now env) (ce_job_id env) (ce_generated_key env)
            (submission_of v key)"]) (simp_all add: steady_tasks Inr x)
    show ?thesis
    proof (cases created)
      case False
      then show ?thesis using first parsed Inr x by (simp add: create_job_def)
    next
      case True
      show ?thesis
      proof (cases "refresh_scheduler_state (ce_refresh_now env) (job_tenant job) d1")
        case Inl': (Inl e)
        then show ?thesis using True first parsed Inr x by (simp add: create_job_def)
      next
        case d2: (Inr d2)
        have "simulates steady (s\<lparr>sys_db := d1\<rparr>) d2"
          by (rule simulates_event [of _ "Refresh (ce_refresh_now env) (job_tenant job)"])
            (simp_all add: steady_tasks d2)
        then show ?thesis using simulates_trans [OF first] True parsed Inr x d2
          by (simp add: create_job_def)
      qed
    qed
  qed
qed

lemma requests_refine:
  "simulates steady s (snd (create_job cenv super header data (sys_db s)))
   \<and> simulates steady s (snd (cancel_view now pk (sys_db s)))
   \<and> simulates steady s (snd (replay_view now rnow i g dl (sys_db s)))"
proof (intro conjI)
  show "simulates steady s (snd (create_job cenv super header data (sys_db s)))"
    by (rule create_job_simulates)
  show "simulates steady s (snd (cancel_view now pk (sys_db s)))"
    by (rule simulates_event [of _ "Cancel_Job now pk"])
      (auto simp: steady_tasks cancel_view_def tx_db db_of_def split: sum.splits prod.splits)
  show "simulates steady s (snd (replay_view now rnow i g dl (sys_db s)))"
    by (rule simulates_event [of _ "Replay now rnow i g dl"])
      (auto simp: steady_tasks replay_view_def tx_db db_of_def split: sum.splits prod.splits)
qed

end
