(* ===== verification/Interface.thy ===== *)
theory Interface
  imports Outcomes Worker Refinement
begin

text \<open>
  The edges of the program: what the answer of a handler makes of its job, what a client sees of
  the submission of a job, and when the scheduler looks at a tenant.
\<close>

section \<open>Handlers and retries\<close>

text \<open>The status an execution leaves, by the handler's answer.\<close>

fun settled_status :: "json result \<Rightarrow> Job \<Rightarrow> JobStatus" where
  "settled_status (Inr v) job = SUCCEEDED"
| "settled_status (Inl exc) job =
     (if failure_type_of exc \<noteq> PERMANENT \<and> attempt_count job < 3 then RETRY_WAIT else FAILED_FINAL)"

lemma execution_by_answer:
  assumes "inv d" "job \<in> set (jobs d)" "job_status job = QUEUED"
    and fresh: "\<And>a. a \<in> set (attempts d) \<Longrightarrow> att_id a \<noteq> ex_attempt_id env"
    and host: "length (ex_hostname env) \<le> 255"
    and dl: "\<forall>x \<in> set (dead_letters d). dl_id x \<noteq> ex_dead_letter_id env"
    and h: "get_handler simulated_registry (job_type job) = Inr h"
    and answer: "\<And>c x. attempt_number (ctx_attempt c) = Suc (attempt_count job) \<Longrightarrow> fst (h (payload job) c x) = r"
  shows "\<exists>d' j'. execute env simulated_registry (job_id job) d = (Inr (), d')
    \<and> j' \<in> set (jobs d') \<and> job_id j' = job_id job \<and> job_status j' = settled_status r job"
proof -
  obtain a d1 where c: "claim_job (ex_claim_now env) (ex_hostname env) (ex_attempt_id env) (job_id job) d
      = Inr (Some (a, claimed_row (ex_claim_now env) job), d1)"
    using claim_total [OF assms(1-3) fresh host] by blast
  let ?j = "claimed_row (ex_claim_now env) job"
  have v1: "inv d1" by (rule inv_claim [OF assms(1) c])
  have a: "att_job a = job_id job" and eq: "d1 = d\<lparr>jobs := rows_update (\<lambda>r. job_id r = job_id job)
      (claimed_row (ex_claim_now env)) (jobs d), attempts := attempts d @ [a]\<rparr>"
    using claim_job_Some [OF invD(1) [OF assms(1)] c] by metis+
  have n: "attempt_number a = Suc (attempt_count job)"
    using claim_job_Some [OF invD(1) [OF assms(1)] c] only_row [OF assms(1,2)] by metis
  have "?j \<in> set (rows_update (\<lambda>r. job_id r = job_id job) (claimed_row (ex_claim_now env)) (jobs d))"
    unfolding set_rows_update image_iff using assms(2) by (intro bexI [of _ job]) simp_all
  then have mem: "?j \<in> set (jobs d1)" "a \<in> set (attempts d1)" "job_id ?j = att_job a"
    "dead_letters d1 = dead_letters d"
    using a by (simp_all add: eq)
  have upd: "f ?j \<in> set (rows_update (\<lambda>r. job_id r = job_id job) f (jobs d1))" for f
    unfolding set_rows_update image_iff using mem(1) by (intro bexI [of _ ?j]) simp_all
  let ?c = "\<lparr>ctx_job = ?j, ctx_attempt = a\<rparr>"
  have jt: "job_type ?j = job_type job" by (simp add: claimed_row_def)
  have run: "h (payload job) ?c d1 = (r, d1)"
    using answer [of ?c d1] n simulated_handlers_pure [OF h, of "payload job" ?c d1]
    by (metis JobContext.select_convs(2) prod.collapse)
  show ?thesis
  proof (cases r)
    case (Inr v)
    let ?d2 = "released ?j (save_job (job_id ?j) (completed_row (ex_complete_now env) v)
      (save_attempt (att_id a) (\<lambda>b. b\<lparr>att_status := ATT_SUCCEEDED, finished_at := Some (ex_complete_now env)\<rparr>) d1))"
    have "execute env simulated_registry (job_id job) d = (Inr (), ?d2)"
      using complete_total [OF v1 mem(2,1,3), of "ex_complete_now env" v]
      by (simp add: execute_def c run_attempt_def jt h run Inr)
    then show ?thesis using upd [of "completed_row (ex_complete_now env) v"] Inr
      by (intro exI [of _ ?d2] exI [of _ "completed_row (ex_complete_now env) v ?j"]) simp
  next
    case (Inl exc)
    let ?ft = "failure_type_of exc" and ?m = "exc_str (ex_library_text env) exc"
    let ?d2 = "failed_db (ex_fail_now env) (ex_dead_letter_id env) ?j ?ft ?m
      (save_attempt (att_id a) (failed_attempt (ex_fail_now env) (ex_format_exc env) ?ft ?m) d1)"
    have "execute env simulated_registry (job_id job) d = (Inr (), ?d2)"
      using fail_total [OF v1 mem(2,1,3), of "ex_dead_letter_id env" "ex_fail_now env"
          "ex_format_exc env" "ex_library_text env" exc ?ft] dl mem(4)
      by (simp add: execute_def c run_attempt_def jt h run Inl)
    moreover have "retries ?ft ?j \<longleftrightarrow> ?ft \<noteq> PERMANENT \<and> attempt_count job < 3"
      by (auto simp: retries_def)
    ultimately show ?thesis using upd [of "failed_row (ex_fail_now env) ?ft ?m"] Inl
      by (intro exI [of _ ?d2] exI [of _ "failed_row (ex_fail_now env) ?ft ?m ?j"])
        (simp add: failed_db_def)
  qed
qed

text \<open>
  C36. The retry law, end to end: a job of any type whose payload asks for a temporary failure up
  to attempt \<open>n\<close> waits for a retry while its attempt is at most \<open>n\<close> and at most the third, is
  FAILED_FINAL when the fourth attempt still fails, and SUCCEEDED at the first attempt after \<open>n\<close>.
\<close>

theorem temporary_failures:
  assumes "inv d" "job \<in> set (jobs d)" "job_status job = QUEUED"
    and "\<And>a. a \<in> set (attempts d) \<Longrightarrow> att_id a \<noteq> ex_attempt_id env"
    and "length (ex_hostname env) \<le> 255"
    and "\<forall>x \<in> set (dead_letters d). dl_id x \<noteq> ex_dead_letter_id env"
    and "job_type job = JobType_value ty" "payload job = JObj kvs"
    and "map_of kvs ''simulate_permanent_failure'' = None"
    and "map_of kvs ''simulate_temporary_failure'' = Some (JBool True)"
    and "map_of kvs ''fail_until_attempt'' = Some (JInt n)" "map_of kvs ''duration'' = None"
  shows "\<exists>d' j'. execute env simulated_registry (job_id job) d = (Inr (), d')
    \<and> j' \<in> set (jobs d') \<and> job_id j' = job_id job
    \<and> job_status j' =
        (if n < int (Suc (attempt_count job)) then SUCCEEDED
         else if Suc (attempt_count job) \<le> 3 then RETRY_WAIT else FAILED_FINAL)"
proof -
  let ?failing = "\<not> n < int (Suc (attempt_count job))"
  have cmp: "(rat_of_nat (Suc (attempt_count job)) \<le> rat_of_int n) = ?failing"
    by (metis linorder_not_less of_int_le_iff of_int_of_nat_eq)
  have sleep: "sleep_handler (payload job) (Some c) =
      (if ?failing then Inl (RetryableJobError ''Simulated temporary failure'') else Inr ())"
    if "attempt_number (ctx_attempt c) = Suc (attempt_count job)" for c
    using that cmp
    by (simp add: sleep_handler_def assms(8-12) json_get_def del: of_nat_Suc)
  have "\<exists>h v. get_handler simulated_registry (job_type job) = Inr h
      \<and> (\<forall>c x. attempt_number (ctx_attempt c) = Suc (attempt_count job) \<longrightarrow>
           fst (h (payload job) c x) =
             (if ?failing then Inl (RetryableJobError ''Simulated temporary failure'') else Inr v))"
    using sleep
    by (cases ty)
      (auto simp: simulated_registry_def register_def get_handler_def assms(7,8) sleeping_handler_def
        ReportHandler_def DataProcessingHandler_def SyncHandler_def AIHandler_def
        NotificationHandler_def json_get_def)
  then obtain h v where h: "get_handler simulated_registry (job_type job) = Inr h"
    and answer: "\<And>c x. attempt_number (ctx_attempt c) = Suc (attempt_count job) \<Longrightarrow>
      fst (h (payload job) c x) =
        (if ?failing then Inl (RetryableJobError ''Simulated temporary failure'') else Inr v)" by blast
  from execution_by_answer [OF assms(1-6) h answer] show ?thesis by (auto split: if_splits)
qed

text \<open>A job that fails its first two attempts, dispatched.\<close>

definition flaky_payload :: "(string \<times> json) list" where
  "flaky_payload = [(''simulate_temporary_failure'', JBool True), (''fail_until_attempt'', JInt 2)]"

definition flaky_events :: "event list" where
  "flaky_events =
     [Create_Tenant 1 one_slot,
      Submit 0 11 ''k11'' (plain_submission (JObj flaky_payload)),
      Refresh 2 1,
      Dispatch (plain_env 3 31) 1]"

definition flaky_db :: db where
  "flaky_db = sys_db (the (run_events steady flaky_events init_sys))"

lemma flaky_db_inv: "inv flaky_db"
proof -
  obtain s where s: "run_events steady flaky_events init_sys = Some s"
    by (simp add: flaky_events_def flaky_payload_def run_defs)
  then have "inv (sys_db s)" by (intro weak.good_reachable reachable_any [OF run_events_reachable])
  then show ?thesis by (simp add: flaky_db_def s)
qed

theorem temporary_failures_witness:
  "\<exists>d' j'. execute plain_worker simulated_registry 11 flaky_db = (Inr (), d') \<and> j' \<in> set (jobs d')
     \<and> job_id j' = 11 \<and> job_status j' = RETRY_WAIT"
proof -
  let ?j = "hd (jobs flaky_db)"
  have j: "?j \<in> set (jobs flaky_db)" "job_status ?j = QUEUED" "job_id ?j = 11"
    "attempt_count ?j = 0" "job_type ?j = JobType_value REPORTS" "payload ?j = JObj flaky_payload"
    "attempts flaky_db = []" "dead_letters flaky_db = []"
    by (simp_all add: flaky_db_def flaky_events_def flaky_payload_def run_defs)
  have p: "map_of flaky_payload ''simulate_permanent_failure'' = None"
    "map_of flaky_payload ''simulate_temporary_failure'' = Some (JBool True)"
    "map_of flaky_payload ''fail_until_attempt'' = Some (JInt 2)"
    "map_of flaky_payload ''duration'' = None"
    by (simp_all add: flaky_payload_def)
  have env: "length (ex_hostname plain_worker) \<le> 255" by (simp add: plain_worker_def)
  have "\<And>a. a \<in> set (attempts flaky_db) \<Longrightarrow> att_id a \<noteq> ex_attempt_id plain_worker"
    "\<forall>x \<in> set (dead_letters flaky_db). dl_id x \<noteq> ex_dead_letter_id plain_worker"
    by (simp_all add: j(7,8))
  from temporary_failures [OF flaky_db_inv j(1,2) this(1) env this(2) j(5,6) p] j(3,4)
  show ?thesis by simp
qed

section \<open>Submitting over the API\<close>

text \<open>
  C37. The API's submission is idempotent and says so: a request with an idempotency key answers 201
  and has appended one WAITING job with that key, and refreshed the tenant's flag, when no job of
  the tenant had the key; it answers 200 with that job and has changed nothing when one had. The
  same request sent again answers 200 with the same job and changes nothing.
\<close>

theorem post_job:
  assumes "inv d" "to_internal_value super data = Inr v"
    and "header ''Idempotency-Key'' = Some k" "k \<noteq> []"
    and "create_job env super header data d = (Inr (j, code), d')"
  shows "has_key (val_tenant v) k j
    \<and> (if \<exists>r \<in> set (jobs d). has_key (val_tenant v) k r
       then code = 200 \<and> d' = d \<and> j \<in> set (jobs d)
       else code = 201 \<and> jobs d' = jobs d @ [j] \<and> job_status j = WAITING
          \<and> job_type j = val_job_type v
          \<and> flagged (val_tenant v) (\<exists>r \<in> set (jobs d'). ready (val_tenant v) (ce_refresh_now env) r) d')
    \<and> create_job env' super header data d' = (Inr (j, 200), d')"
proof -
  let ?sub = "submission_of v (Some k)"
  have key: "effective_key g ?sub = k" "sub_tenant ?sub = val_tenant v" "sub_job_type ?sub = val_job_type v" for g
    using assms(4) by (simp_all add: effective_key_def submission_of_def submission_defaults_def)
  have parse: "create_job e super header data x =
      (case submit_job (ce_now e) (ce_job_id e) (ce_generated_key e) ?sub x of
         Inl er \<Rightarrow> (Inl er, x)
       | Inr ((job, created), d1) \<Rightarrow>
           if created then
             (case refresh_scheduler_state (ce_refresh_now e) (job_tenant job) d1 of
                Inl er \<Rightarrow> (Inl er, d1) | Inr d2 \<Rightarrow> (Inr (job, 201), d2))
           else (Inr (job, 200), d1))" for e x
    using assms(2-4) by (simp add: create_job_def or_header_def char_field_def)
  obtain created d1 where sub: "submit_job (ce_now env) (ce_job_id env) (ce_generated_key env) ?sub d
      = Inr ((j, created), d1)"
    and rest: "if created then refresh_scheduler_state (ce_refresh_now env) (job_tenant j) d1 = Inr d' \<and> code = 201
       else d' = d1 \<and> code = 200"
    using assms(5) unfolding parse by (auto split: sum.splits if_splits)
  have v1: "inv d1" by (rule inv_submit [OF assms(1) sub])
  have v': "inv d'" using rest inv_refresh [OF v1] v1 by (cases created) auto
  have j: "j \<in> set (jobs d1) \<and> has_key (val_tenant v) k j"
    using sub by (cases rule: submit_job_cases) (auto simp: key has_key_def)
  have jobs: "jobs d' = jobs d1" using rest refresh_frame(2) by (cases created) auto
  have again: "submit_job now i g ?sub d' = Inr ((j, False), d')" for now i g
    using j jobs by (intro submit_again [OF invD(2) [OF v']]) (simp_all add: key)
  have "if \<exists>r \<in> set (jobs d). has_key (val_tenant v) k r
       then code = 200 \<and> d' = d \<and> j \<in> set (jobs d)
       else code = 201 \<and> jobs d' = jobs d @ [j] \<and> job_status j = WAITING
          \<and> job_type j = val_job_type v
          \<and> flagged (val_tenant v) (\<exists>r \<in> set (jobs d'). ready (val_tenant v) (ce_refresh_now env) r) d'"
    using sub
  proof (cases rule: submit_job_cases)
    case existing
    then show ?thesis using rest key(1,2) by auto
  next
    case new
    have ref: "refresh_scheduler_state (ce_refresh_now env) (val_tenant v) d1 = Inr d'" "code = 201"
      using rest new(1,2) key(2) by simp_all
    have "jobs d1 = jobs d @ [j]" unfolding new(4) by simp
    moreover have "job_status j = WAITING" "job_type j = val_job_type v" by (simp_all add: new(2) key(3))
    moreover have "flagged (val_tenant v) (\<exists>r \<in> set (jobs d1). ready (val_tenant v) (ce_refresh_now env) r) d'"
      by (rule refresh_flag [OF ref(1)])
    moreover have "\<not> (\<exists>r \<in> set (jobs d). has_key (val_tenant v) k r)" using new(5) key(1,2) by auto
    ultimately show ?thesis using ref(2) jobs by (simp only: if_False)
  qed
  then show ?thesis using j again by (simp add: parse)
qed

definition api_env :: create_env where
  "api_env = \<lparr>ce_now = 7, ce_job_id = 21, ce_generated_key = ''g'', ce_refresh_now = 8, ce_str = (\<lambda>_. [])\<rparr>"

definition api_validation :: "json \<Rightarrow> validated_job result" where
  "api_validation data = Inr \<lparr>val_tenant = 1, val_job_type = ''REPORTS'', val_payload = None,
     val_priority = None, val_available_at = None\<rparr>"

definition api_header :: "string \<Rightarrow> string option" where
  "api_header h = (if h = ''Idempotency-Key'' then Some ''k'' else None)"

theorem post_job_witness:
  "\<exists>j d'. create_job api_env api_validation api_header (JObj []) waiting_db = (Inr (j, 201), d')
     \<and> create_job api_env api_validation api_header (JObj []) d' = (Inr (j, 200), d')"
proof -
  obtain v where v: "to_internal_value api_validation (JObj []) = Inr v"
    by (simp add: to_internal_value_def api_validation_def)
  obtain j d' where c: "create_job api_env api_validation api_header (JObj []) waiting_db = (Inr (j, 201), d')"
    by (simp add: create_job_def to_internal_value_def api_validation_def or_header_def api_header_def
        api_env_def submission_of_def waiting_defs run_defs)
  have "api_header ''Idempotency-Key'' = Some ''k''" by (simp add: api_header_def)
  from post_job [OF waiting_db_inv v this _ c, of api_env] c show ?thesis by blast
qed

section \<open>Spellings of a job type\<close>

lemma py_space_upper [simp]: "py_space (upper_char c) = py_space c"
  by (auto simp: py_space_def upper_char_def Let_def of_char_of)

lemma py_space_underscore: "py_space (underscore c) \<Longrightarrow> py_space c"
  by (auto simp: underscore_def py_space_def split: if_splits)

lemma strip_ends:
  assumes "xs = [] \<or> \<not> py_space (hd xs) \<and> \<not> py_space (last xs)"
  shows "py_strip xs = xs"
proof (cases "xs = []")
  case False
  then have "dropWhile py_space xs = xs" using assms by (cases xs) auto
  moreover have "dropWhile py_space (rev xs) = rev xs"
    using False assms by (cases "rev xs") (auto simp: last_rev hd_rev [symmetric])
  ultimately show ?thesis by (simp add: py_strip_def)
qed (simp add: py_strip_def)

lemma strip_result:
  "py_strip xs = [] \<or> \<not> py_space (hd (py_strip xs)) \<and> \<not> py_space (last (py_strip xs))"
proof (cases "py_strip xs = []")
  case False
  let ?l = "dropWhile py_space xs"
  let ?r = "dropWhile py_space (rev ?l)"
  have r: "py_strip xs = rev ?r" by (simp add: py_strip_def)
  then have ne: "?r \<noteq> []" using False by simp
  have "\<not> py_space (hd ?r)" using ne by (rule hd_dropWhile)
  then have "\<not> py_space (last (py_strip xs))" using ne by (simp add: r last_rev)
  moreover have "\<not> py_space (hd (py_strip xs))"
  proof -
    obtain ys where "rev ?l = ys @ ?r" by (metis takeWhile_dropWhile_id)
    then have "?l = rev ?r @ rev ys" by (metis rev_append rev_rev_ident)
    then have "hd ?l = hd (rev ?r)" and "?l \<noteq> []" using ne
      by (metis hd_append2 rev_is_Nil_conv, metis append_is_Nil_conv rev_is_Nil_conv)
    then show ?thesis using hd_dropWhile [of py_space xs] by (simp add: r)
  qed
  ultimately show ?thesis by blast
qed simp

lemma strip_surrounded:
  assumes "\<And>c. c \<in> set pre \<Longrightarrow> py_space c" "\<And>c. c \<in> set post \<Longrightarrow> py_space c"
  shows "py_strip (pre @ s @ post) = py_strip s"
proof -
  have start: "dropWhile py_space (pre @ xs) = dropWhile py_space xs" for xs
    using assms(1) by (rule dropWhile_append2)
  have finish: "dropWhile py_space (rev post @ xs) = dropWhile py_space xs" for xs
    using assms(2) by (intro dropWhile_append2) simp
  show ?thesis
  proof (cases "\<forall>c \<in> set s. py_space c")
    case True
    then have e: "dropWhile py_space s = []" "dropWhile py_space (s @ post) = []"
      using assms(2) by (auto simp: dropWhile_eq_Nil_conv)
    show ?thesis unfolding py_strip_def start by (simp only: e)
  next
    case False
    then obtain c where "c \<in> set s" "\<not> py_space c" by blast
    then have "dropWhile py_space (s @ post) = dropWhile py_space s @ post" by (rule dropWhile_append1)
    then show ?thesis by (simp add: py_strip_def start finish)
  qed
qed

lemma normal_char:
  "underscore (upper_char (underscore (upper_char c))) = underscore (upper_char c)"
proof -
  have "upper_char (upper_char c) = upper_char c" by (auto simp: upper_char_def Let_def of_char_of)
  moreover have "upper_char (CHR ''_'') = CHR ''_''" by (simp add: upper_char_def)
  ultimately show ?thesis by (simp add: underscore_def)
qed

text \<open>How a person writes a job type: in lower case, with spaces.\<close>

definition human_char :: "char \<Rightarrow> char" where
  "human_char c = (let n = of_char c :: nat in
     if c = CHR ''_'' then CHR '' '' else if 65 \<le> n \<and> n \<le> 90 then char_of (n + 32) else c)"

text \<open>
  The normalisation of job types: white space around a spelling does not matter, a normalised
  spelling is normal, and the lower-case spelling with spaces of every supported type reads back
  as that type.
\<close>

lemma job_type_spellings:
  assumes "\<And>c. c \<in> set pre \<union> set post \<Longrightarrow> py_space c"
  shows "normalise_job_type (pre @ s @ post) = normalise_job_type s
    \<and> normalise_job_type (normalise_job_type s) = normalise_job_type s
    \<and> normalise_job_type (pre @ map human_char (JobType_value t) @ post) = JobType_value t"
proof -
  have strip: "py_strip (pre @ x @ post) = py_strip x" for x
    using assms by (intro strip_surrounded) auto
  have ends: "py_space (underscore (upper_char c)) \<Longrightarrow> py_space c" for c
    by (auto dest: py_space_underscore)
  let ?n = "map (underscore \<circ> upper_char) (py_strip s)"
  have "?n = [] \<or> \<not> py_space (hd ?n) \<and> \<not> py_space (last ?n)"
    using strip_result [of s] ends by (auto simp: hd_map last_map)
  then have "py_strip ?n = ?n" by (rule strip_ends)
  then have "normalise_job_type (normalise_job_type s) = normalise_job_type s"
    by (simp add: normalise_job_type_def normal_char o_def)
  moreover have "normalise_job_type (map human_char (JobType_value t)) = JobType_value t"
    by (cases t; hypsubst; code_simp)
  ultimately show ?thesis using strip by (simp add: normalise_job_type_def)
qed

section \<open>When the scheduler looks\<close>

text \<open>
  Dispatching for one tenant leaves the jobs and the flag of every other tenant alone.
\<close>

definition untouched :: "Job \<Rightarrow> db \<Rightarrow> bool" where
  "untouched j d \<longleftrightarrow> inv d \<and> j \<in> set (jobs d)
     \<and> (\<forall>s \<in> set (scheduler_states d). ss_tenant s = job_tenant j \<longrightarrow> \<not> has_ready_work s)"

lemma dispatch_untouched:
  assumes "untouched j d" "t \<noteq> job_tenant j"
  shows "untouched j (snd (dispatch_one envs t d))"
proof (cases "dispatch_next (envs t) t d")
  case (Inl e)
  then show ?thesis using assms(1) by (simp add: dispatch_one_def)
next
  case (Inr x)
  obtain r d' where x: "x = (r, d')" by (cases x)
  have v: "inv d" "inv d'"
    using assms(1) inv_dispatch Inr x by (auto simp: untouched_def)
  show ?thesis
  proof (cases r)
    case None
    then have "d' = d" using Inr x dispatch_next_None by blast
    then show ?thesis using assms(1) Inr x by (simp add: dispatch_one_def)
  next
    case (Some k)
    then have run: "dispatch_next (envs t) t d = Inr (Some k, d')" using Inr x by simp
    show ?thesis
      using invD(1) [OF v(1)] run
    proof (rule dispatch_next_Some)
      fix state tenant before job rest d1
      assume st: "state \<in> set (scheduler_states d)" "ss_tenant state = t"
        and cands: "dispatch_candidates (envs t) t d = before @ job # rest"
        and lock: "case resource_of (envs t) job of Inl _ \<Rightarrow> False | Inr None \<Rightarrow> d1 = d
          | Inr (Some k) \<Rightarrow> acquired job k d d1"
        and res: "reserve_job (envs t) job state d1 = Inr (k, d')"
      have job: "job \<in> set (jobs d)" "job_tenant job = t"
        using candidates_ready [of job "envs t" t d] cands by (simp_all add: ready_def)
      have d1: "jobs d1 = jobs d" "scheduler_states d1 = scheduler_states d"
        using lock acquired_simps [of job _ d d1] by (auto split: sum.splits option.splits)
      have "j \<in> set (jobs d)" using assms(1) by (simp add: untouched_def)
      moreover have "job_id j \<noteq> job_id job"
        using only_row [OF v(1) job(1), of j] calculation job(2) assms(2) by blast
      ultimately have "j \<in> set (jobs d')"
        using mem_upd_other [of j "jobs d" "\<lambda>r. job_id r = job_id job"] reserve_job_Inr(2) [OF res] d1
        by simp
      moreover have "\<not> has_ready_work s" if "s \<in> set (scheduler_states d')" "ss_tenant s = job_tenant j" for s
        using that assms st(2) reserve_job_Inr(2) [OF res] d1
        by (auto simp: untouched_def set_rows_update split: if_splits)
      ultimately show ?thesis using v(2) run by (simp add: dispatch_one_def untouched_def)
    qed
  qed
qed

lemma dispatch_jobs_untouched:
  assumes "untouched j d"
  shows "untouched j (snd (dispatch_jobs envs d))"
  unfolding dispatch_jobs_def
proof (rule for_each_invariant [where I = "untouched j", OF _ assms])
  fix t x
  assume t: "t \<in> set (ready_tenants d)" and x: "untouched j x"
  have "t \<noteq> job_tenant j"
  proof -
    have "t \<in> set (map ss_tenant (filter has_ready_work (scheduler_states d)))"
      using t unfolding ready_tenants_def by (rule in_set_takeD)
    then show ?thesis using assms by (auto simp: untouched_def)
  qed
  with x show "untouched j (snd (dispatch_one envs t x))" by (rule dispatch_untouched)
qed

text \<open>
  C38. The scheduler forgets delayed jobs: after the submission of a job for a later time and the
  refresh that follows it, with no other job of the tenant ready, no number of runs of
  \<open>dispatch_jobs\<close> at whatever times, also long after the job's time has come, dispatches it. Only
  another refresh of the tenant does.
\<close>

theorem delayed_job_forgotten:
  assumes "inv d" "submit_job now i g sub d = Inr ((j, True), d1)"
    and "refresh_scheduler_state rnow (job_tenant j) d1 = Inr d2" "rnow < available_at j"
    and "\<And>r. r \<in> set (jobs d) \<Longrightarrow> \<not> ready (job_tenant j) rnow r"
  shows "j \<in> set (jobs (fold (\<lambda>envs x. snd (dispatch_jobs envs x)) runs d2)) \<and> job_status j = WAITING"
proof -
  have d1: "d1 = d\<lparr>jobs := jobs d @ [j]\<rparr>" "job_status j = WAITING"
    using assms(2) by (cases rule: submit_job_cases; simp)+
  have "inv d1" by (rule inv_submit [OF assms(1,2)])
  then have v: "inv d2" using assms(3) by (rule inv_refresh)
  have jobs: "jobs d2 = jobs d @ [j]" using refresh_frame(2) [OF assms(3)] by (simp add: d1(1))
  have "\<not> ready (job_tenant j) rnow j" using assms(4) by (simp add: ready_def)
  then have "(\<exists>r \<in> set (jobs d1). ready (job_tenant j) rnow r) = False"
    using assms(5) by (auto simp: d1(1))
  then obtain s where s: "s \<in> set (scheduler_states d2)" "ss_tenant s = job_tenant j" "\<not> has_ready_work s"
    using refresh_flag [OF assms(3)] by (auto simp: flagged_def)
  have "x = s" if "x \<in> set (scheduler_states d2)" "ss_tenant x = job_tenant j" for x
    using same_key [OF keyedD(3) [OF invD(1) [OF v]] that(1) s(1)] that(2) s(2) by simp
  then have "untouched j d2" using v jobs s(3) by (auto simp: untouched_def)
  then have "untouched j (fold (\<lambda>envs x. snd (dispatch_jobs envs x)) runs d2)"
    by (induction runs arbitrary: d2) (simp_all add: dispatch_jobs_untouched)
  then show ?thesis using d1(2) by (simp add: untouched_def)
qed

definition idle_db :: db where
  "idle_db = sys_db (the (run_events steady [Create_Tenant 1 one_slot] init_sys))"

lemma idle_db_inv: "inv idle_db"
proof -
  obtain s where s: "run_events steady [Create_Tenant 1 one_slot] init_sys = Some s"
    by (simp add: run_defs)
  then have "inv (sys_db s)" by (intro weak.good_reachable reachable_any [OF run_events_reachable])
  then show ?thesis by (simp only: idle_db_def s option.sel)
qed

theorem delayed_job_forgotten_witness:
  "\<exists>j d1 d2. submit_job 0 11 ''g'' ((plain_submission JNull)\<lparr>sub_available_at := Some 500\<rparr>) idle_db
       = Inr ((j, True), d1)
     \<and> refresh_scheduler_state 1 1 d1 = Inr d2 \<and> available_at j = 500
     \<and> j \<in> set (jobs (snd (dispatch_jobs (\<lambda>_. plain_env 1000 31) d2)))"
proof -
  let ?sub = "(plain_submission JNull)\<lparr>sub_available_at := Some 500\<rparr>"
  obtain j d1 where c: "submit_job 0 11 ''g'' ?sub idle_db = Inr ((j, True), d1)"
    "job_tenant j = 1" "available_at j = 500" "jobs idle_db = []"
    by (simp add: idle_db_def run_defs)
  have "inv d1" by (rule inv_submit [OF idle_db_inv c(1)])
  then obtain d2 where d2: "refresh_scheduler_state 1 (job_tenant j) d1 = Inr d2"
    using refresh_total [OF invD(1)] by blast
  have "\<not> ready (job_tenant j) 1 r" if "r \<in> set (jobs idle_db)" for r using that c(4) by simp
  from delayed_job_forgotten [OF idle_db_inv c(1) d2 _ this, of "[\<lambda>_. plain_env 1000 31]"] c d2
  show ?thesis by auto
qed

end
