(* ===== verification/Recovery.thy ===== *)
theory Recovery
  imports Outcomes
begin

text \<open>
  The outbox batch, the recovery of a dispatch whose message was lost, and the lease of a running
  attempt: what the periodic tasks and the heartbeat achieve.
\<close>

section \<open>The outbox batch\<close>

text \<open>The rows behind \<open>pending_events\<close>, and the outbox after some of them were published.\<close>

definition pending_rows :: "time \<Rightarrow> nat \<Rightarrow> db \<Rightarrow> JobOutbox list" where
  "pending_rows now limit d = take limit (sort_key out_created_at
     (filter (\<lambda>e. out_status e = PENDING \<and> out_available_at e \<le> now) (outbox d)))"

definition published :: "(uuid \<Rightarrow> time) \<Rightarrow> JobOutbox list \<Rightarrow> db \<Rightarrow> db" where
  "published event_now es d = d\<lparr>outbox := rows_update (\<lambda>r. out_id r \<in> out_id ` set es)
     (\<lambda>r. r\<lparr>out_status := PUBLISHED, published_at := Some (event_now (out_id r))\<rparr>) (outbox d)\<rparr>"

lemma pending_events_rows: "pending_events now limit d = map out_id (pending_rows now limit d)"
  by (simp add: pending_events_def pending_rows_def take_map)

lemma pending_rows_mem:
  "e \<in> set (pending_rows now limit d) \<Longrightarrow> e \<in> set (outbox d) \<and> out_status e = PENDING"
  by (auto simp: pending_rows_def dest: in_set_takeD)

lemma distinct_map_sort_key: "distinct (map f (sort_key k xs)) = distinct (map f xs)"
proof -
  have "mset (map f (sort_key k xs)) = mset (map f xs)" by simp
  then show ?thesis by (rule mset_eq_imp_distinct_iff)
qed

lemma pending_rows_distinct:
  assumes "distinct (map out_id (outbox d))"
  shows "distinct (map out_id (pending_rows now limit d))"
proof -
  have "distinct (map out_id (sort_key out_created_at
      (filter (\<lambda>e. out_status e = PENDING \<and> out_available_at e \<le> now) (outbox d))))"
    using assms by (simp add: distinct_map_sort_key distinct_map_filter)
  then show ?thesis by (simp add: pending_rows_def take_map [symmetric])
qed

lemma published_Cons:
  assumes "e \<in> set (outbox d)" "distinct (map out_id (outbox d))" "out_id e \<notin> out_id ` set es"
  shows "published enow es (published enow [e] d) = published enow (e # es) d"
  using assms(3) by (auto simp: published_def rows_update_def)

lemma publish_one:
  assumes "distinct (map out_id (outbox d))" "e \<in> set (outbox d)" "out_status e = PENDING"
    and "delay (out_job e) = None"
  shows "publish_event (enow (out_id e)) delay str_exc (out_id e) (d, q)
     = (Inr (), (published enow [e] d, q @ [out_job e]))"
proof -
  have get: "get_outbox (out_id e) d = Inr e"
    using row_get_distinct [OF assms(1)] assms(2) by (simp add: get_outbox_def)
  have "x = e" if "x \<in> set (outbox d)" "out_id x = out_id e" for x
    using same_key [OF assms(1) that(1) assms(2) that(2)] .
  then have "rows_update (\<lambda>r. out_id r = out_id e) (\<lambda>x. x\<lparr>out_status := PUBLISHED,
      published_at := Some (enow (out_id e)), publish_attempts := publish_attempts e,
      last_error := last_error e\<rparr>) (outbox d)
    = rows_update (\<lambda>r. out_id r = out_id e) (\<lambda>r. r\<lparr>out_status := PUBLISHED,
      published_at := Some (enow (out_id r))\<rparr>) (outbox d)"
    by (intro rows_update_cong) fastforce
  then show ?thesis
    by (simp add: publish_event_def publish_event_body_def get assms(3,4) Let_def save_outbox_def
        published_def)
qed

lemma published_keeps:
  assumes "x \<in> set (outbox d)" "out_id x \<noteq> out_id e"
  shows "x \<in> set (outbox (published enow [e] d))"
  using mem_upd_other [OF assms(1), of "\<lambda>r. out_id r = out_id e"] assms(2)
  by (simp add: published_def)

lemma published_ids: "map out_id (outbox (published enow es d)) = map out_id (outbox d)"
  by (simp add: published_def map_rows_update)

text \<open>The loop over events that the broker accepts, followed by any others.\<close>

lemma publish_run:
  assumes "distinct (map out_id (outbox d))" "distinct (map out_id es)"
    and "\<forall>e \<in> set es. e \<in> set (outbox d) \<and> out_status e = PENDING \<and> delay (out_job e) = None"
  shows "for_each (\<lambda>i. publish_event (enow i) delay str_exc i) (map out_id es @ rest) (d, q)
     = for_each (\<lambda>i. publish_event (enow i) delay str_exc i) rest
         (published enow es d, q @ map out_job es)"
  using assms
proof (induction es arbitrary: d q)
  case Nil
  have "published enow [] d = d" by (simp add: published_def rows_update_def)
  then show ?case by simp
next
  case (Cons e es)
  let ?d1 = "published enow [e] d"
  have e: "e \<in> set (outbox d)" "out_status e = PENDING" "delay (out_job e) = None"
    using Cons.prems(3) by simp_all
  have notin: "out_id e \<notin> out_id ` set es" using Cons.prems(2) by simp
  have d1: "distinct (map out_id (outbox ?d1))" using Cons.prems(1) by (simp add: published_ids)
  have rest: "x \<in> set (outbox ?d1) \<and> out_status x = PENDING \<and> delay (out_job x) = None"
    if x: "x \<in> set es" for x
  proof -
    have "out_id x \<noteq> out_id e" using notin x by (metis image_eqI)
    then show ?thesis using Cons.prems(3) x published_keeps [of x d e enow] by simp
  qed
  have "for_each (\<lambda>i. publish_event (enow i) delay str_exc i) (map out_id es @ rest) (?d1, q @ [out_job e])
     = for_each (\<lambda>i. publish_event (enow i) delay str_exc i) rest
         (published enow es ?d1, (q @ [out_job e]) @ map out_job es)"
    using Cons.prems(2) rest by (intro Cons.IH [OF d1]) simp_all
  then show ?case
    using publish_one [where enow = enow and delay = delay, OF Cons.prems(1) e, of str_exc q]
      published_Cons [OF e(1) Cons.prems(1) notin, of enow] by simp
qed

text \<open>
  C25. The outbox batch: when the broker accepts the messages, the pending events that are due are
  published, oldest first and at most \<open>limit\<close> of them; their messages are appended to the broker's
  in that order, and nothing else changes.
\<close>

theorem outbox_batch:
  assumes "inv d" "\<And>e. e \<in> set (pending_rows now limit d) \<Longrightarrow> delay (out_job e) = None"
  shows "publish_pending now event_now delay str_exc limit (d, q)
     = (Inr (), (published event_now (pending_rows now limit d) d,
         q @ map out_job (pending_rows now limit d)))"
proof -
  have k: "distinct (map out_id (outbox d))" using invD(1) [OF assms(1)] by (rule keyedD)
  have "\<forall>e \<in> set (pending_rows now limit d).
      e \<in> set (outbox d) \<and> out_status e = PENDING \<and> delay (out_job e) = None"
    using pending_rows_mem assms(2) by blast
  from publish_run [OF k pending_rows_distinct [OF k] this, of event_now str_exc "[]" q]
  show ?thesis by (simp add: publish_pending_def pending_events_rows)
qed

theorem outbox_batch_witness:
  "\<exists>d'. publish_pending 9 (\<lambda>_. 10) (\<lambda>_. None) (\<lambda>_. []) 100 (queued_db, []) = (Inr (), (d', [11]))"
proof -
  have "map out_job (pending_rows 9 100 queued_db) = [11]"
    by (simp add: pending_rows_def queued_defs run_defs)
  then show ?thesis
    using outbox_batch [OF queued_db_inv, of 9 100 "\<lambda>_. None" "\<lambda>_. 10" "\<lambda>_. []" "[]"] by simp
qed

text \<open>
  C26. An event that cannot be published ends the batch: the events before it are published, its
  own row is unchanged, the exception leaves the task and no event after it is tried, however
  often the task runs while the broker refuses it.
\<close>

theorem outbox_blocked:
  assumes "inv d" "pending_rows now limit d = before @ e # after"
    and "\<And>x. x \<in> set before \<Longrightarrow> delay (out_job x) = None" "delay (out_job e) = Some exc"
  shows "publish_pending now event_now delay str_exc limit (d, q)
     = (Inl exc, (published event_now before d, q @ map out_job before))"
proof -
  have k: "distinct (map out_id (outbox d))" using invD(1) [OF assms(1)] by (rule keyedD)
  have dist: "distinct (map out_id (before @ e # after))"
    using pending_rows_distinct [OF k, of now limit] assms(2) by simp
  have e: "e \<in> set (outbox d)" "out_status e = PENDING"
    using pending_rows_mem [of e now limit d] assms(2) by simp_all
  have ok: "\<forall>x \<in> set before. x \<in> set (outbox d) \<and> out_status x = PENDING \<and> delay (out_job x) = None"
    using pending_rows_mem [of _ now limit d] assms(2,3) by simp
  let ?d1 = "published event_now before d"
  have "e \<in> set (outbox ?d1)"
    using mem_upd_other [OF e(1), of "\<lambda>r. out_id r \<in> out_id ` set before"] dist
    by (auto simp: published_def)
  then have "get_outbox (out_id e) ?d1 = Inr e"
    using row_get_distinct [of out_id "outbox ?d1"] k by (simp add: get_outbox_def published_ids)
  then have "publish_event (event_now (out_id e)) delay str_exc (out_id e) (?d1, q @ map out_job before)
      = (Inl exc, (?d1, q @ map out_job before))"
    by (simp add: publish_event_def publish_event_body_def e(2) assms(4) Let_def)
  with publish_run [OF k _ ok, of event_now str_exc "map out_id (e # after)" q] dist
  show ?thesis by (simp add: publish_pending_def pending_events_rows assms(2))
qed

theorem outbox_blocked_witness:
  "publish_pending 9 (\<lambda>_. 10) (\<lambda>_. Some (BrokerError ''down'')) (\<lambda>_. []) 100 (queued_db, [])
     = (Inl (BrokerError ''down''), (published (\<lambda>_. 10) [] queued_db, []))"
proof -
  obtain e where "pending_rows 9 100 queued_db = [] @ e # []"
    by (simp add: pending_rows_def queued_defs run_defs)
  from outbox_blocked [OF queued_db_inv this, of "\<lambda>_. Some (BrokerError ''down'')"] show ?thesis by simp
qed

section \<open>A dispatch whose message is lost\<close>

lemma waiting_unreserved:
  assumes "inv d" "job \<in> set (jobs d)" "job_status job = WAITING"
  shows "\<forall>r \<in> set (reservations d). res_job r \<noteq> job_id job"
    "\<forall>l \<in> set (overlap_locks d). lock_job l \<noteq> job_id job"
proof -
  have not: "\<not> occupying (job_status job)" by (simp add: occupying_def assms(3))
  show "\<forall>r \<in> set (reservations d). res_job r \<noteq> job_id job"
    using invD(3) [OF assms(1)] assms(2) not unfolding slots_ok_def by blast
  show "\<forall>l \<in> set (overlap_locks d). lock_job l \<noteq> job_id job"
  proof
    fix l
    assume "l \<in> set (overlap_locks d)"
    then obtain j where "j \<in> set (jobs d)" "job_id j = lock_job l" "occupying (job_status j)"
      using invD(6) [OF assms(1)] unfolding owners_ok_def by blast
    then show "lock_job l \<noteq> job_id job" using only_row [OF assms(1,2)] not by metis
  qed
qed

lemma refresh_counts:
  assumes "refresh_scheduler_state now t d = Inr d'" "\<exists>s \<in> set (scheduler_states d). ss_tenant s = t"
  shows "map (\<lambda>s. (ss_tenant s, active_reservations s)) (scheduler_states d')
    = map (\<lambda>s. (ss_tenant s, active_reservations s)) (scheduler_states d)"
  using assms(1)
proof (cases rule: refresh_cases)
  case (existing s)
  then show ?thesis by (simp add: save_scheduler_state_def rows_update_def)
next
  case new
  then show ?thesis using assms(2) by (auto simp: get_scheduler_state_def row_get_absent)
qed

text \<open>
  C27. Recovering is the inverse of dispatching: when a dispatched job's message is lost, the
  recovery always succeeds and gives back exactly what the dispatch took. Reservations, locks and
  every tenant's counter are those before the dispatch, and the job waits again; what remains of
  the dispatch is its time stamp and its outbox event.
\<close>

theorem dispatch_recover:
  assumes "inv d" "dispatch_next env t d = Inr (Some j, d1)"
  shows "\<exists>d2. recover_queued now rnow (job_id j) d1 = Inr d2
    \<and> reservations d2 = reservations d \<and> overlap_locks d2 = overlap_locks d
    \<and> map (\<lambda>s. (ss_tenant s, active_reservations s)) (scheduler_states d2)
      = map (\<lambda>s. (ss_tenant s, active_reservations s)) (scheduler_states d)
    \<and> jobs d2 = rows_update (\<lambda>r. job_id r = job_id j)
        (\<lambda>r. r\<lparr>queued_at := Some (de_now env), ready_since := now\<rparr>) (jobs d)
    \<and> attempts d2 = attempts d \<and> dead_letters d2 = dead_letters d"
  using invD(1) [OF assms(1)] assms(2)
proof (rule dispatch_next_Some)
  fix state tenant before job rest d0
  assume st: "state \<in> set (scheduler_states d)" "ss_tenant state = t"
    and cands: "dispatch_candidates env t d = before @ job # rest"
    and lock: "case resource_of env job of Inl _ \<Rightarrow> False | Inr None \<Rightarrow> d0 = d
       | Inr (Some k) \<Rightarrow> acquired job k d d0"
    and res: "reserve_job env job state d0 = Inr (j, d1)"
  note k = invD(1) [OF assms(1)]
  have job: "job \<in> set (jobs d)" "ready t (de_now env) job"
    using candidates_ready [of job env t d] cands by simp_all
  then have w: "job_tenant job = t" "job_status job = WAITING" by (simp_all add: ready_def)
  have j: "job_id j = job_id job" and d1: "d1 = reserved env job state d0"
    using reserve_job_Inr [OF res] by simp_all
  have d0: "jobs d0 = jobs d" "attempts d0 = attempts d" "reservations d0 = reservations d"
    "dead_letters d0 = dead_letters d" "scheduler_states d0 = scheduler_states d"
    "filter (\<lambda>l. lock_job l \<noteq> job_id job) (overlap_locks d0) = overlap_locks d"
    using lock waiting_unreserved(2) [OF assms(1) job(1) w(2)] acquired_simps [of job _ d d0]
    by (auto split: sum.splits option.splits elim!: acquired_cases simp: filter_id_conv new_overlap_lock_def)
  let ?q = "job\<lparr>job_status := QUEUED, queued_at := Some (de_now env)\<rparr>"
  have k1: "keyed d1" using invD(1) [OF inv_dispatch [OF assms]] .
  have q: "?q \<in> set (jobs d1)" "job_id ?q = job_id job"
    using job(1) by (auto simp: d1 d0 set_rows_update)
  let ?w = "save_job (job_id job) (\<lambda>r. r\<lparr>job_status := WAITING, ready_since := now\<rparr>) d1"
  have state: "has_state t d1" using st by (auto simp: has_state_def d1 d0 bex_rows_update)
  have "distinct (map ss_tenant (scheduler_states ?w))" using keyedD(3) [OF k1] by simp
  moreover have "release_capacity (?q\<lparr>job_status := WAITING, ready_since := now\<rparr>) = release_capacity job"
    by (rule release_capacity_cong) simp_all
  ultimately have rel: "release_capacity (?q\<lparr>job_status := WAITING, ready_since := now\<rparr>) ?w = Inr (released job ?w)"
    using state w(1) by (simp add: release_capacity_eq)
  have "distinct (map ss_tenant (scheduler_states (released job ?w)))"
    using keyedD(3) [OF k1] by (simp add: map_rows_update)
  then obtain d2 where d2: "refresh_scheduler_state rnow t (released job ?w) = Inr d2"
    using refresh_distinct by blast
  have "get_job (job_id job) d1 = Inr ?q" using k1 q by simp
  then have run: "recover_queued now rnow (job_id j) d1 = Inr d2"
    using rel d2 w(1) by (simp add: recover_queued_def j Let_def)
  note frame = refresh_frame [OF d2]
  have "reservations d2 = reservations d"
    using waiting_unreserved(1) [OF assms(1) job(1) w(2)]
    by (simp add: frame d1 d0 new_reservation_def rows_delete_def filter_id_conv)
  moreover have "overlap_locks d2 = overlap_locks d"
    using d0(6) by (simp add: frame d1 rows_delete_def)
  moreover have "jobs d2 = rows_update (\<lambda>r. job_id r = job_id j)
      (\<lambda>r. r\<lparr>queued_at := Some (de_now env), ready_since := now\<rparr>) (jobs d)"
  proof -
    have "r\<lparr>queued_at := Some (de_now env), job_status := WAITING, ready_since := now\<rparr>
        = r\<lparr>queued_at := Some (de_now env), ready_since := now\<rparr>"
      if "r \<in> set (jobs d)" "job_id r = job_id job" for r
      using only_row [OF assms(1) job(1) that] w(2) by simp
    then show ?thesis by (simp add: frame d1 d0 j rows_update_def)
  qed
  moreover have "map (\<lambda>s. (ss_tenant s, active_reservations s)) (scheduler_states d2)
      = map (\<lambda>s. (ss_tenant s, active_reservations s)) (scheduler_states d)"
  proof -
    have "active_reservations s = active_reservations state"
      if "s \<in> set (scheduler_states d)" "ss_tenant s = t" for s
      using same_key [OF keyedD(3) [OF k] that(1) st(1)] that(2) st(2) by simp
    then have "map (\<lambda>s. (ss_tenant s, active_reservations s)) (scheduler_states (released job ?w))
        = map (\<lambda>s. (ss_tenant s, active_reservations s)) (scheduler_states d)"
      by (simp add: d1 d0 w(1) st(2) rows_update_def)
    moreover have "\<exists>s \<in> set (scheduler_states (released job ?w)). ss_tenant s = t"
      using state unfolding released_simps has_state_def by (subst bex_upd_same) simp_all
    ultimately show ?thesis using refresh_counts [OF d2] by simp
  qed
  moreover have "attempts d2 = attempts d" "dead_letters d2 = dead_letters d"
    by (simp_all add: frame d1 d0)
  ultimately show ?thesis using run by blast
qed

theorem dispatch_recover_witness:
  "\<exists>j d1 d2. dispatch_next (plain_env 9 39) 1 waiting_db = Inr (Some j, d1)
     \<and> recover_queued 400 401 (job_id j) d1 = Inr d2 \<and> reservations d2 = []"
proof -
  obtain j d1 where d1: "dispatch_next (plain_env 9 39) 1 waiting_db = Inr (Some j, d1)"
    by (simp add: waiting_defs run_defs)
  moreover have "reservations waiting_db = []" by (simp add: waiting_defs run_defs)
  ultimately show ?thesis using dispatch_recover [OF waiting_db_inv d1, of 400 401] by auto
qed

section \<open>The lease\<close>

text \<open>
  C28. The heartbeat: it answers whether the attempt is RUNNING; if so, it moves the lease of the
  attempt and of its job's reservation to 300 seconds from now, and changes nothing otherwise. Within
  those 300 seconds the reaper's query does not return the attempt.
\<close>

theorem heartbeat_renews:
  assumes "inv d" "a \<in> set (attempts d)" "t \<le> now + timedelta_seconds 300"
  shows "heartbeat now (att_id a) d =
      (if att_status a = RUNNING
       then (True, d\<lparr>attempts := rows_update (\<lambda>b. att_id b = att_id a)
               (\<lambda>b. b\<lparr>heartbeat_at := Some now, lease_expires_at := Some (now + timedelta_seconds 300)\<rparr>)
               (attempts d),
             reservations := rows_update (\<lambda>r. res_job r = att_job a)
               (\<lambda>r. r\<lparr>res_expires_at := now + timedelta_seconds 300\<rparr>) (reservations d)\<rparr>)
       else (False, d))
    \<and> att_id a \<notin> set (expired_attempts t limit (snd (heartbeat now (att_id a) d)))"
proof -
  have only: "b = a" if "b \<in> set (attempts d)" "att_id b = att_id a" for b
    using same_key [OF keyedD(2) [OF invD(1) [OF assms(1)]] that(1) assms(2) that(2)] .
  have query: "heartbeat_query (att_id a) d = (if att_status a = RUNNING then Some a else None)"
  proof (cases "heartbeat_query (att_id a) d")
    case None
    then show ?thesis using assms(2) by (auto simp: heartbeat_query_None)
  next
    case (Some b)
    then show ?thesis using only heartbeat_query_Some [OF Some] by auto
  qed
  then have beat: "heartbeat now (att_id a) d =
      (if att_status a = RUNNING
       then (True, d\<lparr>attempts := rows_update (\<lambda>b. att_id b = att_id a)
               (\<lambda>b. b\<lparr>heartbeat_at := Some now, lease_expires_at := Some (now + timedelta_seconds 300)\<rparr>)
               (attempts d),
             reservations := rows_update (\<lambda>r. res_job r = att_job a)
               (\<lambda>r. r\<lparr>res_expires_at := now + timedelta_seconds 300\<rparr>) (reservations d)\<rparr>)
       else (False, d))"
    by (simp add: heartbeat_def heartbeat_update_attempt_def heartbeat_update_reservation_def LEASE_SECONDS_def)
  have "\<not> (att_id b = att_id a \<and> att_status b = RUNNING
      \<and> (case lease_expires_at b of None \<Rightarrow> False | Some u \<Rightarrow> u < t))"
    if "b \<in> set (attempts (snd (heartbeat now (att_id a) d)))" for b
    using that only assms(3) unfolding beat by (auto simp: set_rows_update split: if_splits)
  then have "att_id a \<notin> set (expired_attempts t limit (snd (heartbeat now (att_id a) d)))"
    by (fastforce simp: expired_attempts_def dest: in_set_takeD)
  with beat show ?thesis by blast
qed

theorem heartbeat_renews_witness:
  "fst (heartbeat 90 51 (sys_db demo)) = True
   \<and> 51 \<notin> set (expired_attempts 1000 100 (snd (heartbeat 90 51 (sys_db demo))))"
proof -
  have a: "hd (attempts (sys_db demo)) \<in> set (attempts (sys_db demo))"
    "att_id (hd (attempts (sys_db demo))) = 51" "att_status (hd (attempts (sys_db demo))) = RUNNING"
    by (simp_all add: demo_def demo_events_def run_defs)
  have "inv (sys_db demo)" by (rule weak.good_reachable [OF demo_reachable(3)])
  note beat = heartbeat_renews [OF this a(1), of 1000 90 100, unfolded a(2,3)]
  have "fst (heartbeat 90 51 (sys_db demo)) = True"
    using beat [THEN conjunct1] by (simp add: timedelta_seconds_def)
  moreover have "51 \<notin> set (expired_attempts 1000 100 (snd (heartbeat 90 51 (sys_db demo))))"
    by (rule beat [THEN conjunct2]) (simp add: timedelta_seconds_def)
  ultimately show ?thesis by blast
qed

end
