(* ===== verification/Services.thy ===== *)
theory Services
  imports Scenarios
begin

text \<open>
  What the services do, branch by branch, as properties of single calls on a consistent database:
  dispatching, claiming, completion and failure, cancellation, retries, replay, the outbox, the
  reaper and the worker's whole execution.
\<close>

section \<open>Dispatching\<close>

lemma sorted_split_before:
  assumes "sort_key f xs = (before @ x # rest) @ later_rows" "b \<in> set xs" "f b < f x"
  shows "b \<in> set before"
proof -
  have "sorted (map f (before @ x # rest @ later_rows))" using assms(1) sorted_sort_key [of f xs] by simp
  then have "\<forall>y \<in> set (rest @ later_rows). f x \<le> f y" by (auto simp: sorted_append)
  moreover have "b \<in> set (before @ x # rest @ later_rows)" using assms(1,2) set_sort [of f xs] by auto
  ultimately show ?thesis using assms(3) by (auto dest: leD)
qed

lemma refused_holder:
  assumes "acquire_overlap now i tk job k TENANT d = Inr (None, d)"
    and "\<forall>l \<in> set (overlap_locks d). lock_id l \<noteq> i \<and> lock_lease_token l \<noteq> tk"
  shows "\<exists>h. holds d (job_tenant job) k h"
proof -
  have "insert_overlap_lock (new_overlap_lock now i tk job k TENANT) d = Inl IntegrityError"
    using assms(1) by (cases rule: acquire_overlap_cases [of now i tk job k TENANT d]) auto
  then obtain r where "r \<in> set (overlap_locks d)" "lock_conflict r (new_overlap_lock now i tk job k TENANT)"
    using assms(2) by (auto simp: insert_overlap_lock_def split: if_splits)
  then show ?thesis by (auto simp: holds_def lock_conflict_def)
qed

text \<open>
  C14. The dispatcher serves by priority and then by waiting time: the job it picks is ready and
  its tenant below the limit, and every ready job that should have come before it (a smaller
  \<open>priority\<close>, or the same and an older \<open>ready_since\<close>) that no other transaction holds is waiting
  for a resource that is taken.
\<close>

theorem dispatch_order_respected:
  assumes "inv d" "dispatch_next env t d = Inr (Some j, d')"
    and "\<And>b l. l \<in> set (overlap_locks d) \<Longrightarrow> lock_id l \<noteq> de_lock_id env b \<and> lock_lease_token l \<noteq> de_lock_token env b"
  shows "\<exists>job st tn. job \<in> set (jobs d) \<and> j = job\<lparr>job_status := QUEUED, queued_at := Some (de_now env)\<rparr>
    \<and> ready t (de_now env) job \<and> \<not> de_locked env (job_id job)
    \<and> get_scheduler_state t d = Inr st \<and> get_tenant t d = Inr tn
    \<and> active_reservations st < max_concurrent_jobs tn
    \<and> (\<forall>b \<in> set (jobs d). ready t (de_now env) b \<and> \<not> de_locked env (job_id b)
         \<and> dispatch_order b < dispatch_order job \<longrightarrow>
         (\<exists>k h. resource_of env b = Inr (Some k) \<and> holds d t k h))"
proof (rule dispatch_next_Some [OF invD(1) [OF assms(1)] assms(2)])
  fix state tenant before job rest d1
  assume st: "state \<in> set (scheduler_states d)" "ss_tenant state = t"
    and tn: "tenant \<in> set (tenants d)" "ten_id tenant = t"
    and lim: "active_reservations state < max_concurrent_jobs tenant"
    and cand: "dispatch_candidates env t d = before @ job # rest"
    and refused: "\<forall>b \<in> set before. \<exists>k. resource_of env b = Inr (Some k)
       \<and> acquire_overlap (de_lock_now env (job_id b)) (de_lock_id env (job_id b))
           (de_lock_token env (job_id b)) b k TENANT d = Inr (None, d)"
    and res: "reserve_job env job state d1 = Inr (j, d')"
  have "job \<in> set (dispatch_candidates env t d)" using cand by simp
  note job = candidates_ready [OF this]
  let ?ready = "filter (\<lambda>j. ready t (de_now env) j \<and> \<not> de_locked env (job_id j)) (jobs d)"
  have sorted: "sort_key dispatch_order ?ready = (before @ job # rest)
      @ drop CANDIDATE_LIMIT (sort_key dispatch_order ?ready)"
    using cand by (metis append_take_drop_id dispatch_candidates_def)
  have "\<exists>k h. resource_of env b = Inr (Some k) \<and> holds d t k h"
    if b: "b \<in> set (jobs d)" "ready t (de_now env) b" "\<not> de_locked env (job_id b)"
      "dispatch_order b < dispatch_order job" for b
  proof -
    have "b \<in> set before" by (rule sorted_split_before [OF sorted]) (use b in simp_all)
    then obtain k where k: "resource_of env b = Inr (Some k)"
      "acquire_overlap (de_lock_now env (job_id b)) (de_lock_id env (job_id b))
           (de_lock_token env (job_id b)) b k TENANT d = Inr (None, d)" using refused by blast
    then show ?thesis using refused_holder [OF k(2)] assms(3) b(2) by (auto simp: ready_def)
  qed
  then show ?thesis
    using job lim st tn invD(1) [OF assms(1)] reserve_job_Inr(1) [OF res]
    by (intro exI [of _ job] exI [of _ state] exI [of _ tenant]) auto
qed

theorem dispatch_order_respected_witness:
  "\<exists>j d' job. dispatch_next (plain_env 9 39) 1 waiting_db = Inr (Some j, d') \<and> job_id j = 12
     \<and> job \<in> set (jobs waiting_db) \<and> j = job\<lparr>job_status := QUEUED, queued_at := Some 9\<rparr>"
proof -
  obtain j d' where jd: "dispatch_next (plain_env 9 39) 1 waiting_db = Inr (Some j, d')" "job_id j = 12"
    by (simp add: waiting_defs run_defs)
  have "lock_id l \<noteq> de_lock_id (plain_env 9 39) b \<and> lock_lease_token l \<noteq> de_lock_token (plain_env 9 39) b"
    if "l \<in> set (overlap_locks waiting_db)" for b l
    using that by (simp add: waiting_defs run_defs)
  from dispatch_order_respected [OF waiting_db_inv jd(1) this] jd show ?thesis
    by (auto simp: plain_env_def)
qed

lemma dispatch_takes:
  assumes "inv d" "dispatch_next env t d = Inr (Some j, d')"
  obtains job v ev ls where
    "job \<in> set (jobs d)" "job_status job = WAITING" "job_tenant job = t"
    "j = job\<lparr>job_status := QUEUED, queued_at := Some (de_now env)\<rparr>"
    "jobs d' = rows_update (\<lambda>r. job_id r = job_id job)
      (\<lambda>r. r\<lparr>job_status := QUEUED, queued_at := Some (de_now env)\<rparr>) (jobs d)"
    "reservations d' = reservations d @ [v]" "res_job v = job_id job" "res_tenant v = t"
    "res_expires_at v = de_now env + timedelta_minutes 5"
    "outbox d' = outbox d @ [ev]" "out_job ev = job_id job" "out_status ev = PENDING"
    "out_available_at ev = de_now env"
    "scheduler_states d' = rows_update (\<lambda>s. ss_tenant s = t) (\<lambda>s. s\<lparr>active_reservations :=
         active_reservations s + 1, last_dispatched_at := Some (de_now env)\<rparr>) (scheduler_states d)"
    "overlap_locks d' = overlap_locks d @ ls" "length ls \<le> 1" "lock_job ` set ls \<subseteq> {job_id job}"
    "tenants d' = tenants d" "attempts d' = attempts d" "dead_letters d' = dead_letters d"
proof (rule dispatch_next_Some [OF invD(1) [OF assms(1)] assms(2)])
  fix state tenant before job rest d1
  assume st: "state \<in> set (scheduler_states d)" "ss_tenant state = t"
    and cands: "dispatch_candidates env t d = before @ job # rest"
    and lock: "case resource_of env job of Inl _ \<Rightarrow> False | Inr None \<Rightarrow> d1 = d
      | Inr (Some k) \<Rightarrow> acquired job k d d1"
    and res: "reserve_job env job state d1 = Inr (j, d')"
  have job: "job \<in> set (jobs d)" "ready t (de_now env) job"
    using candidates_ready [of job env t d] cands by simp_all
  have d1: "jobs d1 = jobs d" "tenants d1 = tenants d" "attempts d1 = attempts d"
    "reservations d1 = reservations d" "outbox d1 = outbox d" "dead_letters d1 = dead_letters d"
    "scheduler_states d1 = scheduler_states d"
    "\<exists>ls. overlap_locks d1 = overlap_locks d @ ls \<and> length ls \<le> 1 \<and> lock_job ` set ls \<subseteq> {job_id job}"
    using lock by (auto split: sum.splits option.splits dest: acquired_simps elim!: acquired_cases)
  have states: "rows_update (\<lambda>s. ss_tenant s = t) (\<lambda>s. s\<lparr>active_reservations :=
         active_reservations state + 1, last_dispatched_at := Some (de_now env)\<rparr>) (scheduler_states d)
      = rows_update (\<lambda>s. ss_tenant s = t) (\<lambda>s. s\<lparr>active_reservations :=
         active_reservations s + 1, last_dispatched_at := Some (de_now env)\<rparr>) (scheduler_states d)"
    by (rule rows_update_cong)
      (use same_key [OF keyedD(3) [OF invD(1) [OF assms(1)]] _ st(1)] st(2) in metis)
  obtain ls where ls: "overlap_locks d1 = overlap_locks d @ ls" "length ls \<le> 1"
    "lock_job ` set ls \<subseteq> {job_id job}" using d1(8) by blast
  show thesis
    using states d1(1-7) st(2) job ls reserve_job_Inr(1,2) [OF res]
    by (intro that [of job "new_reservation env job t" "new_outbox_event env job" ls])
      (simp_all add: new_reservation_def new_outbox_event_def ready_def)
qed

text \<open>
  C15. What a dispatch writes, and nothing else: the job is QUEUED since now, it has a reservation
  for five minutes, its tenant's counter is one higher, a PENDING event for it is in the outbox,
  and at most one lock is taken, by it.
\<close>

theorem dispatch_writes:
  assumes "inv d" "dispatch_next env t d = Inr (Some j, d')"
  shows "jobs d' = rows_update (\<lambda>r. job_id r = job_id j)
      (\<lambda>r. r\<lparr>job_status := QUEUED, queued_at := Some (de_now env)\<rparr>) (jobs d)
    \<and> (\<exists>v. reservations d' = reservations d @ [v] \<and> res_job v = job_id j \<and> res_tenant v = t
         \<and> res_expires_at v = de_now env + timedelta_minutes 5)
    \<and> (\<exists>ev. outbox d' = outbox d @ [ev] \<and> out_job ev = job_id j \<and> out_status ev = PENDING)
    \<and> scheduler_states d' = rows_update (\<lambda>s. ss_tenant s = t) (\<lambda>s. s\<lparr>active_reservations :=
         active_reservations s + 1, last_dispatched_at := Some (de_now env)\<rparr>) (scheduler_states d)
    \<and> (\<exists>ls. overlap_locks d' = overlap_locks d @ ls \<and> length ls \<le> 1 \<and> lock_job ` set ls \<subseteq> {job_id j})
    \<and> tenants d' = tenants d \<and> attempts d' = attempts d \<and> dead_letters d' = dead_letters d"
  using assms
proof (rule dispatch_takes)
  fix job v ev ls
  assume "j = job\<lparr>job_status := QUEUED, queued_at := Some (de_now env)\<rparr>"
    "jobs d' = rows_update (\<lambda>r. job_id r = job_id job)
      (\<lambda>r. r\<lparr>job_status := QUEUED, queued_at := Some (de_now env)\<rparr>) (jobs d)"
    "reservations d' = reservations d @ [v]" "res_job v = job_id job" "res_tenant v = t"
    "res_expires_at v = de_now env + timedelta_minutes 5"
    "outbox d' = outbox d @ [ev]" "out_job ev = job_id job" "out_status ev = PENDING"
    "scheduler_states d' = rows_update (\<lambda>s. ss_tenant s = t) (\<lambda>s. s\<lparr>active_reservations :=
         active_reservations s + 1, last_dispatched_at := Some (de_now env)\<rparr>) (scheduler_states d)"
    "overlap_locks d' = overlap_locks d @ ls" "length ls \<le> 1" "lock_job ` set ls \<subseteq> {job_id job}"
    "tenants d' = tenants d" "attempts d' = attempts d" "dead_letters d' = dead_letters d"
  then show ?thesis by simp
qed

theorem dispatch_writes_witness:
  "\<exists>j d' ev. dispatch_next (plain_env 9 39) 1 waiting_db = Inr (Some j, d')
     \<and> outbox d' = outbox waiting_db @ [ev] \<and> out_job ev = 12 \<and> out_status ev = PENDING"
proof -
  obtain j d' where jd: "dispatch_next (plain_env 9 39) 1 waiting_db = Inr (Some j, d')" "job_id j = 12"
    by (simp add: waiting_defs run_defs)
  from dispatch_writes [OF waiting_db_inv jd(1)] jd show ?thesis by auto
qed

text \<open>
  A dispatch without a choice changes nothing, and it has a reason: the tenant is at its
  limit, or each of the first ten ready jobs wants a resource that is taken.
\<close>

lemma try_candidates_None_refused:
  "try_candidates env state cs d = Inr (None, d') \<Longrightarrow> \<forall>b \<in> set cs. \<exists>k. resource_of env b = Inr (Some k)
     \<and> acquire_overlap (de_lock_now env (job_id b)) (de_lock_id env (job_id b))
         (de_lock_token env (job_id b)) b k TENANT d = Inr (None, d)"
proof (induction cs)
  case (Cons c cs)
  obtain v where v: "json_get (payload c) ''overlap_key'' = Inr v"
    using Cons.prems by (auto simp: result_bind_eq_Inr)
  have t: "truthy v" using v Cons.prems by (auto simp: result_bind_eq_Inr split: if_splits)
  let ?acq = "acquire_overlap (de_lock_now env (job_id c)) (de_lock_id env (job_id c))
      (de_lock_token env (job_id c)) c (char_field (de_str env) v) TENANT d"
  obtain lock d1 where acq: "?acq = Inr (lock, d1)" using v t Cons.prems by (auto simp: result_bind_eq_Inr)
  with Cons.prems v t have lock: "lock = None" and tail: "try_candidates env state cs d1 = Inr (None, d')"
    by (auto simp: result_bind_eq_Inr split: if_splits)
  have "d1 = d" using acq lock
    by (cases rule: acquire_overlap_cases [of "de_lock_now env (job_id c)" "de_lock_id env (job_id c)"
          "de_lock_token env (job_id c)" c "char_field (de_str env) v" TENANT d]) auto
  moreover have "resource_of env c = Inr (Some (char_field (de_str env) v))"
    using v t by (simp add: resource_of_def)
  ultimately show ?case using Cons.IH tail acq lock by auto
qed simp

lemma dispatch_idle:
  assumes "keyed d" "dispatch_next env t d = Inr (None, d')"
  shows "d' = d \<and> (\<exists>st tn. get_scheduler_state t d = Inr st \<and> get_tenant t d = Inr tn
    \<and> (max_concurrent_jobs tn \<le> active_reservations st
       \<or> (\<forall>b \<in> set (dispatch_candidates env t d). \<exists>k. resource_of env b = Inr (Some k)
            \<and> acquire_overlap (de_lock_now env (job_id b)) (de_lock_id env (job_id b))
                (de_lock_token env (job_id b)) b k TENANT d = Inr (None, d))))"
proof -
  obtain st tn where st: "st \<in> set (scheduler_states d)" "ss_tenant st = t"
    and tn: "tn \<in> set (tenants d)" "ten_id tn = t"
    and rest: "(if max_concurrent_jobs tn \<le> active_reservations st then Inr (None, d)
      else try_candidates env st (dispatch_candidates env t d) d) = Inr (None, d')"
    using assms by (auto simp: dispatch_next_def result_bind_eq_Inr)
  have "d' = d" by (rule dispatch_next_None [OF assms(2)])
  moreover have "max_concurrent_jobs tn \<le> active_reservations st
       \<or> (\<forall>b \<in> set (dispatch_candidates env t d). \<exists>k. resource_of env b = Inr (Some k)
            \<and> acquire_overlap (de_lock_now env (job_id b)) (de_lock_id env (job_id b))
                (de_lock_token env (job_id b)) b k TENANT d = Inr (None, d))"
    using rest try_candidates_None_refused by (metis (no_types, lifting))
  ultimately show ?thesis using st tn assms(1)
    by (intro conjI exI [of _ st] exI [of _ tn]) simp_all
qed

text \<open>
  C16. A dispatch makes progress: below the limit and with fresh keys, when the resources asked for
  by all of the first ten ready jobs are well-formed and one of those ten asks for none, some job
  is dispatched. (When the job that asks for none is behind the first ten, none may be: C17.)
\<close>

lemma try_candidates_progress:
  assumes "\<And>b. b \<in> set cs \<Longrightarrow> \<exists>r. resource_of env b = Inr r \<and> (\<forall>k. r = Some k \<longrightarrow> length k \<le> 255)"
    and "\<exists>b \<in> set cs. resource_of env b = Inr None"
    and "\<And>b v. b \<in> set cs \<Longrightarrow> v \<in> set (reservations d) \<Longrightarrow>
      res_id v \<noteq> de_reservation_id env \<and> res_lease_token v \<noteq> de_lease_token env \<and> res_job v \<noteq> job_id b"
    and "\<And>e. e \<in> set (outbox d) \<Longrightarrow> out_id e \<noteq> de_outbox_id env"
  shows "\<exists>j d'. try_candidates env state cs d = Inr (Some j, d')"
  using assms
proof (induction cs)
  case (Cons c cs)
  have reserve: "\<exists>j d'. reserve_job env c state d1 = Inr (j, d')"
    if "reservations d1 = reservations d" "outbox d1 = outbox d" for d1
    using that Cons.prems(3,4)
    by (auto simp: reserve_job_def insert_reservation_def new_reservation_def insert_outbox_def
        new_outbox_event_def save_job_def save_scheduler_state_def result_bind_eq_Inr Let_def)
  obtain v where v: "json_get (payload c) ''overlap_key'' = Inr v"
    using Cons.prems(1) [of c] by (auto simp: resource_of_def result_bind_eq_Inr)
  show ?case
  proof (cases "truthy v")
    case False
    then show ?thesis using v reserve [of d] by auto
  next
    case True
    let ?k = "char_field (de_str env) v"
    let ?acq = "acquire_overlap (de_lock_now env (job_id c)) (de_lock_id env (job_id c))
      (de_lock_token env (job_id c)) c ?k TENANT d"
    have k: "resource_of env c = Inr (Some ?k)" using v True by (simp add: resource_of_def)
    then have len: "length ?k \<le> 255" using Cons.prems(1) [of c] by auto
    show ?thesis
    proof (cases rule: acquire_overlap_cases [of "de_lock_now env (job_id c)" "de_lock_id env (job_id c)"
        "de_lock_token env (job_id c)" c ?k TENANT d])
      case (acquired d1)
      then show ?thesis using v True reserve [of d1] by auto
    next
      case refused
      have "\<exists>b \<in> set cs. resource_of env b = Inr None" using Cons.prems(2) k by auto
      then have "\<exists>j d'. try_candidates env state cs d = Inr (Some j, d')"
        using Cons.prems by (intro Cons.IH) auto
      then show ?thesis using refused v True by simp
    next
      case too_long
      with len show ?thesis by simp
    qed
  qed
qed simp

theorem dispatch_progress:
  assumes "inv d" "get_scheduler_state t d = Inr st" "get_tenant t d = Inr tn"
    and "active_reservations st < max_concurrent_jobs tn"
    and "\<And>b. b \<in> set (dispatch_candidates env t d) \<Longrightarrow>
      \<exists>r. resource_of env b = Inr r \<and> (\<forall>k. r = Some k \<longrightarrow> length k \<le> 255)"
    and "\<exists>b \<in> set (dispatch_candidates env t d). resource_of env b = Inr None"
    and "\<And>v. v \<in> set (reservations d) \<Longrightarrow>
      res_id v \<noteq> de_reservation_id env \<and> res_lease_token v \<noteq> de_lease_token env"
    and "\<And>e. e \<in> set (outbox d) \<Longrightarrow> out_id e \<noteq> de_outbox_id env"
  shows "\<exists>j d'. dispatch_next env t d = Inr (Some j, d')"
proof -
  have st: "ss_tenant st = t" using assms(1,2) invD(1) by simp
  have "res_job v \<noteq> job_id b"
    if b: "b \<in> set (dispatch_candidates env t d)" and v: "v \<in> set (reservations d)" for b v
  proof
    assume "res_job v = job_id b"
    then have "occupying (job_status b)"
      using invD(3) [OF assms(1)] candidates_ready(1) [OF b] v unfolding slots_ok_def by blast
    then show False using candidates_ready(2) [OF b] by (simp add: ready_def)
  qed
  then have "\<exists>j d'. try_candidates env st (dispatch_candidates env t d) d = Inr (Some j, d')"
    using assms(5-8) by (intro try_candidates_progress) auto
  then show ?thesis using assms(2-4) st by (simp add: dispatch_next_def)
qed

theorem dispatch_progress_witness: "\<exists>j d'. dispatch_next (plain_env 9 39) 1 waiting_db = Inr (Some j, d')"
proof -
  obtain st tn where st: "get_scheduler_state 1 waiting_db = Inr st" "get_tenant 1 waiting_db = Inr tn"
    "active_reservations st < max_concurrent_jobs tn"
    by (simp add: waiting_defs run_defs)
  show ?thesis
    by (rule dispatch_progress [OF waiting_db_inv st])
      (auto simp: waiting_defs run_defs resource_of_def)
qed

text \<open>
  C18. One malformed job stops the beat task: when the first ready job of a tenant has a payload
  that is no JSON object, dispatching that tenant raises \<open>AttributeError\<close>, the task ends, and no
  tenant after it is served.
\<close>

theorem poison_job_stops_dispatching:
  assumes "keyed d" "ready_tenants d = t # ts" "get_scheduler_state t d = Inr st" "get_tenant t d = Inr tn"
    and "active_reservations st < max_concurrent_jobs tn"
    and "dispatch_candidates (envs t) t d = c # cs" "\<And>kvs. payload c \<noteq> JObj kvs"
  shows "dispatch_jobs envs d = (Inl AttributeError, d)"
proof -
  have "json_get (payload c) ''overlap_key'' = Inl AttributeError"
    using assms(7) by (cases "payload c") (auto simp: json_get_def)
  moreover have "ss_tenant st = t" using assms(1,3) by simp
  ultimately have "dispatch_next (envs t) t d = Inl AttributeError"
    using assms(3-6) by (simp add: dispatch_next_def)
  then show ?thesis by (simp add: dispatch_jobs_def assms(2) dispatch_one_def)
qed

theorem poison_job_stops_dispatching_witness:
  "\<exists>s. run_events steady poison_events init_sys = Some s
     \<and> map ss_tenant (filter has_ready_work (scheduler_states (sys_db s))) = [1, 2]
     \<and> dispatch_jobs (\<lambda>t. plain_env 9 (30 + t)) (sys_db s) = (Inl AttributeError, sys_db s)"
proof -
  have s: "run_events steady poison_events init_sys = Some poisoned"
    by (simp add: poison_defs run_defs)
  have k: "keyed (sys_db poisoned)"
    using weak.good_reachable [OF reachable_any [OF run_events_reachable [OF s]]] by (rule invD)
  have two: "map ss_tenant (filter has_ready_work (scheduler_states (sys_db poisoned))) = [1, 2]"
    by (simp add: poison_defs run_defs)
  obtain st tn c where st: "get_scheduler_state 1 (sys_db poisoned) = Inr st"
    "get_tenant 1 (sys_db poisoned) = Inr tn" "active_reservations st < max_concurrent_jobs tn"
    and c: "dispatch_candidates (plain_env 9 (30 + 1)) 1 (sys_db poisoned) = [c]" "payload c = JList []"
    by (simp add: poison_defs run_defs)
  have ready: "ready_tenants (sys_db poisoned) = [1, 2]" unfolding ready_tenants_def two by simp
  have cand: "dispatch_candidates ((\<lambda>t. plain_env 9 (30 + t)) 1) 1 (sys_db poisoned) = c # []"
    using c(1) by simp
  have "dispatch_jobs (\<lambda>t. plain_env 9 (30 + t)) (sys_db poisoned) = (Inl AttributeError, sys_db poisoned)"
    by (rule poison_job_stops_dispatching [where envs = "\<lambda>t. plain_env 9 (30 + t)",
          OF k ready st cand]) (simp add: c(2))
  then show ?thesis by (intro exI [of _ poisoned] conjI s two)
qed

section \<open>Claiming\<close>

text \<open>
  C19. A job is claimed once: a claim makes it EXECUTING and creates its next attempt, RUNNING with
  a lease of five minutes, and a second delivery of its message, by any worker, then finds it
  taken and changes nothing.
\<close>

theorem claim_once:
  assumes "keyed d" "claim_job now host i jid d = Inr (Some (a, j), d1)"
  shows "job_status j = EXECUTING \<and> j \<in> set (jobs d1) \<and> a \<in> set (attempts d1)
    \<and> att_status a = RUNNING \<and> attempt_number a = attempt_count j
    \<and> lease_expires_at a = Some (now + timedelta_minutes 5)
    \<and> claim_job now' host' i' jid d1 = Inr (None, d1)"
proof (rule claim_job_Some [OF assms])
  fix job
  assume job: "job \<in> set (jobs d)" "job_id job = jid" "j = claimed_row now job"
    and a: "att_status a = RUNNING" "attempt_number a = Suc (attempt_count job)"
      "lease_expires_at a = Some (now + timedelta_minutes 5)"
    and d1: "d1 = d\<lparr>jobs := rows_update (\<lambda>r. job_id r = jid) (claimed_row now) (jobs d),
       attempts := attempts d @ [a]\<rparr>"
  have "claimed_row now job \<in> set (rows_update (\<lambda>r. job_id r = jid) (claimed_row now) (jobs d))"
    unfolding set_rows_update image_iff using job(1,2) by (intro bexI [of _ job]) simp_all
  then have j: "j \<in> set (jobs d1)" by (simp add: d1 job(3))
  have exec: "job_status r = EXECUTING" if "r \<in> set (jobs d1)" "job_id r = jid" for r
  proof -
    from that(1) have "r \<in> set (rows_update (\<lambda>r. job_id r = jid) (claimed_row now) (jobs d))"
      by (simp only: d1) simp
    then obtain x where "r = (if job_id x = jid then claimed_row now x else x)"
      unfolding set_rows_update by blast
    then show ?thesis using that(2) by (cases "job_id x = jid") simp_all
  qed
  have "job_id j = jid" using job(2,3) by simp
  then have ex: "\<exists>r \<in> set (jobs d1). job_id r = jid" using j by blast
  obtain r where r: "row_first job_id (filter (\<lambda>j. job_id j = jid) (jobs d1)) = Some r"
    using row_first_ex [of job_id "\<lambda>j. job_id j = jid" "jobs d1"] ex by blast
  then have "r \<in> set (jobs d1) \<and> job_id r = jid" by (auto dest: row_first_Some_D(1))
  then have "job_status r = EXECUTING" using exec by blast
  then have "claim_job now' host' i' jid d1 = Inr (None, d1)" by (simp add: claim_job_def r)
  then show ?thesis using j a job(3) by (simp add: d1)
qed

theorem claim_once_witness:
  "\<exists>a j d1. claim_job 5 ''host'' 51 11 queued_db = Inr (Some (a, j), d1)
     \<and> claim_job 6 ''other'' 52 11 d1 = Inr (None, d1)"
proof -
  obtain a j d1 where c: "claim_job 5 ''host'' 51 11 queued_db = Inr (Some (a, j), d1)"
    by (simp add: queued_defs run_defs)
  from claim_once [OF invD(1) [OF queued_db_inv] c] c show ?thesis by blast
qed

section \<open>Completion and failure\<close>

text \<open>
  The worker's report of success is always accepted, and this is all it writes: the attempt and
  the job are SUCCEEDED, the job's reservation and its locks are gone, the tenant's counter is one
  lower.
\<close>

lemma completion:
  assumes "inv d" "a \<in> set (attempts d)" "job \<in> set (jobs d)" "job_id job = att_job a"
  shows "\<exists>d'. complete_job now (att_id a) v d = Inr d'
    \<and> jobs d' = rows_update (\<lambda>j. job_id j = job_id job)
         (\<lambda>j. j\<lparr>job_status := SUCCEEDED, job_result := v, completed_at := Some now\<rparr>) (jobs d)
    \<and> attempts d' = rows_update (\<lambda>b. att_id b = att_id a)
         (\<lambda>b. b\<lparr>att_status := ATT_SUCCEEDED, finished_at := Some now\<rparr>) (attempts d)
    \<and> reservations d' = filter (\<lambda>r. res_job r \<noteq> job_id job) (reservations d)
    \<and> overlap_locks d' = filter (\<lambda>l. lock_job l \<noteq> job_id job) (overlap_locks d)
    \<and> scheduler_states d' = rows_update (\<lambda>s. ss_tenant s = job_tenant job)
         (\<lambda>s. s\<lparr>active_reservations := active_reservations s - 1\<rparr>) (scheduler_states d)
    \<and> outbox d' = outbox d \<and> dead_letters d' = dead_letters d \<and> tenants d' = tenants d"
  using complete_total [OF assms, of now v] by (simp add: rows_delete_def completed_row_def [abs_def])

end
