(* ===== verification/Pipeline.thy ===== *)
theory Pipeline
  imports Recovery Worker Services
begin

text \<open>
  The way of a job through the services, composed: dispatched, published, delivered and executed.
\<close>

lemma publish_pending_all:
  assumes "inv d" "\<And>e. e \<in> set (pending_rows now limit d) \<Longrightarrow> delay (out_job e) = None"
  shows "publish_pending now event_now delay str_exc limit (d, q)
     = (Inr (), (published event_now (pending_rows now limit d) d,
         q @ map out_job (pending_rows now limit d)))"
proof -
  have k: "distinct (map out_id (outbox d))" using invD(1) [OF assms(1)] by (rule keyedD)
  have "\<forall>e \<in> set (pending_rows now limit d).
      e \<in> set (outbox d) \<and> out_status e = PENDING \<and> delay (out_job e) = None"
    using pending_rows_mem assms(2) by blast
  from publish_run [OF k pending_rows_distinct [OF k] this, of event_now str_exc "[]" q]
  show ?thesis by (simp add: publish_pending_def pending_events_rows)
qed

lemma published_frame [simp]:
  "jobs (published f es d) = jobs d" "attempts (published f es d) = attempts d"
  "reservations (published f es d) = reservations d" "overlap_locks (published f es d) = overlap_locks d"
  "scheduler_states (published f es d) = scheduler_states d" "dead_letters (published f es d) = dead_letters d"
  "tenants (published f es d) = tenants d"
  by (simp_all add: published_def)

lemma inv_published: "inv d \<Longrightarrow> inv (published f es d)"
proof -
  assume v: "inv d"
  have "distinct (map out_id (outbox (published f es d)))"
    using keyedD(7) [OF invD(1) [OF v]] by (simp add: published_ids)
  then show ?thesis using inv_outbox [OF v] by (simp add: published_def)
qed

lemma pending_rows_all:
  assumes "e \<in> set (outbox d)" "out_status e = PENDING" "out_available_at e \<le> now"
    and "length (filter (\<lambda>e. out_status e = PENDING) (outbox d)) \<le> limit"
  shows "e \<in> set (pending_rows now limit d)"
proof -
  let ?due = "filter (\<lambda>e. out_status e = PENDING \<and> out_available_at e \<le> now) (outbox d)"
  have "length ?due \<le> length (filter (\<lambda>e. out_status e = PENDING) (outbox d))"
    by (metis (no_types) filter_filter length_filter_le)
  then have "length (sort_key out_created_at ?due) \<le> limit" using assms(4) by simp
  then show ?thesis using assms(1-3) by (simp add: pending_rows_def)
qed

lemma filter_rows_update:
  assumes "\<And>r. P r \<Longrightarrow> P (f r)"
  shows "filter (\<lambda>r. \<not> P r) (rows_update P f rows) = filter (\<lambda>r. \<not> P r) rows"
  using assms by (induction rows) (simp_all add: rows_update_def)

text \<open>A worker whose handler answers without touching the database completes the job.\<close>

lemma execute_quiet:
  assumes "inv d" "job \<in> set (jobs d)" "job_status job = QUEUED"
    and "\<And>a. a \<in> set (attempts d) \<Longrightarrow> att_id a \<noteq> ex_attempt_id w" "length (ex_hostname w) \<le> 255"
    and "get_handler reg (job_type job) = Inr h" "\<And>c x. h (payload job) c x = (Inr v, x)"
  obtains d' j' where "execute w reg (job_id job) d = (Inr (), d')"
    "j' \<in> set (jobs d')" "job_id j' = job_id job" "job_status j' = SUCCEEDED" "job_result j' = v"
    "attempt_count j' = Suc (attempt_count job)"
    "filter (\<lambda>r. job_id r \<noteq> job_id job) (jobs d') = filter (\<lambda>r. job_id r \<noteq> job_id job) (jobs d)"
    "reservations d' = rows_delete (\<lambda>r. res_job r = job_id job) (reservations d)"
    "overlap_locks d' = rows_delete (\<lambda>l. lock_job l = job_id job) (overlap_locks d)"
    "scheduler_states d' = rows_update (\<lambda>s. ss_tenant s = job_tenant job)
       (\<lambda>s. s\<lparr>active_reservations := active_reservations s - 1\<rparr>) (scheduler_states d)"
    "outbox d' = outbox d"
proof -
  obtain a d1 where c: "claim_job (ex_claim_now w) (ex_hostname w) (ex_attempt_id w) (job_id job) d
      = Inr (Some (a, claimed_row (ex_claim_now w) job), d1)"
    using claim_total [OF assms(1-5)] by blast
  have v1: "inv d1" by (rule inv_claim [OF assms(1) c])
  show thesis
    using invD(1) [OF assms(1)] c
  proof (rule claim_job_Some)
    fix job0
    assume a: "att_id a = ex_attempt_id w" "att_job a = job_id job"
      and d1: "d1 = d\<lparr>jobs := rows_update (\<lambda>r. job_id r = job_id job) (claimed_row (ex_claim_now w)) (jobs d),
        attempts := attempts d @ [a]\<rparr>"
    let ?j = "claimed_row (ex_claim_now w) job"
    have mem: "a \<in> set (attempts d1)" "?j \<in> set (jobs d1)" "job_id ?j = att_job a"
      using assms(2) a(2) by (auto simp: d1 set_rows_update)
    from complete_total [OF v1 mem, of "ex_complete_now w" v]
    obtain d2 where d2: "complete_job (ex_complete_now w) (att_id a) v d1 = Inr d2"
      "d2 = released ?j (save_job (job_id ?j) (completed_row (ex_complete_now w) v)
        (save_attempt (att_id a) (\<lambda>b. b\<lparr>att_status := ATT_SUCCEEDED, finished_at := Some (ex_complete_now w)\<rparr>) d1))"
      by blast
    have run: "execute w reg (job_id job) d = (Inr (), d2)"
      using c d2(1) assms(6,7) by (simp add: execute_def run_attempt_def claimed_row_def)
    have "completed_row (ex_complete_now w) v ?j \<in> set (jobs d2)"
      using mem(2) by (auto simp: d2(2) set_rows_update)
    moreover have "filter (\<lambda>r. job_id r \<noteq> job_id job) (jobs d2) = filter (\<lambda>r. job_id r \<noteq> job_id job) (jobs d)"
      by (simp add: d2(2) d1 filter_rows_update completed_row_def)
    ultimately show thesis
      by (intro that [OF run, of "completed_row (ex_complete_now w) v ?j"])
        (simp_all add: d2(2) d1 completed_row_def)
  qed
qed

text \<open>
  C32. The whole way of a job: when a dispatch has chosen it, the broker accepts the pending
  messages and the handler answers, then one run of the publisher puts its message into the
  broker, and the worker that receives it ends with the job SUCCEEDED, the answer stored and one
  more attempt counted; the slot, the locks and the tenant's counter are what they were before the
  dispatch, and no other job is touched.
\<close>

theorem job_journey:
  assumes "inv d" "dispatch_next env t d = Inr (Some j, d1)"
    and "\<And>e. e \<in> set (pending_rows now limit d1) \<Longrightarrow> delay (out_job e) = None" "de_now env \<le> now"
    and "length (filter (\<lambda>e. out_status e = PENDING) (outbox d1)) \<le> limit"
    and "get_handler reg (job_type j) = Inr h" "\<And>c x. h (payload j) c x = (Inr v, x)"
    and "\<And>a. a \<in> set (attempts d) \<Longrightarrow> att_id a \<noteq> ex_attempt_id w" "length (ex_hostname w) \<le> 255"
  shows "\<exists>d2 q' d3. publish_pending now enow delay str_exc limit (d1, q) = (Inr (), (d2, q'))
    \<and> job_id j \<in> set q' \<and> execute w reg (job_id j) d2 = (Inr (), d3)
    \<and> (\<exists>j' \<in> set (jobs d3). job_id j' = job_id j \<and> job_status j' = SUCCEEDED \<and> job_result j' = v
         \<and> attempt_count j' = Suc (attempt_count j))
    \<and> filter (\<lambda>r. job_id r \<noteq> job_id j) (jobs d3) = filter (\<lambda>r. job_id r \<noteq> job_id j) (jobs d)
    \<and> reservations d3 = reservations d \<and> overlap_locks d3 = overlap_locks d
    \<and> map (\<lambda>s. (ss_tenant s, active_reservations s)) (scheduler_states d3)
      = map (\<lambda>s. (ss_tenant s, active_reservations s)) (scheduler_states d)
    \<and> (\<exists>ev \<in> set (outbox d3). out_job ev = job_id j \<and> out_status ev = PUBLISHED)"
  using assms(1,2)
proof (rule dispatch_takes)
  fix job rv ev ls
  assume job: "job \<in> set (jobs d)" "job_status job = WAITING" "job_tenant job = t"
    and j: "j = job\<lparr>job_status := QUEUED, queued_at := Some (de_now env)\<rparr>"
    and jobs: "jobs d1 = rows_update (\<lambda>r. job_id r = job_id job)
      (\<lambda>r. r\<lparr>job_status := QUEUED, queued_at := Some (de_now env)\<rparr>) (jobs d)"
    and res: "reservations d1 = reservations d @ [rv]" "res_job rv = job_id job"
    and out: "outbox d1 = outbox d @ [ev]" "out_job ev = job_id job" "out_status ev = PENDING"
      "out_available_at ev = de_now env"
    and states: "scheduler_states d1 = rows_update (\<lambda>s. ss_tenant s = t) (\<lambda>s. s\<lparr>active_reservations :=
         active_reservations s + 1, last_dispatched_at := Some (de_now env)\<rparr>) (scheduler_states d)"
    and locks: "overlap_locks d1 = overlap_locks d @ ls" "lock_job ` set ls \<subseteq> {job_id job}"
    and atts: "attempts d1 = attempts d"
  let ?es = "pending_rows now limit d1" and ?d2 = "published enow (pending_rows now limit d1) d1"
  have v1: "inv d1" using inv_dispatch [OF assms(1,2)] .
  have ev: "ev \<in> set ?es" using out assms(4,5) by (intro pending_rows_all) auto
  have pub: "publish_pending now enow delay str_exc limit (d1, q) = (Inr (), (?d2, q @ map out_job ?es))"
    using assms(3) by (intro publish_pending_all [OF v1]) simp_all
  have sent: "job_id j \<in> set (q @ map out_job ?es)" using ev out(2) j by (auto intro: rev_image_eqI)
  have q: "j \<in> set (jobs ?d2)" "job_status j = QUEUED"
    using job(1) by (auto simp: jobs j set_rows_update)
  have fresh: "att_id a \<noteq> ex_attempt_id w" if "a \<in> set (attempts ?d2)" for a
    using that assms(8) atts by simp
  show ?thesis
  proof (rule execute_quiet [OF inv_published [OF v1] q fresh assms(9,6,7)])
    fix d3 j'
    assume run: "execute w reg (job_id j) ?d2 = (Inr (), d3)"
      and j': "j' \<in> set (jobs d3)" "job_id j' = job_id j" "job_status j' = SUCCEEDED" "job_result j' = v"
        "attempt_count j' = Suc (attempt_count j)"
      and rest: "filter (\<lambda>r. job_id r \<noteq> job_id j) (jobs d3) = filter (\<lambda>r. job_id r \<noteq> job_id j) (jobs ?d2)"
      and freed: "reservations d3 = rows_delete (\<lambda>r. res_job r = job_id j) (reservations ?d2)"
        "overlap_locks d3 = rows_delete (\<lambda>l. lock_job l = job_id j) (overlap_locks ?d2)"
        "scheduler_states d3 = rows_update (\<lambda>s. ss_tenant s = job_tenant j)
           (\<lambda>s. s\<lparr>active_reservations := active_reservations s - 1\<rparr>) (scheduler_states ?d2)"
        "outbox d3 = outbox ?d2"
    note un = waiting_unreserved [OF assms(1) job(1,2)]
    have "filter (\<lambda>r. job_id r \<noteq> job_id j) (jobs d3) = filter (\<lambda>r. job_id r \<noteq> job_id j) (jobs d)"
      using rest by (simp add: jobs j filter_rows_update)
    moreover have "reservations d3 = reservations d"
      using un(1) res j by (simp add: freed rows_delete_def filter_id_conv)
    moreover have "overlap_locks d3 = overlap_locks d"
      using un(2) locks j by (auto simp: freed rows_delete_def filter_id_conv filter_empty_conv)
    moreover have "map (\<lambda>s. (ss_tenant s, active_reservations s)) (scheduler_states d3)
        = map (\<lambda>s. (ss_tenant s, active_reservations s)) (scheduler_states d)"
      using job(3) j by (simp add: freed states rows_update_def)
    moreover have "\<exists>x \<in> set (outbox d3). out_job x = job_id j \<and> out_status x = PUBLISHED"
      using ev out j by (auto simp: freed published_def bex_rows_update)
    ultimately show ?thesis using pub sent run j' by blast
  qed
qed

theorem job_journey_witness:
  "\<exists>j d1 d2 q' d3. dispatch_next (plain_env 9 39) 1 waiting_db = Inr (Some j, d1)
     \<and> publish_pending 10 (\<lambda>_. 10) (\<lambda>_. None) (\<lambda>_. []) 100 (d1, []) = (Inr (), (d2, q'))
     \<and> execute plain_worker simulated_registry (job_id j) d2 = (Inr (), d3)
     \<and> reservations d3 = []"
proof -
  obtain j d1 where jd: "dispatch_next (plain_env 9 39) 1 waiting_db = Inr (Some j, d1)"
    "payload j = JObj []" "job_type j = ''REPORTS''" "length (outbox d1) = 1"
    by (simp add: waiting_defs run_defs)
  have h: "get_handler simulated_registry (job_type j) = Inr ReportHandler"
    by (simp add: jd(3) get_handler_def simulated_registry_def register_def)
  have quiet: "ReportHandler (payload j) c x
      = (Inr (JObj [(''report_id'', JNull), (''status'', JStr ''generated'')]), x)" for c x
    by (simp add: jd(2) ReportHandler_def sleeping_handler_def sleep_handler_def json_get_def)
  have few: "length (filter (\<lambda>e. out_status e = PENDING) (outbox d1)) \<le> 100"
    by (rule order_trans [OF length_filter_le]) (simp add: jd(4))
  have empty: "attempts waiting_db = []" "reservations waiting_db = []"
    by (simp_all add: waiting_defs run_defs)
  show ?thesis
    using job_journey [OF waiting_db_inv jd(1), of 10 100 "\<lambda>_. None" simulated_registry ReportHandler _ plain_worker
        "\<lambda>_. 10" "\<lambda>_. []" "[]", OF _ _ few h quiet] jd(1) empty
    by (auto simp: plain_env_def plain_worker_def)
qed

end
