(* ===== verification/Blocking.thy ===== *)
theory Blocking
  imports Services Outcomes
begin

text \<open>
  How far the dispatcher looks: \<open>CANDIDATE_LIMIT\<close> ready jobs that all wait for held resources hide
  every job behind them.
\<close>

lemma try_candidates_held:
  assumes "\<And>b. b \<in> set cs \<Longrightarrow> job_tenant b = t \<and>
    (\<exists>k h. resource_of env b = Inr (Some k) \<and> length k \<le> 255 \<and> holds d t k h)"
  shows "try_candidates env state cs d = Inr (None, d)"
  using assms
proof (induction cs)
  case (Cons c cs)
  obtain k h where k: "resource_of env c = Inr (Some k)" "length k \<le> 255" "holds d t k h"
    and t: "job_tenant c = t"
    using Cons.prems [of c] by auto
  obtain v where v: "json_get (payload c) ''overlap_key'' = Inr v" "truthy v" "k = char_field (de_str env) v"
    using k(1) by (auto simp: resource_of_def result_bind_eq_Inr split: if_splits)
  have "acquire_overlap (de_lock_now env (job_id c)) (de_lock_id env (job_id c))
      (de_lock_token env (job_id c)) c k TENANT d = Inr (None, d)"
    using k(2,3) t
    by (auto simp: acquire_overlap_def insert_overlap_lock_def lock_conflict_def holds_def Let_def)
  then show ?case using Cons.IH Cons.prems v by simp
qed simp

text \<open>The ten ready jobs ranked before all others are the candidates.\<close>

lemma candidates_among:
  assumes "distinct hs" "length hs = CANDIDATE_LIMIT"
    and "\<And>h. h \<in> set hs \<Longrightarrow> h \<in> set (jobs d) \<and> ready t (de_now env) h \<and> \<not> de_locked env (job_id h)"
    and "\<And>x h. x \<in> set (jobs d) \<Longrightarrow> ready t (de_now env) x \<Longrightarrow> x \<notin> set hs \<Longrightarrow> h \<in> set hs \<Longrightarrow>
      dispatch_order h < dispatch_order x"
  shows "set (dispatch_candidates env t d) \<subseteq> set hs"
proof
  fix c assume c: "c \<in> set (dispatch_candidates env t d)"
  show "c \<in> set hs"
  proof (rule ccontr)
    assume out: "c \<notin> set hs"
    have "h \<in> set (dispatch_candidates env t d)" if h: "h \<in> set hs" for h
    proof (rule ccontr)
      assume "h \<notin> set (dispatch_candidates env t d)"
      then have "dispatch_order c \<le> dispatch_order h"
        using c assms(3) [OF h] unfolding dispatch_candidates_def
        by (intro take_sort_least) auto
      then show False using assms(4) [OF candidates_ready(1,2) [OF c] out h] by simp
    qed
    then have "insert c (set hs) \<subseteq> set (dispatch_candidates env t d)" using c by blast
    then have "card (insert c (set hs)) \<le> length (dispatch_candidates env t d)"
      by (meson List.finite_set card_length card_mono order_trans)
    then show False
      using out candidates_length [of env t d] assms(1,2)
      by (simp add: distinct_card CANDIDATE_LIMIT_def)
  qed
qed

text \<open>
  C17. Waiting jobs block the jobs behind them: when ten ready jobs of a tenant, ranked before its
  other ready jobs, ask for resources that are held, no dispatch takes a job, however many jobs
  that need no resource are ready and however many slots are free.
\<close>

theorem waiting_jobs_block:
  assumes "get_scheduler_state t d = Inr st" "get_tenant t d = Inr tn"
    and "distinct hs" "length hs = CANDIDATE_LIMIT"
    and "\<And>h. h \<in> set hs \<Longrightarrow> h \<in> set (jobs d) \<and> ready t (de_now env) h \<and> \<not> de_locked env (job_id h)"
    and "\<And>h. h \<in> set hs \<Longrightarrow>
      \<exists>k i. resource_of env h = Inr (Some k) \<and> length k \<le> 255 \<and> holds d t k i"
    and "\<And>x h. x \<in> set (jobs d) \<Longrightarrow> ready t (de_now env) x \<Longrightarrow> x \<notin> set hs \<Longrightarrow> h \<in> set hs \<Longrightarrow>
      dispatch_order h < dispatch_order x"
  shows "dispatch_next env t d = Inr (None, d)"
proof -
  have "try_candidates env st (dispatch_candidates env t d) d = Inr (None, d)"
    using candidates_among [OF assms(3-5,7)] assms(6) candidates_ready(2)
    by (intro try_candidates_held) (auto simp: ready_def)
  moreover have "ss_tenant st = t" using assms(1) by (auto simp: get_scheduler_state_def dest: row_get_Inr_D)
  ultimately show ?thesis using assms(1,2) by (simp add: dispatch_next_def)
qed

text \<open>
  One job holds the resource, ten wait for it, and the eleventh needs none; one of two slots is free.
\<close>

definition waiter :: "nat \<Rightarrow> Job" where
  "waiter i = submitted_job (int i) i (replicate i CHR ''k'') (plain_submission locked_payload)"

definition free_job :: Job where
  "free_job = submitted_job 30 30 ''free'' (plain_submission (JObj []))"

definition blocked_db :: db where
  "blocked_db = empty_db\<lparr>
     tenants := [\<lparr>ten_id = 1, ten_name = ''acme'', is_active = True, max_concurrent_jobs = 2\<rparr>],
     jobs := (waiter 10)\<lparr>job_status := QUEUED, queued_at := Some 10\<rparr> # map waiter [11..<21] @ [free_job],
     reservations := [\<lparr>res_id = 31, res_job = 10, res_tenant = 1, res_lease_token = 31,
       res_expires_at = timedelta_minutes 5\<rparr>],
     overlap_locks := [new_overlap_lock 10 31 31 (waiter 10) ''ledger'' TENANT],
     scheduler_states := [(new_scheduler_state 1)\<lparr>active_reservations := 1, has_ready_work := True\<rparr>]\<rparr>"

lemma waiter_simps [simp]:
  "job_id (waiter i) = i" "job_tenant (waiter i) = 1" "job_status (waiter i) = WAITING"
  "available_at (waiter i) = int i" "ready_since (waiter i) = int i"
  "priority (waiter i) = JobPriority_value NORMAL" "payload (waiter i) = locked_payload"
  "priority free_job = JobPriority_value NORMAL" "ready_since free_job = 30"
  by (simp_all add: waiter_def free_job_def submitted_job_def plain_submission_def
      submission_defaults_def locked_payload_def Let_def)

lemma waiter_eq [simp]: "waiter i = waiter j \<longleftrightarrow> i = j"
  by (metis waiter_simps(1))

lemma blocked_db_inv: "inv blocked_db"
proof -
  have key: "idempotency_key (waiter i) = Some (replicate i CHR ''k'')" "attempt_count (waiter i) = 0"
    "wants (waiter i) = Some ''ledger''" for i
    by (simp_all add: waiter_def plain_submission_def submission_defaults_def wants_def
        submitted_job_def locked_payload_def json_get_def Let_def)
  have free: "idempotency_key free_job = Some ''free''" "attempt_count free_job = 0" "job_status free_job = WAITING"
    "job_id free_job = 30" "job_tenant free_job = 1"
    by (simp_all add: free_job_def plain_submission_def submission_defaults_def)
  have other: "replicate i CHR ''k'' \<noteq> ''free''" "''free'' \<noteq> replicate i CHR ''k''" for i
    by (cases i; simp)+
  show ?thesis
    by (auto simp: other inv_def keyed_def keys_unique_def slots_ok_def counts_le_def locks_ok_def
        owners_ok_def attempts_ok_def bounds_ok_def row_bounds_def dlq_ok_def stateful_def blocked_db_def
        empty_db_def key free wants_def locked_payload_def json_get_def tenant_reservations_def rows_count_def lock_held_def
        new_scheduler_state_def)
qed

theorem waiting_jobs_block_witness:
  "dispatch_next (plain_env 40 41) 1 blocked_db = Inr (None, blocked_db)
   \<and> inv blocked_db \<and> free_job \<in> set (jobs blocked_db) \<and> ready 1 40 free_job
   \<and> resource_of (plain_env 40 41) free_job = Inr None"
proof -
  have st: "get_scheduler_state 1 blocked_db = Inr ((new_scheduler_state 1)\<lparr>active_reservations := 1,
      has_ready_work := True\<rparr>)"
    "get_tenant 1 blocked_db = Inr (hd (tenants blocked_db))"
    by (simp_all add: blocked_db_def get_scheduler_state_def get_tenant_def row_get_def new_scheduler_state_def)
  have d: "distinct (map waiter [11..<21])"
    by (simp add: distinct_map inj_on_def)
  have len: "length (map waiter [11..<21]) = CANDIDATE_LIMIT" by (simp add: CANDIDATE_LIMIT_def)
  have free: "ready 1 40 free_job" "free_job \<in> set (jobs blocked_db)"
    "resource_of (plain_env 40 41) free_job = Inr None"
    by (simp_all add: ready_def free_job_def submitted_job_def plain_submission_def
        submission_defaults_def Let_def blocked_db_def resource_of_def json_get_def)
  have "dispatch_next (plain_env 40 41) 1 blocked_db = Inr (None, blocked_db)"
  proof (rule waiting_jobs_block [OF st d len])
    fix h assume "h \<in> set (map waiter [11..<21])"
    then obtain i where i: "h = waiter i" "11 \<le> i" "i < 21" by auto
    then show "h \<in> set (jobs blocked_db) \<and> ready 1 (de_now (plain_env 40 41)) h
        \<and> \<not> de_locked (plain_env 40 41) (job_id h)"
      by (simp add: blocked_db_def ready_def plain_env_def del: upt_rec_numeral)
    show "\<exists>k j. resource_of (plain_env 40 41) h = Inr (Some k) \<and> length k \<le> 255 \<and> holds blocked_db 1 k j"
      using i(1) by (simp add: resource_of_def locked_payload_def json_get_def char_field_def holds_def
          blocked_db_def)
    fix x assume x: "x \<in> set (jobs blocked_db)" "ready 1 (de_now (plain_env 40 41)) x"
      "x \<notin> set (map waiter [11..<21])"
    then have "x = free_job" by (auto simp: blocked_db_def ready_def)
    then show "dispatch_order h < dispatch_order x" using i by (simp add: dispatch_order_def)
  qed
  with free blocked_db_inv show ?thesis by simp
qed

end
