(* ===== verification/Http.thy ===== *)
theory Http
  imports Api
begin

text \<open>
  The HTTP interface: the URL configurations \<open>config/urls.py\<close>, \<open>jobs/urls.py\<close> and
  \<open>tenants/urls.py\<close> with the resolution of a path, and the dispatch of a request to the views of
  \<open>jobs/views.py\<close> and \<open>tenants/views.py\<close>. Django's \<open>uuid\<close> path converter is the argument
  \<open>to_uuid\<close>, the framework's validation of a request body an argument of the request. As with the
  ORM, what \<open>path\<close>, \<open>include\<close> and the generic views do with the code's declarations is taken from
  their documentation: the first pattern that matches the whole path wins, a converted part spans
  no slash, \<open>get_object\<close> answers 404 for a missing row. A path is the URL's path without its
  leading slash.
\<close>

section \<open>URL patterns\<close>

datatype view =
    JobListCreateView
  | JobDetailView
  | JobAttemptListView
  | JobCancelView
  | DeadLetterListView
  | DeadLetterDetailView
  | DeadLetterReplayView
  | TenantListCreateView
  | TenantDetailView

definition jobs_urlpatterns :: "(string \<times> view) list" where
  "jobs_urlpatterns =
     [(''jobs/'', JobListCreateView),
      (''jobs/<uuid:pk>/'', JobDetailView),
      (''jobs/<uuid:job_id>/attempts/'', JobAttemptListView),
      (''jobs/<uuid:pk>/cancel/'', JobCancelView),
      (''dead-letters/'', DeadLetterListView),
      (''dead-letters/<uuid:pk>/'', DeadLetterDetailView),
      (''dead-letters/<uuid:pk>/replay/'', DeadLetterReplayView)]"

definition tenants_urlpatterns :: "(string \<times> view) list" where
  "tenants_urlpatterns = [(''tenants/'', TenantListCreateView), (''tenants/<uuid:pk>/'', TenantDetailView)]"

definition include_urls :: "string \<Rightarrow> (string \<times> view) list \<Rightarrow> (string \<times> view) list" where
  "include_urls prefix patterns = map (\<lambda>(route, view). (prefix @ route, view)) patterns"

definition urlpatterns :: "(string \<times> view) list" where
  "urlpatterns = include_urls [] jobs_urlpatterns @ include_urls [] tenants_urlpatterns"

section \<open>Resolution of a path\<close>

text \<open>A route is the list of its parts between slashes, literal or to be converted.\<close>

datatype part = Literal string | Converted string

fun split_slash :: "string \<Rightarrow> string list" where
  "split_slash [] = [[]]"
| "split_slash (c # cs) =
     (if c = CHR ''/'' then [] # split_slash cs
      else case split_slash cs of [] \<Rightarrow> [[c]] | p # ps \<Rightarrow> (c # p) # ps)"

definition parse_part :: "string \<Rightarrow> part" where
  "parse_part s =
     (if take 6 s = ''<uuid:'' \<and> drop (length s - 1) s = ''>'' then Converted (butlast (drop 6 s))
      else Literal s)"

fun match_parts ::
  "(string \<Rightarrow> uuid option) \<Rightarrow> part list \<Rightarrow> string list \<Rightarrow> (string \<times> uuid) list option" where
  "match_parts to_uuid [] [] = Some []"
| "match_parts to_uuid (Literal l # ps) (s # ss) =
     (if s = l then match_parts to_uuid ps ss else None)"
| "match_parts to_uuid (Converted n # ps) (s # ss) =
     (case to_uuid s of
        None \<Rightarrow> None
      | Some k \<Rightarrow> map_option ((#) (n, k)) (match_parts to_uuid ps ss))"
| "match_parts to_uuid _ _ = None"

definition match_route :: "(string \<Rightarrow> uuid option) \<Rightarrow> string \<Rightarrow> string \<Rightarrow> (string \<times> uuid) list option" where
  "match_route to_uuid route path =
     match_parts to_uuid (map parse_part (split_slash route)) (split_slash path)"

fun first_match ::
  "(string \<Rightarrow> uuid option) \<Rightarrow> (string \<times> view) list \<Rightarrow> string \<Rightarrow> (view \<times> (string \<times> uuid) list) option" where
  "first_match to_uuid [] path = None"
| "first_match to_uuid ((route, view) # patterns) path =
     (case match_route to_uuid route path of
        Some kwargs \<Rightarrow> Some (view, kwargs)
      | None \<Rightarrow> first_match to_uuid patterns path)"

definition resolve :: "(string \<Rightarrow> uuid option) \<Rightarrow> string \<Rightarrow> (view \<times> (string \<times> uuid) list) option" where
  "resolve to_uuid path = first_match to_uuid urlpatterns path"

section \<open>Requests\<close>

datatype http_method = GET | POST | PUT | PATCH | DELETE

text \<open>The methods of the generic class a view derives from, or those it defines.\<close>

fun allowed_methods :: "view \<Rightarrow> http_method list" where
  "allowed_methods JobListCreateView = [GET, POST]"
| "allowed_methods JobDetailView = [GET]"
| "allowed_methods JobAttemptListView = [GET]"
| "allowed_methods JobCancelView = [POST]"
| "allowed_methods DeadLetterListView = [GET]"
| "allowed_methods DeadLetterDetailView = [GET]"
| "allowed_methods DeadLetterReplayView = [POST]"
| "allowed_methods TenantListCreateView = [GET, POST]"
| "allowed_methods TenantDetailView = [GET, PUT, PATCH]"

datatype body =
    No_Body
  | Jobs_Body "Job list"
  | Job_Body Job
  | Attempts_Body "JobAttempt list"
  | Dead_Letters_Body "DeadLetterJob list"
  | Dead_Letter_Body DeadLetterJob
  | Tenants_Body "Tenant list"
  | Tenant_Body Tenant

text \<open>What a request draws from its surroundings; \<open>True\<close> is a partial validation (PATCH).\<close>

record request_env =
  re_create :: create_env
  re_now :: time
  re_refresh_now :: time
  re_new_id :: uuid
  re_generated_key :: string
  re_header :: "string \<Rightarrow> string option"
  re_job_validation :: "json \<Rightarrow> validated_job result"
  re_tenant_validation :: "bool \<Rightarrow> json \<Rightarrow> tenant_input result"

text \<open>\<open>self.kwargs[name]\<close>.\<close>

definition kwarg :: "(string \<times> uuid) list \<Rightarrow> string \<Rightarrow> uuid result" where
  "kwarg kwargs name =
     (case map_of kwargs name of None \<Rightarrow> Inl (OtherError ''KeyError'') | Some k \<Rightarrow> Inr k)"

definition found :: "('r \<Rightarrow> body) \<Rightarrow> 'r option \<times> nat \<Rightarrow> body \<times> nat" where
  "found f r = (case r of (None, code) \<Rightarrow> (No_Body, code) | (Some x, code) \<Rightarrow> (f x, code))"

definition read_view :: "view \<Rightarrow> (string \<times> uuid) list \<Rightarrow> db \<Rightarrow> (body \<times> nat) result" where
  "read_view v kwargs d = (case v of
       JobListCreateView \<Rightarrow> Inr (Jobs_Body (job_list d), 200)
     | JobDetailView \<Rightarrow> result_bind (kwarg kwargs ''pk'') (\<lambda>pk. Inr (found Job_Body (job_detail pk d)))
     | JobAttemptListView \<Rightarrow>
         result_bind (kwarg kwargs ''job_id'') (\<lambda>k. Inr (Attempts_Body (job_attempts k d), 200))
     | DeadLetterListView \<Rightarrow> Inr (Dead_Letters_Body (dead_letter_list d), 200)
     | DeadLetterDetailView \<Rightarrow>
         result_bind (kwarg kwargs ''pk'') (\<lambda>pk. Inr (found Dead_Letter_Body (dead_letter_detail pk d)))
     | TenantListCreateView \<Rightarrow> Inr (Tenants_Body (tenant_list d), 200)
     | TenantDetailView \<Rightarrow>
         result_bind (kwarg kwargs ''pk'') (\<lambda>pk. Inr (found Tenant_Body (tenant_detail pk d)))
     | _ \<Rightarrow> Inr (No_Body, 405))"

definition job_response :: "(Job \<times> nat) result \<times> db \<Rightarrow> (body \<times> nat) result \<times> db" where
  "job_response r = (case r of
       (Inl e, d) \<Rightarrow> (Inl e, d)
     | (Inr (job, code), d) \<Rightarrow> (Inr (Job_Body job, code), d))"

definition tenant_create :: "request_env \<Rightarrow> json \<Rightarrow> db \<Rightarrow> (body \<times> nat) result \<times> db" where
  "tenant_create env data d =
     (case result_bind (re_tenant_validation env False data)
             (\<lambda>inp. create_tenant (re_new_id env) inp d) of
        Inl e \<Rightarrow> (Inl e, d)
      | Inr (t, d1) \<Rightarrow> (Inr (Tenant_Body t, 201), d1))"

definition tenant_update ::
  "request_env \<Rightarrow> bool \<Rightarrow> uuid \<Rightarrow> json \<Rightarrow> db \<Rightarrow> (body \<times> nat) result \<times> db" where
  "tenant_update env partial pk data d =
     (if tenant_detail pk d = (None, 404) then (Inr (No_Body, 404), d)
      else case result_bind (re_tenant_validation env partial data) (\<lambda>inp. update_tenant pk inp d) of
             Inl e \<Rightarrow> (Inl e, d)
           | Inr (t, d1) \<Rightarrow> (Inr (Tenant_Body t, 200), d1))"

definition write_view ::
  "request_env \<Rightarrow> http_method \<Rightarrow> view \<Rightarrow> (string \<times> uuid) list \<Rightarrow> json \<Rightarrow> db
     \<Rightarrow> (body \<times> nat) result \<times> db" where
  "write_view env m v kwargs data d = (case v of
       JobListCreateView \<Rightarrow>
         job_response (create_job (re_create env) (re_job_validation env) (re_header env) data d)
     | JobCancelView \<Rightarrow>
         (case kwarg kwargs ''pk'' of
            Inl e \<Rightarrow> (Inl e, d)
          | Inr pk \<Rightarrow> job_response (cancel_view (re_now env) pk d))
     | DeadLetterReplayView \<Rightarrow>
         (case kwarg kwargs ''pk'' of
            Inl e \<Rightarrow> (Inl e, d)
          | Inr pk \<Rightarrow> job_response (replay_view (re_now env) (re_refresh_now env) (re_new_id env)
                                     (re_generated_key env) pk d))
     | TenantListCreateView \<Rightarrow> tenant_create env data d
     | TenantDetailView \<Rightarrow>
         (case kwarg kwargs ''pk'' of
            Inl e \<Rightarrow> (Inl e, d)
          | Inr pk \<Rightarrow> tenant_update env (m = PATCH) pk data d)
     | _ \<Rightarrow> (Inr (No_Body, 405), d))"

text \<open>
  A request: 404 when no pattern matches the path, 405 when the view has no such method. An
  exception is what reaches the framework, which answers 400 or 500.
\<close>

definition handle_request ::
  "(string \<Rightarrow> uuid option) \<Rightarrow> request_env \<Rightarrow> http_method \<Rightarrow> string \<Rightarrow> json \<Rightarrow> db
     \<Rightarrow> (body \<times> nat) result \<times> db" where
  "handle_request to_uuid env m path data d =
     (case resolve to_uuid path of
        None \<Rightarrow> (Inr (No_Body, 404), d)
      | Some (v, kwargs) \<Rightarrow>
          if m \<notin> set (allowed_methods v) then (Inr (No_Body, 405), d)
          else if m = GET then (read_view v kwargs d, d)
          else write_view env m v kwargs data d)"

section \<open>The routes\<close>

text \<open>The patterns as they are compiled.\<close>

definition compiled :: "(part list \<times> view) list" where
  "compiled =
     [([Literal ''jobs'', Literal []], JobListCreateView),
      ([Literal ''jobs'', Converted ''pk'', Literal []], JobDetailView),
      ([Literal ''jobs'', Converted ''job_id'', Literal ''attempts'', Literal []], JobAttemptListView),
      ([Literal ''jobs'', Converted ''pk'', Literal ''cancel'', Literal []], JobCancelView),
      ([Literal ''dead-letters'', Literal []], DeadLetterListView),
      ([Literal ''dead-letters'', Converted ''pk'', Literal []], DeadLetterDetailView),
      ([Literal ''dead-letters'', Converted ''pk'', Literal ''replay'', Literal []], DeadLetterReplayView),
      ([Literal ''tenants'', Literal []], TenantListCreateView),
      ([Literal ''tenants'', Converted ''pk'', Literal []], TenantDetailView)]"

lemma compiled: "map (\<lambda>(route, v). (map parse_part (split_slash route), v)) urlpatterns = compiled"
  by code_simp

fun first_compiled ::
  "(string \<Rightarrow> uuid option) \<Rightarrow> (part list \<times> view) list \<Rightarrow> string list \<Rightarrow> (view \<times> (string \<times> uuid) list) option" where
  "first_compiled to_uuid [] ss = None"
| "first_compiled to_uuid ((ps, v) # rest) ss =
     (case match_parts to_uuid ps ss of Some kwargs \<Rightarrow> Some (v, kwargs) | None \<Rightarrow> first_compiled to_uuid rest ss)"

lemma first_match_compiled:
  "first_match to_uuid pats path
     = first_compiled to_uuid (map (\<lambda>(route, v). (map parse_part (split_slash route), v)) pats) (split_slash path)"
  by (induction pats) (auto simp: match_route_def split: option.splits)

lemma resolve_compiled: "resolve to_uuid path = first_compiled to_uuid compiled (split_slash path)"
  by (simp add: resolve_def first_match_compiled compiled)

lemma split_slash_append:
  "CHR ''/'' \<notin> set s \<Longrightarrow> split_slash (s @ CHR ''/'' # rest) = s # split_slash rest"
  by (induction s) auto

definition fits_part :: "(string \<Rightarrow> uuid option) \<Rightarrow> part \<Rightarrow> string \<Rightarrow> bool" where
  "fits_part to_uuid p s = (case p of Literal l \<Rightarrow> s = l | Converted n \<Rightarrow> to_uuid s \<noteq> None)"

lemma fits_part_simps [simp]:
  "fits_part to_uuid (Literal l) s \<longleftrightarrow> s = l"
  "fits_part to_uuid (Converted n) s \<longleftrightarrow> to_uuid s \<noteq> None"
  by (simp_all add: fits_part_def)

lemma match_parts_iff: "match_parts to_uuid ps ss \<noteq> None \<longleftrightarrow> list_all2 (fits_part to_uuid) ps ss"
  by (induction to_uuid ps ss rule: match_parts.induct) (auto split: option.splits)

lemma patterns_disjoint:
  "length (filter (\<lambda>(ps, v). match_parts to_uuid ps ss \<noteq> None) compiled) \<le> 1"
proof -
  have "length (filter (\<lambda>(ps, v). list_all2 (fits_part to_uuid) ps ss) compiled) \<le> 1"
  proof -
    consider "ss = []" | a where "ss = [a]" | a b where "ss = [a, b]" | a b c where "ss = [a, b, c]"
      | a b c d where "ss = [a, b, c, d]" | a b c d e rest where "ss = a # b # c # d # e # rest"
      by (metis list.exhaust)
    then show ?thesis by cases (auto simp: compiled_def)
  qed
  then show ?thesis by (simp only: match_parts_iff)
qed

lemma one_match: "length (filter (\<lambda>(route, v). match_route to_uuid route path \<noteq> None) urlpatterns) \<le> 1"
proof -
  have "length (filter P (map f xs)) = length (filter (P \<circ> f) xs)" for P :: "'b \<Rightarrow> bool" and f :: "'a \<Rightarrow> 'b" and xs
    by (simp add: filter_map)
  then have "length (filter (\<lambda>(ps, v). match_parts to_uuid ps (split_slash path) \<noteq> None) compiled)
      = length (filter (\<lambda>(route, v). match_route to_uuid route path \<noteq> None) urlpatterns)"
    unfolding compiled [symmetric] by (simp add: comp_def case_prod_unfold match_route_def)
  then show ?thesis using patterns_disjoint [of to_uuid "split_slash path"] by simp
qed

text \<open>
  Each documented endpoint is served: the path of the API's table, with any identifier the
  converter accepts in its place, is resolved to its view, and the identifier is passed under the
  name that view reads. No two patterns match the same path, so their order is irrelevant.
\<close>

lemma endpoints_resolve:
  assumes "to_uuid s = Some k" "CHR ''/'' \<notin> set s"
  shows "resolve to_uuid ''jobs/'' = Some (JobListCreateView, [])
    \<and> resolve to_uuid (''jobs/'' @ s @ ''/'') = Some (JobDetailView, [(''pk'', k)])
    \<and> resolve to_uuid (''jobs/'' @ s @ ''/attempts/'') = Some (JobAttemptListView, [(''job_id'', k)])
    \<and> resolve to_uuid (''jobs/'' @ s @ ''/cancel/'') = Some (JobCancelView, [(''pk'', k)])
    \<and> resolve to_uuid ''dead-letters/'' = Some (DeadLetterListView, [])
    \<and> resolve to_uuid (''dead-letters/'' @ s @ ''/'') = Some (DeadLetterDetailView, [(''pk'', k)])
    \<and> resolve to_uuid (''dead-letters/'' @ s @ ''/replay/'') = Some (DeadLetterReplayView, [(''pk'', k)])
    \<and> resolve to_uuid ''tenants/'' = Some (TenantListCreateView, [])
    \<and> resolve to_uuid (''tenants/'' @ s @ ''/'') = Some (TenantDetailView, [(''pk'', k)])
    \<and> length (filter (\<lambda>(route, v). match_route to_uuid route path \<noteq> None) urlpatterns) \<le> 1"
  using assms one_match
  by (cases "s = []") (simp_all add: resolve_compiled compiled_def split_slash_append)

end
