(* ===== verification/Requests.thy ===== *)
theory Requests
  imports Refinement Http
begin

text \<open>
  The HTTP interface as a client of the system: every request, whatever its method, path and body,
  is a sequence of the system's events, and what a request may change and answer.
\<close>

lemma run_events_mono:
  assumes "\<And>e s. G e s \<Longrightarrow> H e s" "run_events G es s = Some s'"
  shows "run_events H es s = Some s'"
  using assms(2) by (induction es arbitrary: s) (auto split: option.splits if_splits intro: assms(1))

lemma simulates_timely: "simulates steady s d \<Longrightarrow> simulates timely s d"
  unfolding simulates_def using run_events_mono [of steady timely] by (auto simp: steady_def)

lemma snd_job_response [simp]: "snd (job_response r) = snd r"
  by (auto simp: job_response_def split: prod.splits sum.splits)

lemma tenant_create_simulates: "simulates timely s (snd (tenant_create env data (sys_db s)))"
proof (cases "re_tenant_validation env False data")
  case (Inl e)
  then show ?thesis by (simp add: tenant_create_def simulates_refl)
next
  case (Inr inp)
  then show ?thesis
    by (intro simulates_event [of _ "Create_Tenant (re_new_id env) inp"])
      (auto simp: tenant_create_def tx_db db_of_def split: sum.splits prod.splits)
qed

lemma tenant_update_simulates: "simulates timely s (snd (tenant_update env partial pk data (sys_db s)))"
proof (cases "re_tenant_validation env partial data")
  case (Inl e)
  then show ?thesis by (simp add: tenant_update_def simulates_refl)
next
  case (Inr inp)
  show ?thesis
  proof (cases "tenant_detail pk (sys_db s) = (None, 404)")
    case True
    then show ?thesis by (simp add: tenant_update_def simulates_refl)
  next
    case False
    then show ?thesis using Inr
      by (intro simulates_event [of _ "Update_Tenant pk inp"])
        (auto simp: tenant_update_def tx_db db_of_def split: sum.splits prod.splits)
  qed
qed

lemma write_view_simulates: "simulates timely s (snd (write_view env m v kwargs data (sys_db s)))"
  by (cases v)
    (auto simp: write_view_def simulates_refl tenant_create_simulates tenant_update_simulates
      simulates_timely requests_refine split: sum.splits)

lemma handle_simulates: "simulates timely s (snd (handle_request to_uuid env m path data (sys_db s)))"
  by (auto simp: handle_request_def simulates_refl write_view_simulates split: option.splits)

text \<open>
  The entry points implement the system. Each run of \<open>dispatch_jobs\<close>, \<open>process_retries\<close>,
  \<open>publish_outbox\<close> and \<open>reconcile_zombies\<close>, also one that an exception cuts short, is a sequence of
  events, and all but the last one's are allowed in a timely run. So is every HTTP request, of any
  method, path and body, whatever the framework's validation answers and wherever an exception
  ends it.
\<close>

lemma entry_points_refine:
  "simulates steady s (snd (dispatch_jobs envs (sys_db s)))
   \<and> simulates steady s (case process_retries now locked rnow (sys_db s) of
        Inl e \<Rightarrow> sys_db s | Inr (n, d) \<Rightarrow> d)
   \<and> (\<exists>es. run_events steady es s = Some (s
        \<lparr>sys_db := fst (snd (publish_outbox now enow delay str_exc (sys_db s, sys_broker s))),
         sys_broker := snd (snd (publish_outbox now enow delay str_exc (sys_db s, sys_broker s)))\<rparr>))
   \<and> simulates any_event s (snd (reconcile_zombies env (sys_db s)))
   \<and> simulates timely s (snd (handle_request to_uuid renv m path data (sys_db s)))"
  by (simp only: tasks_refine handle_simulates simp_thms)

section \<open>What a request may do\<close>

lemma simulates_inv:
  assumes "simulates G s d" "inv (sys_db s)"
  shows "inv d"
proof -
  obtain es where "run_events G es s = Some (s\<lparr>sys_db := d\<rparr>)" using assms(1) by (auto simp: simulates_def)
  then have "later any_event s (s\<lparr>sys_db := d\<rparr>)"
    by (intro run_events_later run_events_mono [of G any_event]) (simp_all add: any_event_def)
  from weak.good_later [OF this] assms(2) show ?thesis by simp
qed

lemma handle_inv:
  assumes "inv d" "handle_request to_uuid env m path data d = (resp, d')"
  shows "inv d'"
proof -
  have "inv (snd (handle_request to_uuid env m path data d))"
    using simulates_inv [OF handle_simulates [of "\<lparr>sys_db = d, sys_broker = [], sys_workers = []\<rparr>"]] assms(1)
    by simp
  then show ?thesis using assms(2) by simp
qed

text \<open>
  A request succeeded when its answer is the row it wrote with status 200 or 201; the views answer
  nothing else than that, 404, 405 and the exceptions they let through.
\<close>

definition succeeded :: "(body \<times> nat) result \<Rightarrow> bool" where
  "succeeded resp \<longleftrightarrow> (case resp of Inl e \<Rightarrow> False | Inr (b, code) \<Rightarrow> code = 200 \<or> code = 201)"

definition refused :: "(body \<times> nat) result \<Rightarrow> bool" where
  "refused resp \<longleftrightarrow> (case resp of Inl e \<Rightarrow> True | Inr (b, code) \<Rightarrow> b = No_Body \<and> (code = 404 \<or> code = 405))"

lemma answer_simps [simp]:
  "refused (Inl e)" "\<not> succeeded (Inl e)" "succeeded (Inr (b, 200))" "succeeded (Inr (b, 201))"
  "refused (Inr (No_Body, 404))" "refused (Inr (No_Body, 405))"
  by (simp_all add: refused_def succeeded_def)

lemma create_job_effect:
  assumes "inv d" "job_response (create_job env super header data d) = (resp, d')"
  shows "succeeded resp \<or> refused resp \<and> d' = d"
proof (cases "result_bind (to_internal_value super data) (\<lambda>v.
    result_bind (or_header (header ''Idempotency-Key'') (or_header (header ''X-Idempotency-Key'')
      (json_get data ''idempotency_key'')))
      (\<lambda>key. Inr (v, if truthy key then Some (char_field (ce_str env) key) else None)))")
  case (Inl e)
  then show ?thesis using assms(2) by (auto simp: create_job_def job_response_def)
next
  case (Inr vk)
  obtain v key where vk: "vk = (v, key)" by (cases vk)
  note parsed = Inr [unfolded vk]
  let ?submit = "submit_job (ce_now env) (ce_job_id env) (ce_generated_key env) (submission_of v key) d"
  show ?thesis
  proof (cases ?submit)
    case (Inl e)
    then show ?thesis using parsed assms(2) by (auto simp: create_job_def job_response_def)
  next
    case (Inr x)
    obtain job created d1 where x: "x = ((job, created), d1)" by (metis prod.exhaust)
    have "inv d1" using inv_submit [OF assms(1)] Inr x by simp
    then obtain d2 where d2: "refresh_scheduler_state (ce_refresh_now env) (job_tenant job) d1 = Inr d2"
      using refresh_total invD(1) by blast
    show ?thesis using parsed assms(2) Inr x d2
      by (cases created) (auto simp: create_job_def job_response_def)
  qed
qed

lemma tenant_effect:
  "tenant_create env data d = (resp, d') \<Longrightarrow> succeeded resp \<or> refused resp \<and> d' = d"
  "tenant_update env partial pk data d = (resp, d') \<Longrightarrow> succeeded resp \<or> refused resp \<and> d' = d"
  by (auto simp: tenant_create_def tenant_update_def split: sum.splits if_splits prod.splits)

lemma job_request_effect:
  "job_response (cancel_view now pk d) = (resp, d') \<Longrightarrow> succeeded resp \<or> refused resp \<and> d' = d"
  "job_response (replay_view now rnow i g x d) = (resp, d') \<Longrightarrow> succeeded resp \<or> refused resp \<and> d' = d"
  by (auto simp: cancel_view_def replay_view_def job_response_def split: sum.splits prod.splits)

lemma write_view_effect:
  assumes "inv d" "write_view env m v kwargs data d = (resp, d')"
  shows "succeeded resp \<or> refused resp \<and> d' = d"
  using assms(2)
  by (cases v) (auto simp: write_view_def split: sum.splits
      dest: create_job_effect [OF assms(1)] tenant_effect job_request_effect)

lemma retrieve_answers: "\<not> refused (Inr (found f (retrieve r))) \<Longrightarrow> succeeded (Inr (found f (retrieve r)))"
  by (cases r) (simp_all add: found_def retrieve_def)

lemma read_view_answers: "succeeded (read_view v kwargs d) \<or> refused (read_view v kwargs d)"
  by (cases v) (auto simp: read_view_def job_detail_def dead_letter_detail_def tenant_detail_def
      result_bind_def retrieve_answers split: sum.splits)

text \<open>
  C35. What a request may do: on a consistent database a request either succeeds with status 200
  or 201, or it is refused, with an exception, 404 or 405, and changes nothing, not even half of
  the two transactions of a submission; a GET changes nothing in either case, and the database
  stays consistent.
\<close>

theorem request_effects:
  assumes "inv d" "handle_request to_uuid env m path data d = (resp, d')"
  shows "(succeeded resp \<or> refused resp \<and> d' = d) \<and> (m = GET \<longrightarrow> d' = d) \<and> inv d'"
proof (intro conjI)
  show "succeeded resp \<or> refused resp \<and> d' = d"
  proof (cases "resolve to_uuid path")
    case None
    then show ?thesis using assms(2) by (auto simp: handle_request_def)
  next
    case (Some r)
    obtain v kwargs where r: "r = (v, kwargs)" by (cases r)
    show ?thesis
      using assms(2) Some r read_view_answers [of v kwargs d] write_view_effect [OF assms(1), of env m v kwargs data resp d']
      by (auto simp: handle_request_def split: if_splits)
  qed
  show "m = GET \<longrightarrow> d' = d"
    using assms(2) by (auto simp: handle_request_def split: option.splits if_splits)
  show "inv d'" by (rule handle_inv [OF assms])
qed

definition tenant_request :: request_env where
  "tenant_request =
     \<lparr>re_create = \<lparr>ce_now = 0, ce_job_id = 11, ce_generated_key = ''g'', ce_refresh_now = 0, ce_str = (\<lambda>v. [])\<rparr>,
      re_now = 0, re_refresh_now = 0, re_new_id = 2, re_generated_key = ''g'', re_header = (\<lambda>h. None),
      re_job_validation = (\<lambda>data. Inl (OtherError ''ValidationError'')),
      re_tenant_validation = (\<lambda>partial data. Inr \<lparr>ti_name = Some ''acme'', ti_is_active = None,
        ti_max_concurrent_jobs = Some 3\<rparr>)\<rparr>"

theorem request_effects_witness:
  "\<exists>t d'. handle_request (\<lambda>s. None) tenant_request POST ''tenants/'' JNull empty_db
       = (Inr (Tenant_Body t, 201), d') \<and> max_concurrent_jobs t = 3 \<and> inv d'"
proof -
  obtain t d' where r: "handle_request (\<lambda>s. None) tenant_request POST ''tenants/'' JNull empty_db
      = (Inr (Tenant_Body t, 201), d')" "max_concurrent_jobs t = 3"
    by (simp add: handle_request_def resolve_compiled compiled_def write_view_def tenant_create_def
        tenant_request_def create_tenant_def apply_tenant_input_def empty_db_def Let_def smallint_max_def)
  from request_effects [OF inv_init r(1)] r show ?thesis by blast
qed

end
