(* ===== verification/Schema.thy ===== *)
theory Schema
  imports Domain
begin

text \<open>
  The database schema: Django's migrations as operations on a list of models, the models as
  \<open>jobs/models/\<close> and \<open>tenants/models.py\<close> declare them. Of a field the description keeps what
  decides the column: its type, NULL, keys, uniqueness, the choices and what happens to the row
  when the row it refers to goes. Defaults and help texts are not part of it.
\<close>

section \<open>Descriptions of models\<close>

datatype column_value =
  VNull | VUuid uuid | VText string | VInt int | VBool bool | VJson json | VTime time

datatype on_delete = PROTECT | CASCADE | SET_NULL

datatype column_type =
    UUIDField
  | CharField nat
  | TextField
  | PositiveSmallIntegerField
  | PositiveIntegerField
  | BooleanField
  | JSONField
  | DateTimeField
  | ForeignKey string on_delete
  | OneToOneField string on_delete

record field =
  f_name :: string
  f_type :: column_type
  f_null :: bool
  f_primary :: bool
  f_unique :: bool
  f_auto_now :: bool
  f_choices :: "column_value list"

definition column :: "string \<Rightarrow> column_type \<Rightarrow> field" where
  "column n t = \<lparr>f_name = n, f_type = t, f_null = False, f_primary = False, f_unique = False,
     f_auto_now = False, f_choices = []\<rparr>"

definition nullable :: "field \<Rightarrow> field" where "nullable f = f\<lparr>f_null := True\<rparr>"

definition primary :: "field \<Rightarrow> field" where "primary f = f\<lparr>f_primary := True\<rparr>"

definition unique_column :: "field \<Rightarrow> field" where "unique_column f = f\<lparr>f_unique := True\<rparr>"

definition auto_now :: "field \<Rightarrow> field" where "auto_now f = f\<lparr>f_auto_now := True\<rparr>"

definition choices :: "column_value list \<Rightarrow> field \<Rightarrow> field" where
  "choices vs f = f\<lparr>f_choices := vs\<rparr>"

text \<open>A constraint holds among the rows that satisfy its condition.\<close>

datatype condition = Always | Not_Null string | Equals string column_value

record constraint =
  c_name :: string
  c_fields :: "string list"
  c_condition :: condition

record index =
  i_name :: string
  i_fields :: "string list"

record model =
  m_name :: string
  m_table :: string
  m_fields :: "field list"
  m_indexes :: "index list"
  m_constraints :: "constraint list"

section \<open>Migrations\<close>

datatype operation =
    CreateModel model
  | AddIndex string index
  | AddConstraint string constraint

text \<open>Django refers to a model by its name in lower case.\<close>

definition lower_char :: "char \<Rightarrow> char" where
  "lower_char c =
     (case map_of (zip ''ABCDEFGHIJKLMNOPQRSTUVWXYZ'' ''abcdefghijklmnopqrstuvwxyz'') c of
        None \<Rightarrow> c
      | Some l \<Rightarrow> l)"

definition named :: "string \<Rightarrow> model \<Rightarrow> bool" where
  "named n m \<longleftrightarrow> map lower_char (m_name m) = n"

fun apply_operation :: "operation \<Rightarrow> model list \<Rightarrow> model list" where
  "apply_operation (CreateModel m) ms = ms @ [m]"
| "apply_operation (AddIndex n i) ms =
     map (\<lambda>m. if named n m then m\<lparr>m_indexes := m_indexes m @ [i]\<rparr> else m) ms"
| "apply_operation (AddConstraint n c) ms =
     map (\<lambda>m. if named n m then m\<lparr>m_constraints := m_constraints m @ [c]\<rparr> else m) ms"

definition migrate :: "operation list \<Rightarrow> model list" where
  "migrate ops = fold apply_operation ops []"

definition tenants_0001_Tenant :: model where
  "tenants_0001_Tenant = \<lparr>m_name = ''Tenant'', m_table = ''tenants'', m_fields =
      [primary (column ''id'' UUIDField),
       column ''name'' (CharField 255),
       column ''is_active'' BooleanField,
       column ''max_concurrent_jobs'' PositiveSmallIntegerField,
       auto_now (column ''created_at'' DateTimeField),
       auto_now (column ''updated_at'' DateTimeField)],
     m_indexes = [], m_constraints = []\<rparr>"

definition tenants_0001_initial :: "operation list" where
  "tenants_0001_initial =
    [CreateModel tenants_0001_Tenant]"

definition jobs_0001_Job :: model where
  "jobs_0001_Job = \<lparr>m_name = ''Job'', m_table = ''jobs'', m_fields =
      [primary (column ''id'' UUIDField),
       choices [VText ''REPORTS'', VText ''DATA_PROCESSING'', VText ''SYNCHRONIZATION'',
         VText ''AI_PROCESSING'', VText ''NOTIFICATION''] (column ''job_type'' (CharField 50)),
       choices [VText ''WAITING'', VText ''QUEUED'', VText ''EXECUTING'', VText ''RETRY_WAIT'',
         VText ''CANCEL_REQUESTED'', VText ''SUCCEEDED'', VText ''FAILED_FINAL'', VText ''CANCELLED'']
           (column ''status'' (CharField 32)),
       choices [VInt 1, VInt 2, VInt 3, VInt 4, VInt 5] (column ''priority'' PositiveSmallIntegerField),
       column ''payload'' JSONField,
       nullable (column ''result'' JSONField),
       nullable (column ''idempotency_key'' (CharField 255)),
       column ''available_at'' DateTimeField,
       column ''ready_since'' DateTimeField,
       column ''attempt_count'' PositiveSmallIntegerField,
       nullable (column ''last_error_code'' (CharField 100)),
       nullable (column ''last_error_message'' TextField),
       nullable (column ''queued_at'' DateTimeField),
       nullable (column ''started_at'' DateTimeField),
       nullable (column ''completed_at'' DateTimeField),
       nullable (column ''cancelled_at'' DateTimeField),
       auto_now (column ''created_at'' DateTimeField),
       auto_now (column ''updated_at'' DateTimeField),
       column ''tenant'' (ForeignKey ''tenants.tenant'' PROTECT)],
     m_indexes = [], m_constraints = []\<rparr>"

definition jobs_0001_DeadLetterJob :: model where
  "jobs_0001_DeadLetterJob = \<lparr>m_name = ''DeadLetterJob'', m_table = ''dead_letter_jobs'', m_fields =
      [primary (column ''id'' UUIDField),
       choices [VText ''RETRIES_EXHAUSTED'', VText ''PERMANENT_FAILURE'', VText ''HANDLER_NOT_FOUND'',
         VText ''INVALID_CONFIGURATION'', VText ''POISON_JOB''] (column ''reason'' (CharField 64)),
       choices [VText ''OPEN'', VText ''REPLAYED'', VText ''DISMISSED''] (column ''status'' (CharField 16)),
       nullable (column ''error_code'' (CharField 100)),
       nullable (column ''error_message'' TextField),
       nullable (column ''last_attempt_number'' PositiveSmallIntegerField),
       column ''metadata'' JSONField,
       auto_now (column ''created_at'' DateTimeField),
       nullable (column ''replayed_at'' DateTimeField),
       nullable (column ''dismissed_at'' DateTimeField),
       column ''tenant'' (ForeignKey ''tenants.tenant'' PROTECT),
       column ''job'' (OneToOneField ''jobs.job'' CASCADE),
       nullable (column ''replayed_job'' (ForeignKey ''jobs.job'' SET_NULL))],
     m_indexes = [], m_constraints = []\<rparr>"

definition jobs_0001_JobAttempt :: model where
  "jobs_0001_JobAttempt = \<lparr>m_name = ''JobAttempt'', m_table = ''job_attempts'', m_fields =
      [primary (column ''id'' UUIDField),
       column ''attempt_number'' PositiveSmallIntegerField,
       choices [VText ''RUNNING'', VText ''SUCCEEDED'', VText ''FAILED'', VText ''TIMED_OUT'',
         VText ''ABANDONED'', VText ''CANCELLED''] (column ''status'' (CharField 32)),
       nullable (column ''worker_id'' (CharField 255)),
       nullable (choices [VText ''TRANSIENT'', VText ''PERMANENT'', VText ''INFRASTRUCTURE'',
         VText ''TIMEOUT'', VText ''UNKNOWN''] (column ''failure_type'' (CharField 32))),
       nullable (column ''error_code'' (CharField 100)),
       nullable (column ''error_message'' TextField),
       nullable (column ''traceback'' TextField),
       column ''started_at'' DateTimeField,
       nullable (column ''finished_at'' DateTimeField),
       nullable (column ''heartbeat_at'' DateTimeField),
       nullable (column ''lease_expires_at'' DateTimeField),
       auto_now (column ''created_at'' DateTimeField),
       column ''job'' (ForeignKey ''jobs.job'' CASCADE)],
     m_indexes = [], m_constraints = []\<rparr>"

definition jobs_0001_JobExecutionReservation :: model where
  "jobs_0001_JobExecutionReservation = \<lparr>m_name = ''JobExecutionReservation'',
    m_table = ''job_execution_reservations'', m_fields =
      [primary (column ''id'' UUIDField),
       unique_column (column ''lease_token'' UUIDField),
       column ''expires_at'' DateTimeField,
       auto_now (column ''created_at'' DateTimeField),
       column ''job'' (OneToOneField ''jobs.job'' CASCADE),
       column ''tenant'' (ForeignKey ''tenants.tenant'' CASCADE)],
     m_indexes = [], m_constraints = []\<rparr>"

definition jobs_0001_JobOutbox :: model where
  "jobs_0001_JobOutbox = \<lparr>m_name = ''JobOutbox'', m_table = ''job_outbox'', m_fields =
      [primary (column ''id'' UUIDField),
       choices [VText ''DISPATCH_JOB''] (column ''event_type'' (CharField 32)),
       choices [VText ''PENDING'', VText ''PUBLISHED''] (column ''status'' (CharField 16)),
       column ''payload'' JSONField,
       column ''publish_attempts'' PositiveIntegerField,
       column ''available_at'' DateTimeField,
       nullable (column ''published_at'' DateTimeField),
       nullable (column ''last_error'' TextField),
       auto_now (column ''created_at'' DateTimeField),
       auto_now (column ''updated_at'' DateTimeField),
       column ''job'' (ForeignKey ''jobs.job'' CASCADE)],
     m_indexes = [], m_constraints = []\<rparr>"

definition jobs_0001_JobOverlapLock :: model where
  "jobs_0001_JobOverlapLock = \<lparr>m_name = ''JobOverlapLock'', m_table = ''job_overlap_locks'', m_fields =
      [primary (column ''id'' UUIDField),
       choices [VText ''TENANT'', VText ''GLOBAL''] (column ''scope'' (CharField 16)),
       column ''resource_key'' (CharField 255),
       unique_column (column ''lease_token'' UUIDField),
       column ''expires_at'' DateTimeField,
       auto_now (column ''created_at'' DateTimeField),
       column ''job'' (ForeignKey ''jobs.job'' CASCADE),
       nullable (column ''tenant'' (ForeignKey ''tenants.tenant'' CASCADE))],
     m_indexes = [], m_constraints = []\<rparr>"

definition jobs_0001_TenantSchedulerState :: model where
  "jobs_0001_TenantSchedulerState = \<lparr>m_name = ''TenantSchedulerState'',
    m_table = ''tenant_scheduler_state'', m_fields =
      [primary (column ''tenant'' (OneToOneField ''tenants.tenant'' CASCADE)),
       column ''active_reservations'' PositiveSmallIntegerField,
       column ''has_ready_work'' BooleanField,
       nullable (column ''highest_ready_priority'' PositiveSmallIntegerField),
       nullable (column ''next_ready_at'' DateTimeField),
       nullable (column ''last_dispatched_at'' DateTimeField),
       auto_now (column ''updated_at'' DateTimeField)],
     m_indexes = [\<lparr>i_name = ''idx_scheduler_ready'', i_fields = [''has_ready_work'',
       ''highest_ready_priority'', ''last_dispatched_at'']\<rparr>,
        \<lparr>i_name = ''idx_scheduler_next_ready'', i_fields = [''next_ready_at'']\<rparr>],
          m_constraints = []\<rparr>"

definition jobs_0001_initial :: "operation list" where
  "jobs_0001_initial =
    [CreateModel jobs_0001_Job,
     CreateModel jobs_0001_DeadLetterJob,
     CreateModel jobs_0001_JobAttempt,
     CreateModel jobs_0001_JobExecutionReservation,
     CreateModel jobs_0001_JobOutbox,
     CreateModel jobs_0001_JobOverlapLock,
     CreateModel jobs_0001_TenantSchedulerState,
     AddIndex ''job'' \<lparr>i_name = ''idx_job_dispatch_lookup'', i_fields = [''tenant'', ''status'',
       ''priority'', ''available_at'']\<rparr>,
     AddIndex ''job'' \<lparr>i_name = ''idx_job_ready_lookup'', i_fields = [''status'',
       ''available_at'']\<rparr>,
     AddConstraint ''job'' \<lparr>c_name = ''uq_job_tenant_idempotency_key'', c_fields = [''tenant'',
       ''idempotency_key''], c_condition = Not_Null ''idempotency_key''\<rparr>,
     AddIndex ''deadletterjob'' \<lparr>i_name = ''idx_dlq_tenant_status'', i_fields = [''tenant'',
       ''status'', ''created_at'']\<rparr>,
     AddIndex ''deadletterjob'' \<lparr>i_name = ''idx_dlq_status_created'', i_fields = [''status'',
       ''created_at'']\<rparr>,
     AddIndex ''jobattempt'' \<lparr>i_name = ''idx_attempt_job_status'', i_fields = [''job'',
       ''status'']\<rparr>,
     AddIndex ''jobattempt'' \<lparr>i_name = ''idx_attempt_lease'', i_fields = [''status'',
       ''lease_expires_at'']\<rparr>,
     AddConstraint ''jobattempt'' \<lparr>c_name = ''uq_job_attempt_number'', c_fields = [''job'',
       ''attempt_number''], c_condition = Always\<rparr>,
     AddIndex ''jobexecutionreservation'' \<lparr>i_name = ''idx_reservation_tenant_expiry'',
       i_fields = [''tenant'', ''expires_at'']\<rparr>,
     AddIndex ''joboutbox'' \<lparr>i_name = ''idx_outbox_pending'', i_fields = [''status'',
       ''available_at'', ''created_at'']\<rparr>,
     AddIndex ''joboutbox'' \<lparr>i_name = ''idx_outbox_job_status'', i_fields = [''job'',
       ''status'']\<rparr>,
     AddIndex ''joboverlaplock'' \<lparr>i_name = ''idx_overlap_tenant_resource'', i_fields = [''tenant'',
       ''resource_key'']\<rparr>,
     AddIndex ''joboverlaplock'' \<lparr>i_name = ''idx_overlap_expiry'', i_fields = [''expires_at'']\<rparr>,
     AddConstraint ''joboverlaplock'' \<lparr>c_name = ''uq_tenant_overlap_resource'',
       c_fields = [''tenant'', ''resource_key''], c_condition = Equals ''scope'' (VText ''TENANT'')\<rparr>,
     AddConstraint ''joboverlaplock'' \<lparr>c_name = ''uq_global_overlap_resource'',
       c_fields = [''resource_key''], c_condition = Equals ''scope'' (VText ''GLOBAL'')\<rparr>]"

section \<open>The models as declared\<close>

fun AttemptStatus_value :: "AttemptStatus \<Rightarrow> string" where
  "AttemptStatus_value RUNNING = ''RUNNING''"
| "AttemptStatus_value ATT_SUCCEEDED = ''SUCCEEDED''"
| "AttemptStatus_value ATT_FAILED = ''FAILED''"
| "AttemptStatus_value TIMED_OUT = ''TIMED_OUT''"
| "AttemptStatus_value ABANDONED = ''ABANDONED''"
| "AttemptStatus_value ATT_CANCELLED = ''CANCELLED''"

fun FailureType_value :: "FailureType \<Rightarrow> string" where
  "FailureType_value TRANSIENT = ''TRANSIENT''"
| "FailureType_value PERMANENT = ''PERMANENT''"
| "FailureType_value INFRASTRUCTURE = ''INFRASTRUCTURE''"
| "FailureType_value TIMEOUT = ''TIMEOUT''"
| "FailureType_value UNKNOWN = ''UNKNOWN''"

fun DeadLetterReason_value :: "DeadLetterReason \<Rightarrow> string" where
  "DeadLetterReason_value RETRIES_EXHAUSTED = ''RETRIES_EXHAUSTED''"
| "DeadLetterReason_value PERMANENT_FAILURE = ''PERMANENT_FAILURE''"
| "DeadLetterReason_value HANDLER_NOT_FOUND = ''HANDLER_NOT_FOUND''"
| "DeadLetterReason_value INVALID_CONFIGURATION = ''INVALID_CONFIGURATION''"
| "DeadLetterReason_value POISON_JOB = ''POISON_JOB''"

fun DeadLetterStatus_value :: "DeadLetterStatus \<Rightarrow> string" where
  "DeadLetterStatus_value OPEN = ''OPEN''"
| "DeadLetterStatus_value REPLAYED = ''REPLAYED''"
| "DeadLetterStatus_value DISMISSED = ''DISMISSED''"

fun OutboxEventType_value :: "OutboxEventType \<Rightarrow> string" where
  "OutboxEventType_value DISPATCH_JOB = ''DISPATCH_JOB''"

fun OutboxStatus_value :: "OutboxStatus \<Rightarrow> string" where
  "OutboxStatus_value PENDING = ''PENDING''"
| "OutboxStatus_value PUBLISHED = ''PUBLISHED''"

fun OverlapScope_value :: "OverlapScope \<Rightarrow> string" where
  "OverlapScope_value TENANT = ''TENANT''"
| "OverlapScope_value GLOBAL = ''GLOBAL''"

definition Tenant_model :: model where
  "Tenant_model = \<lparr>m_name = ''Tenant'', m_table = ''tenants'', m_fields =
      [primary (column ''id'' UUIDField),
       column ''name'' (CharField 255),
       column ''is_active'' BooleanField,
       column ''max_concurrent_jobs'' PositiveSmallIntegerField,
       auto_now (column ''created_at'' DateTimeField),
       auto_now (column ''updated_at'' DateTimeField)],
     m_indexes =
      [],
     m_constraints =
      []\<rparr>"

definition Job_model :: model where
  "Job_model = \<lparr>m_name = ''Job'', m_table = ''jobs'', m_fields =
      [primary (column ''id'' UUIDField),
       column ''tenant'' (ForeignKey ''tenants.Tenant'' PROTECT),
       choices (map (VText \<circ> JobType_value) [REPORTS, DATA_PROCESSING, SYNCHRONIZATION, AI_PROCESSING,
         NOTIFICATION]) (column ''job_type'' (CharField 50)),
       choices (map (VText \<circ> JobStatus_value) [WAITING, QUEUED, EXECUTING, RETRY_WAIT, CANCEL_REQUESTED,
         SUCCEEDED, FAILED_FINAL, CANCELLED]) (column ''status'' (CharField 32)),
       choices (map (VInt \<circ> JobPriority_value) [HIGHEST, HIGH, NORMAL, LOW, LOWEST])
         (column ''priority'' PositiveSmallIntegerField),
       column ''payload'' JSONField,
       nullable (column ''result'' JSONField),
       nullable (column ''idempotency_key'' (CharField 255)),
       column ''available_at'' DateTimeField,
       column ''ready_since'' DateTimeField,
       column ''attempt_count'' PositiveSmallIntegerField,
       nullable (column ''last_error_code'' (CharField 100)),
       nullable (column ''last_error_message'' TextField),
       nullable (column ''queued_at'' DateTimeField),
       nullable (column ''started_at'' DateTimeField),
       nullable (column ''completed_at'' DateTimeField),
       nullable (column ''cancelled_at'' DateTimeField),
       auto_now (column ''created_at'' DateTimeField),
       auto_now (column ''updated_at'' DateTimeField)],
     m_indexes =
      [\<lparr>i_name = ''idx_job_dispatch_lookup'', i_fields = [''tenant'', ''status'', ''priority'',
        ''available_at'']\<rparr>,
       \<lparr>i_name = ''idx_job_ready_lookup'', i_fields = [''status'', ''available_at'']\<rparr>],
     m_constraints =
      [\<lparr>c_name = ''uq_job_tenant_idempotency_key'', c_fields = [''tenant'', ''idempotency_key''],
        c_condition = Not_Null ''idempotency_key''\<rparr>]\<rparr>"

definition DeadLetterJob_model :: model where
  "DeadLetterJob_model = \<lparr>m_name = ''DeadLetterJob'', m_table = ''dead_letter_jobs'', m_fields =
      [primary (column ''id'' UUIDField),
       column ''job'' (OneToOneField ''jobs.Job'' CASCADE),
       column ''tenant'' (ForeignKey ''tenants.Tenant'' PROTECT),
       choices (map (VText \<circ> DeadLetterReason_value) [RETRIES_EXHAUSTED, PERMANENT_FAILURE,
         HANDLER_NOT_FOUND, INVALID_CONFIGURATION, POISON_JOB]) (column ''reason'' (CharField 64)),
       choices (map (VText \<circ> DeadLetterStatus_value) [OPEN, REPLAYED, DISMISSED])
         (column ''status'' (CharField 16)),
       nullable (column ''error_code'' (CharField 100)),
       nullable (column ''error_message'' TextField),
       nullable (column ''last_attempt_number'' PositiveSmallIntegerField),
       column ''metadata'' JSONField,
       nullable (column ''replayed_job'' (ForeignKey ''jobs.Job'' SET_NULL)),
       auto_now (column ''created_at'' DateTimeField),
       nullable (column ''replayed_at'' DateTimeField),
       nullable (column ''dismissed_at'' DateTimeField)],
     m_indexes =
      [\<lparr>i_name = ''idx_dlq_tenant_status'', i_fields = [''tenant'', ''status'',
        ''created_at'']\<rparr>,
       \<lparr>i_name = ''idx_dlq_status_created'', i_fields = [''status'', ''created_at'']\<rparr>],
     m_constraints =
      []\<rparr>"

definition JobAttempt_model :: model where
  "JobAttempt_model = \<lparr>m_name = ''JobAttempt'', m_table = ''job_attempts'', m_fields =
      [primary (column ''id'' UUIDField),
       column ''job'' (ForeignKey ''jobs.Job'' CASCADE),
       column ''attempt_number'' PositiveSmallIntegerField,
       choices (map (VText \<circ> AttemptStatus_value) [RUNNING, ATT_SUCCEEDED, ATT_FAILED, TIMED_OUT,
         ABANDONED, ATT_CANCELLED]) (column ''status'' (CharField 32)),
       nullable (column ''worker_id'' (CharField 255)),
       nullable (choices (map (VText \<circ> FailureType_value) [TRANSIENT, PERMANENT, INFRASTRUCTURE,
         TIMEOUT, UNKNOWN]) (column ''failure_type'' (CharField 32))),
       nullable (column ''error_code'' (CharField 100)),
       nullable (column ''error_message'' TextField),
       nullable (column ''traceback'' TextField),
       column ''started_at'' DateTimeField,
       nullable (column ''finished_at'' DateTimeField),
       nullable (column ''heartbeat_at'' DateTimeField),
       nullable (column ''lease_expires_at'' DateTimeField),
       auto_now (column ''created_at'' DateTimeField)],
     m_indexes =
      [\<lparr>i_name = ''idx_attempt_job_status'', i_fields = [''job'', ''status'']\<rparr>,
       \<lparr>i_name = ''idx_attempt_lease'', i_fields = [''status'', ''lease_expires_at'']\<rparr>],
     m_constraints =
      [\<lparr>c_name = ''uq_job_attempt_number'', c_fields = [''job'', ''attempt_number''],
        c_condition = Always\<rparr>]\<rparr>"

definition JobExecutionReservation_model :: model where
  "JobExecutionReservation_model = \<lparr>m_name = ''JobExecutionReservation'',
    m_table = ''job_execution_reservations'', m_fields =
      [primary (column ''id'' UUIDField),
       column ''job'' (OneToOneField ''jobs.Job'' CASCADE),
       column ''tenant'' (ForeignKey ''tenants.Tenant'' CASCADE),
       unique_column (column ''lease_token'' UUIDField),
       column ''expires_at'' DateTimeField,
       auto_now (column ''created_at'' DateTimeField)],
     m_indexes =
      [\<lparr>i_name = ''idx_reservation_tenant_expiry'', i_fields = [''tenant'', ''expires_at'']\<rparr>],
     m_constraints =
      []\<rparr>"

definition JobOutbox_model :: model where
  "JobOutbox_model = \<lparr>m_name = ''JobOutbox'', m_table = ''job_outbox'', m_fields =
      [primary (column ''id'' UUIDField),
       column ''job'' (ForeignKey ''jobs.Job'' CASCADE),
       choices (map (VText \<circ> OutboxEventType_value) [DISPATCH_JOB])
         (column ''event_type'' (CharField 32)),
       choices (map (VText \<circ> OutboxStatus_value) [PENDING, PUBLISHED])
         (column ''status'' (CharField 16)),
       column ''payload'' JSONField,
       column ''publish_attempts'' PositiveIntegerField,
       column ''available_at'' DateTimeField,
       nullable (column ''published_at'' DateTimeField),
       nullable (column ''last_error'' TextField),
       auto_now (column ''created_at'' DateTimeField),
       auto_now (column ''updated_at'' DateTimeField)],
     m_indexes =
      [\<lparr>i_name = ''idx_outbox_pending'', i_fields = [''status'', ''available_at'',
        ''created_at'']\<rparr>,
       \<lparr>i_name = ''idx_outbox_job_status'', i_fields = [''job'', ''status'']\<rparr>],
     m_constraints =
      []\<rparr>"

definition JobOverlapLock_model :: model where
  "JobOverlapLock_model = \<lparr>m_name = ''JobOverlapLock'', m_table = ''job_overlap_locks'', m_fields =
      [primary (column ''id'' UUIDField),
       column ''job'' (ForeignKey ''jobs.Job'' CASCADE),
       nullable (column ''tenant'' (ForeignKey ''tenants.Tenant'' CASCADE)),
       choices (map (VText \<circ> OverlapScope_value) [TENANT, GLOBAL]) (column ''scope'' (CharField 16)),
       column ''resource_key'' (CharField 255),
       unique_column (column ''lease_token'' UUIDField),
       column ''expires_at'' DateTimeField,
       auto_now (column ''created_at'' DateTimeField)],
     m_indexes =
      [\<lparr>i_name = ''idx_overlap_tenant_resource'', i_fields = [''tenant'', ''resource_key'']\<rparr>,
       \<lparr>i_name = ''idx_overlap_expiry'', i_fields = [''expires_at'']\<rparr>],
     m_constraints =
      [\<lparr>c_name = ''uq_tenant_overlap_resource'', c_fields = [''tenant'', ''resource_key''],
        c_condition = Equals ''scope'' (VText (OverlapScope_value TENANT))\<rparr>,
       \<lparr>c_name = ''uq_global_overlap_resource'', c_fields = [''resource_key''],
         c_condition = Equals ''scope'' (VText (OverlapScope_value GLOBAL))\<rparr>]\<rparr>"

definition TenantSchedulerState_model :: model where
  "TenantSchedulerState_model = \<lparr>m_name = ''TenantSchedulerState'',
    m_table = ''tenant_scheduler_state'', m_fields =
      [primary (column ''tenant'' (OneToOneField ''tenants.Tenant'' CASCADE)),
       column ''active_reservations'' PositiveSmallIntegerField,
       column ''has_ready_work'' BooleanField,
       nullable (column ''highest_ready_priority'' PositiveSmallIntegerField),
       nullable (column ''next_ready_at'' DateTimeField),
       nullable (column ''last_dispatched_at'' DateTimeField),
       auto_now (column ''updated_at'' DateTimeField)],
     m_indexes =
      [\<lparr>i_name = ''idx_scheduler_ready'', i_fields = [''has_ready_work'',
        ''highest_ready_priority'', ''last_dispatched_at'']\<rparr>,
       \<lparr>i_name = ''idx_scheduler_next_ready'', i_fields = [''next_ready_at'']\<rparr>],
     m_constraints =
      []\<rparr>"

text \<open>In the order in which the migrations create them.\<close>

definition declared_models :: "model list" where
  "declared_models = [Tenant_model,
     Job_model,
     DeadLetterJob_model,
     JobAttempt_model,
     JobExecutionReservation_model,
     JobOutbox_model,
     JobOverlapLock_model,
     TenantSchedulerState_model]"

text \<open>
  Two descriptions of one table: a migration writes references in lower case and puts the
  foreign keys last, so the columns are compared as a set, the references without regard to case.
\<close>

fun normal_type :: "column_type \<Rightarrow> column_type" where
  "normal_type (ForeignKey to a) = ForeignKey (map lower_char to) a"
| "normal_type (OneToOneField to a) = OneToOneField (map lower_char to) a"
| "normal_type t = t"

definition normal_field :: "field \<Rightarrow> field" where
  "normal_field f = f\<lparr>f_type := normal_type (f_type f)\<rparr>"

definition same_elements :: "'a list \<Rightarrow> 'a list \<Rightarrow> bool" where
  "same_elements xs ys \<longleftrightarrow>
     distinct xs \<and> distinct ys \<and> list_all (List.member ys) xs \<and> list_all (List.member xs) ys"

definition same_model :: "model \<Rightarrow> model \<Rightarrow> bool" where
  "same_model m n \<longleftrightarrow> m_name m = m_name n \<and> m_table m = m_table n
     \<and> same_elements (map normal_field (m_fields m)) (map normal_field (m_fields n))
     \<and> same_elements (m_indexes m) (m_indexes n) \<and> same_elements (m_constraints m) (m_constraints n)"

definition created_models :: "model list" where
  "created_models = migrate (tenants_0001_initial @ jobs_0001_initial)"

lemma created_declared: "list_all2 same_model created_models declared_models"
  by code_simp

end
