(* ===== verification/Constraints.thy ===== *)
theory Constraints
  imports Schema Api
begin

text \<open>
  INSERT as PostgreSQL performs it on any table, from the columns and the constraints the
  migrations gave it, and the rows of the models as values of the columns. The property is that
  the checks written out for each table in \<open>Models\<close> and \<open>Api\<close> are those of the schema. The
  foreign keys are checked when the transaction commits and the choices not at all.
\<close>

section \<open>INSERT from a description\<close>

type_synonym row = "(string \<times> column_value) list"

definition cell :: "row \<Rightarrow> string \<Rightarrow> column_value" where
  "cell r n = (case map_of r n of None \<Rightarrow> VNull | Some v \<Rightarrow> v)"

text \<open>The values a column type can hold, and the CHECK of the positive integer fields.\<close>

fun fits :: "column_type \<Rightarrow> column_value \<Rightarrow> bool" where
  "fits (CharField n) (VText s) = (length s \<le> n)"
| "fits PositiveSmallIntegerField (VInt i) = (- 32768 \<le> i \<and> i \<le> 32767)"
| "fits PositiveIntegerField (VInt i) = (- 2147483648 \<le> i \<and> i \<le> 2147483647)"
| "fits _ _ = True"

fun checked :: "column_type \<Rightarrow> column_value \<Rightarrow> bool" where
  "checked PositiveSmallIntegerField (VInt i) = (0 \<le> i)"
| "checked PositiveIntegerField (VInt i) = (0 \<le> i)"
| "checked _ _ = True"

fun one_to_one :: "column_type \<Rightarrow> bool" where
  "one_to_one (OneToOneField _ _) = True"
| "one_to_one _ = False"

definition uniques :: "model \<Rightarrow> constraint list" where
  "uniques m = map (\<lambda>f. \<lparr>c_name = f_name f, c_fields = [f_name f], c_condition = Always\<rparr>)
       (filter (\<lambda>f. f_primary f \<or> f_unique f \<or> one_to_one (f_type f)) (m_fields m))
     @ m_constraints m"

fun satisfies :: "condition \<Rightarrow> row \<Rightarrow> bool" where
  "satisfies Always r = True"
| "satisfies (Not_Null n) r = (cell r n \<noteq> VNull)"
| "satisfies (Equals n v) r = (cell r n = v)"

text \<open>Two rows conflict when both are under the constraint and agree on its columns; NULLs differ.\<close>

definition conflict :: "constraint \<Rightarrow> row \<Rightarrow> row \<Rightarrow> bool" where
  "conflict c r s \<longleftrightarrow> satisfies (c_condition c) r \<and> satisfies (c_condition c) s
     \<and> (\<forall>n \<in> set (c_fields c). cell r n \<noteq> VNull \<and> cell r n = cell s n)"

text \<open>The columns of \<open>created_at\<close> and \<open>updated_at\<close> are filled in by the ORM.\<close>

definition given :: "model \<Rightarrow> field list" where
  "given m = filter (\<lambda>f. \<not> f_auto_now f) (m_fields m)"

definition insert_row :: "model \<Rightarrow> ('r \<Rightarrow> row) \<Rightarrow> 'r \<Rightarrow> 'r list \<Rightarrow> 'r list result" where
  "insert_row m view x rows =
     (if \<exists>f \<in> set (given m). \<not> fits (f_type f) (cell (view x) (f_name f)) then Inl DataError
      else if (\<exists>f \<in> set (given m). \<not> f_null f \<and> cell (view x) (f_name f) = VNull)
         \<or> (\<exists>f \<in> set (given m). \<not> checked (f_type f) (cell (view x) (f_name f)))
         \<or> (\<exists>r \<in> set rows. \<exists>c \<in> set (uniques m). conflict c (view r) (view x))
      then Inl IntegrityError
      else Inr (rows @ [x]))"

definition insert_into :: "model list \<Rightarrow> string \<Rightarrow> ('r \<Rightarrow> row) \<Rightarrow> 'r \<Rightarrow> 'r list \<Rightarrow> 'r list result" where
  "insert_into schema table view x rows =
     (case find (\<lambda>m. m_table m = table) schema of
        None \<Rightarrow> Inl (OtherError ''relation does not exist'')
      | Some m \<Rightarrow> insert_row m view x rows)"

section \<open>Rows\<close>

definition nullable_value :: "('a \<Rightarrow> column_value) \<Rightarrow> 'a option \<Rightarrow> column_value" where
  "nullable_value f v = (case v of None \<Rightarrow> VNull | Some x \<Rightarrow> f x)"

definition json_value :: "json \<Rightarrow> column_value" where
  "json_value v = (if v = JNull then VNull else VJson v)"

definition nat_value :: "nat \<Rightarrow> column_value" where
  "nat_value n = VInt (int n)"

definition tenant_row :: "Tenant \<Rightarrow> row" where
  "tenant_row t =
     [(''id'', VUuid (ten_id t)), (''name'', VText (ten_name t)), (''is_active'', VBool (is_active t)),
      (''max_concurrent_jobs'', nat_value (max_concurrent_jobs t))]"

definition job_row :: "Job \<Rightarrow> row" where
  "job_row j =
     [(''id'', VUuid (job_id j)), (''tenant'', VUuid (job_tenant j)), (''job_type'', VText (job_type j)),
      (''status'', VText (JobStatus_value (job_status j))), (''priority'', VInt (priority j)),
      (''payload'', json_value (payload j)), (''result'', json_value (job_result j)),
      (''idempotency_key'', nullable_value VText (idempotency_key j)),
      (''available_at'', VTime (available_at j)), (''ready_since'', VTime (ready_since j)),
      (''attempt_count'', nat_value (attempt_count j)),
      (''last_error_code'', nullable_value VText (last_error_code j)),
      (''last_error_message'', nullable_value VText (last_error_message j)),
      (''queued_at'', nullable_value VTime (queued_at j)),
      (''started_at'', nullable_value VTime (started_at j)),
      (''completed_at'', nullable_value VTime (completed_at j)),
      (''cancelled_at'', nullable_value VTime (cancelled_at j))]"

definition attempt_row :: "JobAttempt \<Rightarrow> row" where
  "attempt_row a =
     [(''id'', VUuid (att_id a)), (''job'', VUuid (att_job a)),
      (''attempt_number'', nat_value (attempt_number a)),
      (''status'', VText (AttemptStatus_value (att_status a))),
      (''worker_id'', nullable_value VText (worker_id a)),
      (''failure_type'', nullable_value (VText \<circ> FailureType_value) (failure_type a)),
      (''error_code'', nullable_value VText (att_error_code a)),
      (''error_message'', nullable_value VText (att_error_message a)),
      (''traceback'', nullable_value VText (att_traceback a)),
      (''started_at'', VTime (att_started_at a)), (''finished_at'', nullable_value VTime (finished_at a)),
      (''heartbeat_at'', nullable_value VTime (heartbeat_at a)),
      (''lease_expires_at'', nullable_value VTime (lease_expires_at a))]"

definition reservation_row :: "JobExecutionReservation \<Rightarrow> row" where
  "reservation_row v =
     [(''id'', VUuid (res_id v)), (''job'', VUuid (res_job v)), (''tenant'', VUuid (res_tenant v)),
      (''lease_token'', VUuid (res_lease_token v)), (''expires_at'', VTime (res_expires_at v))]"

definition overlap_lock_row :: "JobOverlapLock \<Rightarrow> row" where
  "overlap_lock_row v =
     [(''id'', VUuid (lock_id v)), (''job'', VUuid (lock_job v)),
      (''tenant'', nullable_value VUuid (lock_tenant v)),
      (''scope'', VText (OverlapScope_value (lock_scope v))), (''resource_key'', VText (resource_key v)),
      (''lease_token'', VUuid (lock_lease_token v)), (''expires_at'', VTime (lock_expires_at v))]"

definition outbox_row :: "JobOutbox \<Rightarrow> row" where
  "outbox_row e =
     [(''id'', VUuid (out_id e)), (''job'', VUuid (out_job e)),
      (''event_type'', VText (OutboxEventType_value (event_type e))),
      (''status'', VText (OutboxStatus_value (out_status e))), (''payload'', json_value (out_payload e)),
      (''publish_attempts'', nat_value (publish_attempts e)),
      (''available_at'', VTime (out_available_at e)),
      (''published_at'', nullable_value VTime (published_at e)),
      (''last_error'', nullable_value VText (last_error e))]"

definition dead_letter_row :: "DeadLetterJob \<Rightarrow> row" where
  "dead_letter_row x =
     [(''id'', VUuid (dl_id x)), (''job'', VUuid (dl_job x)), (''tenant'', VUuid (dl_tenant x)),
      (''reason'', VText (DeadLetterReason_value (dl_reason x))),
      (''status'', VText (DeadLetterStatus_value (dl_status x))),
      (''error_code'', nullable_value VText (dl_error_code x)),
      (''error_message'', nullable_value VText (dl_error_message x)),
      (''last_attempt_number'', nullable_value nat_value (last_attempt_number x)),
      (''metadata'', json_value (dl_metadata x)), (''replayed_job'', nullable_value VUuid (replayed_job x)),
      (''replayed_at'', nullable_value VTime (replayed_at x)),
      (''dismissed_at'', nullable_value VTime (dismissed_at x))]"

section \<open>The schema does not depend on its description\<close>

lemma same_elements_set: "same_elements xs ys \<Longrightarrow> set xs = set ys"
  by (auto simp: same_elements_def list_all_iff)

lemma fits_normal [simp]: "fits (normal_type t) v = fits t v"
  by (cases t; cases v) simp_all

lemma checked_normal [simp]: "checked (normal_type t) v = checked t v"
  by (cases t; cases v) simp_all

lemma one_to_one_normal [simp]: "one_to_one (normal_type t) = one_to_one t"
  by (cases t) simp_all

lemma normal_field_simps [simp]:
  "f_name (normal_field f) = f_name f" "f_type (normal_field f) = normal_type (f_type f)"
  "f_null (normal_field f) = f_null f" "f_primary (normal_field f) = f_primary f"
  "f_unique (normal_field f) = f_unique f" "f_auto_now (normal_field f) = f_auto_now f"
  by (simp_all add: normal_field_def)

lemma normal_fields_cong:
  fixes m n :: model
  assumes "set (map normal_field (m_fields m)) = set (map normal_field (m_fields n))"
    and "\<And>f. Q (normal_field f) = Q f"
  shows "(\<exists>f \<in> set (m_fields m). Q f) \<longleftrightarrow> (\<exists>f \<in> set (m_fields n). Q f)"
proof -
  have e: "(\<exists>f \<in> set (m_fields k). Q f) \<longleftrightarrow> (\<exists>g \<in> set (map normal_field (m_fields k)). Q g)" for k :: model
    using assms(2) by simp
  show ?thesis unfolding e [of m] e [of n] assms(1) by (rule refl)
qed

lemma insert_row_cong:
  assumes "same_model m n"
  shows "insert_row m view x rows = insert_row n view x rows"
proof -
  have f: "set (map normal_field (m_fields m)) = set (map normal_field (m_fields n))"
    and c: "set (m_constraints m) = set (m_constraints n)"
    using assms by (simp_all only: same_model_def same_elements_set)
  have given: "(\<exists>f \<in> set (given m). Q f) \<longleftrightarrow> (\<exists>f \<in> set (given n). Q f)"
    if "\<And>f. Q (normal_field f) = Q f" for Q
    using normal_fields_cong [OF f, of "\<lambda>f. \<not> f_auto_now f \<and> Q f"] that by (auto simp: given_def)
  have uniques: "(\<exists>c \<in> set (uniques m). R c) \<longleftrightarrow> (\<exists>c \<in> set (uniques n). R c)" for R
    using normal_fields_cong [OF f, of "\<lambda>f. (f_primary f \<or> f_unique f \<or> one_to_one (f_type f))
        \<and> R \<lparr>c_name = f_name f, c_fields = [f_name f], c_condition = Always\<rparr>"] c
    by (auto simp: uniques_def)
  show ?thesis
    unfolding insert_row_def uniques
    by (simp only: given [of "\<lambda>f. \<not> fits (f_type f) (cell (view x) (f_name f))"]
        given [of "\<lambda>f. \<not> f_null f \<and> cell (view x) (f_name f) = VNull"]
        given [of "\<lambda>f. \<not> checked (f_type f) (cell (view x) (f_name f))"]
        normal_field_simps fits_normal checked_normal)
qed

lemma insert_into_cong:
  assumes "list_all2 same_model ms ns"
  shows "insert_into ms table view x rows = insert_into ns table view x rows"
  using assms
proof (induction rule: list_all2_induct)
  case Nil
  show ?case by simp
next
  case (Cons m ms n ns)
  then show ?case
    using insert_row_cong [of m n view x rows] by (simp add: insert_into_def same_model_def)
qed

lemmas insert_created = insert_into_cong [OF created_declared]

section \<open>The inserts of the models\<close>

lemma choice_lengths [simp]:
  "length (JobStatus_value js) \<le> 32" "length (AttemptStatus_value as) \<le> 32"
  "length (FailureType_value ft) \<le> 32" "length (DeadLetterReason_value dr) \<le> 64"
  "length (DeadLetterStatus_value ds) \<le> 16" "length (OutboxEventType_value oe) \<le> 32"
  "length (OutboxStatus_value os) \<le> 16" "length (OverlapScope_value sc) \<le> 16"
  by - ((cases js; simp), (cases as; simp), (cases ft; simp), (cases dr; simp), (cases ds; simp),
      (cases oe; simp), (cases os; simp), (cases sc; simp))

lemma OverlapScope_value_inject [simp]: "OverlapScope_value r = OverlapScope_value s \<longleftrightarrow> r = s"
  by (cases r; cases s) simp_all

lemma OverlapScope_value_iff [simp]:
  "OverlapScope_value s = ''TENANT'' \<longleftrightarrow> s = TENANT" "OverlapScope_value s = ''GLOBAL'' \<longleftrightarrow> s = GLOBAL"
  by (cases s; simp)+

lemma nullable_value_simps [simp]:
  "nullable_value f None = VNull" "nullable_value f (Some x) = f x"
  by (simp_all add: nullable_value_def)

lemma nullable_value_null [simp]: "(\<And>x. f x \<noteq> VNull) \<Longrightarrow> nullable_value f v = VNull \<longleftrightarrow> v = None"
  by (cases v) simp_all

lemma nullable_value_eq [simp]:
  "nullable_value VText v = nullable_value VText w \<longleftrightarrow> v = w"
  "nullable_value VUuid k = nullable_value VUuid l \<longleftrightarrow> k = l"
  by (auto simp: nullable_value_def split: option.splits)

lemma json_value_null [simp]: "json_value v = VNull \<longleftrightarrow> v = JNull"
  by (simp add: json_value_def)

lemma fits_json [simp]: "fits JSONField v" "checked JSONField v"
  by simp_all

lemma fits_nullable [simp]:
  "fits (CharField n) (nullable_value VText v) \<longleftrightarrow> (case v of None \<Rightarrow> True | Some s \<Rightarrow> length s \<le> n)"
  by (simp add: nullable_value_def split: option.splits)

lemma fits_failure_type [simp]:
  "fits (CharField 32) (nullable_value (VText \<circ> FailureType_value) v)"
  by (cases v) simp_all

lemma smallint_nullable [simp]:
  "fits PositiveSmallIntegerField (nullable_value nat_value v)
     \<longleftrightarrow> (case v of None \<Rightarrow> True | Some n \<Rightarrow> n \<le> 32767)"
  "checked PositiveSmallIntegerField (nullable_value nat_value v)"
  by (cases v; simp add: nat_value_def)+

lemmas field_defs = column_def nullable_def primary_def unique_column_def auto_now_def choices_def

text \<open>
  What the schema demands of one table, in three parts: the columns' ranges, NOT NULL and CHECK,
  and for which rows a unique constraint is violated.
\<close>

definition too_wide :: "model \<Rightarrow> row \<Rightarrow> bool" where
  "too_wide m x \<longleftrightarrow> (\<exists>f \<in> set (given m). \<not> fits (f_type f) (cell x (f_name f)))"

definition ill_formed :: "model \<Rightarrow> row \<Rightarrow> bool" where
  "ill_formed m x \<longleftrightarrow> (\<exists>f \<in> set (given m). \<not> f_null f \<and> cell x (f_name f) = VNull)
     \<or> (\<exists>f \<in> set (given m). \<not> checked (f_type f) (cell x (f_name f)))"

definition clashes :: "model \<Rightarrow> row \<Rightarrow> row \<Rightarrow> bool" where
  "clashes m r x \<longleftrightarrow> (\<exists>c \<in> set (uniques m). conflict c r x)"

lemma insert_row_parts:
  "insert_row m view x rows =
     (if too_wide m (view x) then Inl DataError
      else if ill_formed m (view x) \<or> (\<exists>r \<in> set rows. clashes m (view r) (view x)) then Inl IntegrityError
      else Inr (rows @ [x]))"
  by (simp add: insert_row_def too_wide_def ill_formed_def clashes_def)

lemmas table_defs = too_wide_def ill_formed_def clashes_def given_def uniques_def conflict_def cell_def
  field_defs nat_value_def smallint_max_def

lemma job_table:
  assumes "case last_error_code j of None \<Rightarrow> True | Some c \<Rightarrow> length c \<le> 100"
    "attempt_count j \<le> smallint_max" "payload j \<noteq> JNull"
  shows "too_wide Job_model (job_row j) \<longleftrightarrow> 50 < length (job_type j)
      \<or> (case idempotency_key j of None \<Rightarrow> False | Some k \<Rightarrow> 255 < length k)
      \<or> priority j < - 32768 \<or> 32767 < priority j"
    and "ill_formed Job_model (job_row j) \<longleftrightarrow> priority j < 0"
    and "clashes Job_model (job_row r) (job_row j) \<longleftrightarrow> job_id r = job_id j
      \<or> idempotency_key j \<noteq> None \<and> job_tenant r = job_tenant j \<and> idempotency_key r = idempotency_key j"
  using assms by (auto simp: table_defs Job_model_def job_row_def split: option.splits)

lemma attempt_table:
  assumes "case att_error_code a of None \<Rightarrow> True | Some c \<Rightarrow> length c \<le> 100"
  shows "too_wide JobAttempt_model (attempt_row a)
      \<longleftrightarrow> (case worker_id a of None \<Rightarrow> False | Some w \<Rightarrow> 255 < length w) \<or> 32767 < attempt_number a"
    and "\<not> ill_formed JobAttempt_model (attempt_row a)"
    and "clashes JobAttempt_model (attempt_row r) (attempt_row a) \<longleftrightarrow> att_id r = att_id a
      \<or> att_job r = att_job a \<and> attempt_number r = attempt_number a"
  using assms by (auto simp: table_defs JobAttempt_model_def attempt_row_def split: option.splits)

lemma reservation_table:
  "\<not> too_wide JobExecutionReservation_model (reservation_row v)"
  "\<not> ill_formed JobExecutionReservation_model (reservation_row v)"
  "clashes JobExecutionReservation_model (reservation_row r) (reservation_row v)
     \<longleftrightarrow> res_id r = res_id v \<or> res_job r = res_job v \<or> res_lease_token r = res_lease_token v"
  by (auto simp: table_defs JobExecutionReservation_model_def reservation_row_def)

lemma overlap_lock_table:
  "too_wide JobOverlapLock_model (overlap_lock_row v) \<longleftrightarrow> 255 < length (resource_key v)"
  "\<not> ill_formed JobOverlapLock_model (overlap_lock_row v)"
  "clashes JobOverlapLock_model (overlap_lock_row r) (overlap_lock_row v)
     \<longleftrightarrow> lock_id r = lock_id v \<or> lock_lease_token r = lock_lease_token v \<or> lock_conflict r v"
  by (cases "lock_scope r"; cases "lock_scope v";
      auto simp: table_defs JobOverlapLock_model_def overlap_lock_row_def lock_conflict_def)+

lemma outbox_table:
  assumes "out_payload e \<noteq> JNull" "publish_attempts e \<le> 2147483647"
  shows "\<not> too_wide JobOutbox_model (outbox_row e)" "\<not> ill_formed JobOutbox_model (outbox_row e)"
    and "clashes JobOutbox_model (outbox_row r) (outbox_row e) \<longleftrightarrow> out_id r = out_id e"
  using assms by (auto simp: table_defs JobOutbox_model_def outbox_row_def)

lemma dead_letter_table:
  assumes "case dl_error_code x of None \<Rightarrow> True | Some c \<Rightarrow> length c \<le> 100" "dl_metadata x \<noteq> JNull"
  shows "too_wide DeadLetterJob_model (dead_letter_row x)
      \<longleftrightarrow> (case last_attempt_number x of None \<Rightarrow> False | Some n \<Rightarrow> 32767 < n)"
    and "\<not> ill_formed DeadLetterJob_model (dead_letter_row x)"
    and "clashes DeadLetterJob_model (dead_letter_row r) (dead_letter_row x)
      \<longleftrightarrow> dl_id r = dl_id x \<or> dl_job r = dl_job x"
  using assms by (auto simp: table_defs DeadLetterJob_model_def dead_letter_row_def split: option.splits)

lemma tenant_table:
  "too_wide Tenant_model (tenant_row t) \<longleftrightarrow> 255 < length (ten_name t) \<or> 32767 < max_concurrent_jobs t"
  "\<not> ill_formed Tenant_model (tenant_row t)"
  "clashes Tenant_model (tenant_row r) (tenant_row t) \<longleftrightarrow> ten_id r = ten_id t"
  by (auto simp: table_defs Tenant_model_def tenant_row_def)

lemma insert_into_declared:
  "insert_into declared_models ''tenants'' tenant_row t ts = insert_row Tenant_model tenant_row t ts"
  "insert_into declared_models ''jobs'' job_row j js = insert_row Job_model job_row j js"
  "insert_into declared_models ''job_attempts'' attempt_row a as = insert_row JobAttempt_model attempt_row a as"
  "insert_into declared_models ''job_execution_reservations'' reservation_row v vs
     = insert_row JobExecutionReservation_model reservation_row v vs"
  "insert_into declared_models ''job_overlap_locks'' overlap_lock_row l ls
     = insert_row JobOverlapLock_model overlap_lock_row l ls"
  "insert_into declared_models ''job_outbox'' outbox_row e es = insert_row JobOutbox_model outbox_row e es"
  "insert_into declared_models ''dead_letter_jobs'' dead_letter_row x xs
     = insert_row DeadLetterJob_model dead_letter_row x xs"
  by (simp_all add: insert_into_def declared_models_def Tenant_model_def Job_model_def
      JobAttempt_model_def JobExecutionReservation_model_def JobOverlapLock_model_def
      JobOutbox_model_def DeadLetterJob_model_def)

lemmas insert_parts = insert_created insert_into_declared insert_row_parts

lemma insert_job_schema:
  assumes "case last_error_code j of None \<Rightarrow> True | Some c \<Rightarrow> length c \<le> 100"
    "attempt_count j \<le> smallint_max" "payload j \<noteq> JNull"
  shows "insert_job j d = result_bind (insert_into created_models ''jobs'' job_row j (jobs d))
      (\<lambda>rs. Inr (d\<lparr>jobs := rs\<rparr>))"
  by (simp only: insert_parts job_table [OF assms] insert_job_def)
    (auto simp: smallint_max_def split: option.splits)

lemma insert_attempt_schema:
  assumes "case att_error_code a of None \<Rightarrow> True | Some c \<Rightarrow> length c \<le> 100"
  shows "insert_attempt a d = result_bind
      (insert_into created_models ''job_attempts'' attempt_row a (attempts d))
      (\<lambda>rs. Inr (d\<lparr>attempts := rs\<rparr>))"
  by (simp only: insert_parts attempt_table [OF assms] insert_attempt_def)
    (auto simp: smallint_max_def split: option.splits)

lemma insert_reservation_schema:
  "insert_reservation v d = result_bind
      (insert_into created_models ''job_execution_reservations'' reservation_row v (reservations d))
      (\<lambda>rs. Inr (d\<lparr>reservations := rs\<rparr>))"
  by (simp only: insert_parts reservation_table insert_reservation_def)
    (simp add: smallint_max_def bex_disj_distrib)

lemma insert_overlap_lock_schema:
  "insert_overlap_lock l d = result_bind
      (insert_into created_models ''job_overlap_locks'' overlap_lock_row l (overlap_locks d))
      (\<lambda>rs. Inr (d\<lparr>overlap_locks := rs\<rparr>))"
  by (simp only: insert_parts overlap_lock_table insert_overlap_lock_def)
    (simp add: smallint_max_def bex_disj_distrib)

lemma insert_outbox_schema:
  assumes "out_payload e \<noteq> JNull" "publish_attempts e \<le> 2147483647"
  shows "insert_outbox e d = result_bind
      (insert_into created_models ''job_outbox'' outbox_row e (outbox d))
      (\<lambda>rs. Inr (d\<lparr>outbox := rs\<rparr>))"
  by (simp only: insert_parts outbox_table [OF assms] insert_outbox_def)
    (simp add: smallint_max_def bex_disj_distrib)

lemma insert_dead_letter_schema:
  assumes "case dl_error_code x of None \<Rightarrow> True | Some c \<Rightarrow> length c \<le> 100" "dl_metadata x \<noteq> JNull"
  shows "insert_dead_letter x d = result_bind
      (insert_into created_models ''dead_letter_jobs'' dead_letter_row x (dead_letters d))
      (\<lambda>rs. Inr (d\<lparr>dead_letters := rs\<rparr>))"
  by (simp only: insert_parts dead_letter_table [OF assms] insert_dead_letter_def)
    (auto simp: smallint_max_def split: option.splits)

lemma insert_tenant_schema:
  "create_tenant i inp d =
      (let t = apply_tenant_input inp
                 \<lparr>ten_id = i, ten_name = [], is_active = True, max_concurrent_jobs = 2\<rparr>
       in result_bind (insert_into created_models ''tenants'' tenant_row t (tenants d))
            (\<lambda>rs. Inr (t, d\<lparr>tenants := rs\<rparr>)))"
  by (simp only: insert_parts tenant_table create_tenant_def Let_def)
    (simp add: smallint_max_def bex_disj_distrib)

text \<open>
  C39. Every INSERT of the model is the one the migrated schema demands: for each of the seven
  tables the outcome, a \<open>DataError\<close>, an \<open>IntegrityError\<close> or the table with the new row, is what
  the columns and constraints of \<open>0001_initial\<close> give for that row.
\<close>

theorem inserts_follow_schema:
  assumes "case last_error_code j of None \<Rightarrow> True | Some c \<Rightarrow> length c \<le> 100"
    and "attempt_count j \<le> smallint_max" and "payload j \<noteq> JNull"
    and "case att_error_code a of None \<Rightarrow> True | Some c \<Rightarrow> length c \<le> 100"
    and "out_payload e \<noteq> JNull" and "publish_attempts e \<le> 2147483647"
    and "case dl_error_code x of None \<Rightarrow> True | Some c \<Rightarrow> length c \<le> 100" and "dl_metadata x \<noteq> JNull"
  shows "insert_job j d = result_bind (insert_into created_models ''jobs'' job_row j (jobs d))
      (\<lambda>rs. Inr (d\<lparr>jobs := rs\<rparr>))
    \<and> insert_attempt a d = result_bind
      (insert_into created_models ''job_attempts'' attempt_row a (attempts d))
      (\<lambda>rs. Inr (d\<lparr>attempts := rs\<rparr>))
    \<and> insert_reservation v d = result_bind
      (insert_into created_models ''job_execution_reservations'' reservation_row v (reservations d))
      (\<lambda>rs. Inr (d\<lparr>reservations := rs\<rparr>))
    \<and> insert_overlap_lock l d = result_bind
      (insert_into created_models ''job_overlap_locks'' overlap_lock_row l (overlap_locks d))
      (\<lambda>rs. Inr (d\<lparr>overlap_locks := rs\<rparr>))
    \<and> insert_outbox e d = result_bind
      (insert_into created_models ''job_outbox'' outbox_row e (outbox d))
      (\<lambda>rs. Inr (d\<lparr>outbox := rs\<rparr>))
    \<and> insert_dead_letter x d = result_bind
      (insert_into created_models ''dead_letter_jobs'' dead_letter_row x (dead_letters d))
      (\<lambda>rs. Inr (d\<lparr>dead_letters := rs\<rparr>))
    \<and> create_tenant i inp d =
      (let t = apply_tenant_input inp
                 \<lparr>ten_id = i, ten_name = [], is_active = True, max_concurrent_jobs = 2\<rparr>
       in result_bind (insert_into created_models ''tenants'' tenant_row t (tenants d))
            (\<lambda>rs. Inr (t, d\<lparr>tenants := rs\<rparr>)))"
  by (intro conjI insert_job_schema [OF assms(1-3)] insert_attempt_schema [OF assms(4)]
      insert_reservation_schema insert_overlap_lock_schema insert_outbox_schema [OF assms(5,6)]
      insert_dead_letter_schema [OF assms(7,8)] insert_tenant_schema)

theorem inserts_follow_schema_witness:
  "insert_job (submitted_job 0 11 ''k'' (submission_defaults 2 ''REPORTS'')) empty_db
     = Inr (empty_db\<lparr>jobs := [submitted_job 0 11 ''k'' (submission_defaults 2 ''REPORTS'')]\<rparr>)
   \<and> insert_job (submitted_job 0 11 ''k'' (submission_defaults 2 ''REPORTS'')) empty_db
     = result_bind (insert_into created_models ''jobs'' job_row
         (submitted_job 0 11 ''k'' (submission_defaults 2 ''REPORTS'')) (jobs empty_db))
         (\<lambda>rs. Inr (empty_db\<lparr>jobs := rs\<rparr>))"
proof -
  let ?j = "submitted_job 0 11 ''k'' (submission_defaults 2 ''REPORTS'')"
  have j: "last_error_code ?j = None" "payload ?j = JObj []"
    by (simp_all add: submitted_job_def submission_defaults_def)
  have "insert_job ?j empty_db = result_bind (insert_into created_models ''jobs'' job_row ?j (jobs empty_db))
      (\<lambda>rs. Inr (empty_db\<lparr>jobs := rs\<rparr>))"
    by (rule conjunct1 [OF inserts_follow_schema [where
          a = "\<lparr>att_id = 51, att_job = 11, attempt_number = 1, att_status = RUNNING, worker_id = Some ''w'',
            failure_type = None, att_error_code = None, att_error_message = None, att_traceback = None,
            att_started_at = 0, finished_at = None, heartbeat_at = Some 0, lease_expires_at = Some 300\<rparr>" and
          e = "\<lparr>out_id = 31, out_job = 11, event_type = DISPATCH_JOB, out_status = PENDING,
            out_payload = JObj [], publish_attempts = 0, out_available_at = 0, published_at = None,
            last_error = None, out_created_at = 0\<rparr>" and
          x = "\<lparr>dl_id = 61, dl_job = 11, dl_tenant = 2, dl_reason = RETRIES_EXHAUSTED, dl_status = OPEN,
            dl_error_code = None, dl_error_message = None, last_attempt_number = Some 4,
            dl_metadata = JObj [], replayed_job = None, replayed_at = None, dismissed_at = None\<rparr>"]])
      (simp_all add: j)
  moreover have "insert_job ?j empty_db = Inr (empty_db\<lparr>jobs := [?j]\<rparr>)"
    by (simp add: insert_job_def empty_db_def smallint_max_def submission_defaults_def)
  ultimately show ?thesis by (rule conjI [rotated])
qed

end
