(* ===== verification/References.thy ===== *)
theory References
  imports Scenarios Constraints
begin

text \<open>
  Referential integrity. PostgreSQL checks the foreign keys of the schema when a transaction
  commits. Here: no service of the repository ever leaves a dangling reference, so the check can
  only fail a transaction that was given a tenant from outside, a submission or a refresh.
\<close>

section \<open>The foreign keys of the tables\<close>

definition lock_tenants :: "JobOverlapLock list \<Rightarrow> uuid set" where
  "lock_tenants ls = {t. Some t \<in> lock_tenant ` set ls}"

definition replays :: "DeadLetterJob list \<Rightarrow> uuid set" where
  "replays xs = {k. Some k \<in> replayed_job ` set xs}"

definition refs_ok :: "db \<Rightarrow> bool" where
  "refs_ok d \<longleftrightarrow>
     job_tenant ` set (jobs d) \<subseteq> ten_id ` set (tenants d)
     \<and> ss_tenant ` set (scheduler_states d) \<subseteq> ten_id ` set (tenants d)
     \<and> lock_tenants (overlap_locks d) \<subseteq> ten_id ` set (tenants d)
     \<and> out_job ` set (outbox d) \<subseteq> job_id ` set (jobs d)
     \<and> replays (dead_letters d) \<subseteq> job_id ` set (jobs d)"

text \<open>
  What a service may do to the keys: it removes no tenant and no job, and a new reference is to a
  tenant some job refers to already, or to a job that is there when it ends.
\<close>

definition refs_step :: "db \<Rightarrow> db \<Rightarrow> bool" where
  "refs_step d d' \<longleftrightarrow>
     ten_id ` set (tenants d) \<subseteq> ten_id ` set (tenants d')
     \<and> job_id ` set (jobs d) \<subseteq> job_id ` set (jobs d')
     \<and> job_tenant ` set (jobs d') \<subseteq> job_tenant ` set (jobs d)
     \<and> ss_tenant ` set (scheduler_states d')
        \<subseteq> ss_tenant ` set (scheduler_states d) \<union> job_tenant ` set (jobs d)
     \<and> lock_tenants (overlap_locks d') \<subseteq> lock_tenants (overlap_locks d) \<union> job_tenant ` set (jobs d)
     \<and> out_job ` set (outbox d') \<subseteq> out_job ` set (outbox d) \<union> job_id ` set (jobs d')
     \<and> replays (dead_letters d') \<subseteq> replays (dead_letters d) \<union> job_id ` set (jobs d')"

lemma lock_tenants_filter: "t \<in> lock_tenants (filter P ls) \<Longrightarrow> t \<in> lock_tenants ls"
  by (auto simp: lock_tenants_def)

lemma refs_step_refl [simp]: "refs_step d d"
  by (auto simp: refs_step_def)

lemma chain_tenants: "C \<subseteq> B \<union> T' \<Longrightarrow> B \<subseteq> A \<union> T \<Longrightarrow> T' \<subseteq> T \<Longrightarrow> C \<subseteq> A \<union> T"
  and chain_jobs: "C \<subseteq> B \<union> J' \<Longrightarrow> B \<subseteq> A \<union> J \<Longrightarrow> J \<subseteq> J' \<Longrightarrow> C \<subseteq> A \<union> J'"
  and refer_tenants: "C \<subseteq> B \<union> T' \<Longrightarrow> B \<subseteq> X \<Longrightarrow> T' \<subseteq> X \<Longrightarrow> X \<subseteq> Y \<Longrightarrow> C \<subseteq> Y"
  and refer_jobs: "C \<subseteq> B \<union> J' \<Longrightarrow> B \<subseteq> J \<Longrightarrow> J \<subseteq> J' \<Longrightarrow> C \<subseteq> J'"
  for A B C J J' T T' X Y :: "uuid set"
  by blast+

lemma refs_step_trans [trans]: "refs_step d d1 \<Longrightarrow> refs_step d1 d2 \<Longrightarrow> refs_step d d2"
  unfolding refs_step_def
  by (elim conjE, intro conjI)
    ((rule subset_trans, assumption, assumption) | (rule chain_tenants, assumption, assumption, assumption)
      | (rule chain_jobs, assumption, assumption, assumption))+

lemma refs_ok_step: "refs_ok d \<Longrightarrow> refs_step d d' \<Longrightarrow> refs_ok d'"
  unfolding refs_ok_def refs_step_def
  by (elim conjE, intro conjI)
    ((rule subset_trans, assumption, rule subset_trans, assumption, assumption)
      | (rule refer_tenants, assumption, assumption, assumption, assumption)
      | (rule refer_jobs, assumption, assumption, assumption))+

lemma image_rows_update: "(\<And>r. g (f r) = g r) \<Longrightarrow> g ` set (rows_update P f rows) = g ` set rows"
  by (induction rows) (simp_all add: rows_update_def)

lemma rows_update_key:
  assumes "r \<in> set (rows_update P f rows)" "\<And>r. g (f r) = g r"
  shows "g r \<in> g ` set rows"
  using image_rows_update [of g f P rows] assms by (metis imageI)

lemma key_sets [simp]:
  "lock_tenants (ls @ ms) = lock_tenants ls \<union> lock_tenants ms"
  "lock_tenants [l] = (case lock_tenant l of None \<Rightarrow> {} | Some t \<Rightarrow> {t})"
  "replays (xs @ ys) = replays xs \<union> replays ys"
  "replays [x] = (case replayed_job x of None \<Rightarrow> {} | Some k \<Rightarrow> {k})"
  by (auto simp: lock_tenants_def replays_def rows_delete_def split: option.splits)

section \<open>Primitive steps\<close>

lemma refs_save_attempt [simp]: "refs_step d (save_attempt k f d)"
  by (simp add: refs_step_def save_attempt_def)

lemma refs_save_job:
  "(\<And>j. job_id (f j) = job_id j \<and> job_tenant (f j) = job_tenant j) \<Longrightarrow> refs_step d (save_job k f d)"
  by (simp add: refs_step_def save_job_def image_rows_update)

lemma refs_released [simp]: "refs_step d (released job d)"
  by (auto simp: refs_step_def image_rows_update rows_delete_def dest: lock_tenants_filter)

lemma refs_refresh:
  assumes "refresh_scheduler_state now t d = Inr d'" "t \<in> job_tenant ` set (jobs d)"
  shows "refs_step d d'"
  using assms(1)
proof (cases rule: refresh_cases)
  case existing
  then show ?thesis by (simp add: refs_step_def save_scheduler_state_def image_rows_update)
next
  case new
  then show ?thesis using assms(2) by (simp add: refs_step_def new_scheduler_state_def)
qed

section \<open>The services\<close>

lemma refs_dispatch:
  assumes "keyed d" "dispatch_next env t d = Inr (r, d')"
  shows "refs_step d d'"
proof (cases r)
  case None
  then show ?thesis using dispatch_next_None [of env t d d'] assms(2) by simp
next
  case (Some j)
  show ?thesis
  proof (rule dispatch_next_Some [OF assms(1) assms(2) [unfolded Some]])
    fix state tenant before job rest d1
    assume st: "state \<in> set (scheduler_states d)" "ss_tenant state = t"
      and cands: "dispatch_candidates env t d = before @ job # rest"
      and lock: "case resource_of env job of Inl _ \<Rightarrow> False | Inr None \<Rightarrow> d1 = d
        | Inr (Some k) \<Rightarrow> acquired job k d d1"
      and res: "reserve_job env job state d1 = Inr (j, d')"
    have job: "job \<in> set (jobs d)" using candidates_ready [of job env t d] cands by simp
    have "refs_step d d1"
      using lock job by (auto simp: refs_step_def new_overlap_lock_def split: sum.splits option.splits
          elim!: acquired_cases)
    moreover have "job \<in> set (jobs d1)"
      using lock job by (auto split: sum.splits option.splits dest: acquired_simps(1))
    then have "refs_step d1 (reserved env job state d1)"
      by (auto simp: refs_step_def image_rows_update new_outbox_event_def)
    ultimately show ?thesis using reserve_job_Inr(2) [OF res] refs_step_trans by simp
  qed
qed

lemma refs_claim:
  assumes "keyed d" "claim_job now host i jid d = Inr (r, d')"
  shows "refs_step d d'"
proof (cases r)
  case None
  then show ?thesis using assms(2)
    by (auto simp: claim_job_def Let_def result_bind_eq_Inr split: option.splits if_splits)
next
  case (Some aj)
  obtain a j where "aj = (a, j)" by (cases aj)
  with assms(2) Some have "claim_job now host i jid d = Inr (Some (a, j), d')" by simp
  from claim_job_Some [OF assms(1) this] show ?thesis
    by (rule) (auto simp: refs_step_def image_rows_update)
qed

lemma refs_complete: "keyed d \<Longrightarrow> complete_job now i v d = Inr d' \<Longrightarrow> refs_step d d'"
proof (erule (1) complete_job_Inr)
  fix a job
  let ?d1 = "save_attempt i (\<lambda>a. a\<lparr>att_status := ATT_SUCCEEDED, finished_at := Some now\<rparr>) d"
  assume d': "d' = released job (save_job (att_job a) (completed_row now v) ?d1)"
  have "refs_step d ?d1" by simp
  also have "refs_step ?d1 (save_job (att_job a) (completed_row now v) ?d1)"
    by (rule refs_save_job) (simp add: completed_row_def)
  also have "refs_step (save_job (att_job a) (completed_row now v) ?d1) d'" unfolding d' by simp
  finally show ?thesis .
qed

lemma refs_fail_row:
  assumes "keyed d" "job \<in> set (jobs d)" "fail_row_tx now i job ft m d = Inr d'"
  shows "refs_step d d'"
  using assms
proof (rule fail_row_tx_Inr)
  fix d2
  assume d': "d' = released job (save_job (job_id job) (failed_row now ft m) d2)"
    and alt: "d2 = d \<and> (retries ft job \<or> (\<exists>x \<in> set (dead_letters d). dl_job x = job_id job))
     \<or> (let x = new_dead_letter i job (dead_letter_reason ft) m
        in d2 = d\<lparr>dead_letters := dead_letters d @ [x]\<rparr> \<and> \<not> retries ft job
           \<and> (\<forall>y \<in> set (dead_letters d). dl_id y \<noteq> i \<and> dl_job y \<noteq> job_id job))"
  have "refs_step d d2" using alt by (auto simp: refs_step_def Let_def new_dead_letter_def)
  also have "refs_step d2 (save_job (job_id job) (failed_row now ft m) d2)"
    by (rule refs_save_job) simp
  also have "refs_step (save_job (job_id job) (failed_row now ft m) d2) d'" unfolding d' by simp
  finally show ?thesis .
qed

lemma refs_fail:
  assumes "keyed d" "fail_job now i tb lib aid exc ft d = Inr d'"
  shows "refs_step d d'"
proof -
  let ?f = "\<lambda>a. a\<lparr>att_status := ATT_FAILED, failure_type := Some ft,
      att_error_message := Some (exc_str lib exc), att_traceback := Some tb, finished_at := Some now\<rparr>"
  from assms obtain a job where a: "a \<in> set (attempts d)" and job: "job \<in> set (jobs d)"
    and tx: "fail_row_tx now i job ft (exc_str lib exc) (save_attempt (att_id a) (\<lambda>_. ?f a) d) = Inr d'"
    by (auto simp: fail_job_eq result_bind_eq_Inr)
  let ?d1 = "save_attempt (att_id a) ?f d"
  have "save_attempt (att_id a) (\<lambda>_. ?f a) d = ?d1"
    by (rule save_attempt_cong [OF keyedD(2) [OF assms(1)] a]) simp
  moreover have "keyed ?d1" using assms(1) by (subst keyed_save_attempt) simp_all
  ultimately have "refs_step ?d1 d'" using refs_fail_row [of ?d1 job] tx job by simp
  then show ?thesis using refs_step_trans refs_save_attempt by blast
qed

lemma refs_reconcile_attempt:
  assumes "keyed d" "reconcile_attempt now now' i aid d = Inr d'"
  shows "refs_step d d'"
  using assms
proof (cases rule: reconcile_attempt_cases)
  case (abandoned a job)
  let ?d1 = "save_attempt aid (\<lambda>a. a\<lparr>att_status := ABANDONED, finished_at := Some now,
      failure_type := Some INFRASTRUCTURE\<rparr>) d"
  have "keyed ?d1" using assms(1) by (subst keyed_save_attempt) simp_all
  then have "refs_step ?d1 d'" using refs_fail_row [of ?d1 job] abandoned by simp
  then show ?thesis using refs_step_trans refs_save_attempt by blast
qed simp

lemma refs_recover_queued:
  assumes "keyed d" "recover_queued now rnow jid d = Inr d'"
  shows "refs_step d d'"
  using assms
proof (cases rule: recover_queued_cases)
  case (recovered job)
  let ?d1 = "save_job jid (\<lambda>j. j\<lparr>job_status := WAITING, ready_since := now\<rparr>) d"
  have "refs_step d ?d1" by (rule refs_save_job) simp
  also have "refs_step ?d1 (released job ?d1)" by simp
  also have "refs_step (released job ?d1) d'"
    using recovered by (intro refs_refresh) (auto simp: image_rows_update)
  finally show ?thesis .
qed simp

lemma refs_cancel:
  assumes "keyed d" "cancel_job now jid d = Inr (j, d')"
  shows "refs_step d d'"
proof -
  obtain job where get: "get_job jid d = Inr job"
    using assms(2) by (auto simp: cancel_job_def result_bind_eq_Inr)
  have "refs_step d (save_job jid (cancel_row now) d)" by (rule refs_save_job) simp
  then show ?thesis
    using cancel_job_eq [OF keyedD(1,3) [OF assms(1)] get, of now] assms(2) refs_released refs_step_trans
    by (auto split: if_splits)
qed

lemma refs_promote:
  assumes "promote_ready_retries now locked rnow limit d = Inr (n, d')"
  shows "refs_step d d'"
proof -
  let ?js = "due_retries now locked limit d" and ?d1 = "fold (promote now) (due_retries now locked limit d) d"
  have refresh: "try_each (\<lambda>t. refresh_scheduler_state (rnow t) t) ts x = Inr y
      \<Longrightarrow> set ts \<subseteq> job_tenant ` set (jobs x) \<Longrightarrow> refs_step x y" for ts x y
  proof (induction ts arbitrary: x)
    case (Cons t ts)
    then obtain z where z: "refresh_scheduler_state (rnow t) t x = Inr z"
      "try_each (\<lambda>t. refresh_scheduler_state (rnow t) t) ts z = Inr y"
      by (auto simp: result_bind_eq_Inr split: sum.splits)
    then have "refs_step x z" "refs_step z y"
      using Cons refs_refresh refresh_frame(2) [OF z(1)] by simp_all
    then show ?case by (rule refs_step_trans)
  qed simp
  have "?d1 = d\<lparr>jobs := jobs ?d1\<rparr>" by simp
  then have "refs_step d ?d1"
    by (simp add: refs_step_def jobs_promote_fold image_rows_update)
  moreover have "try_each (\<lambda>t. refresh_scheduler_state (rnow t) t) (remdups (map job_tenant ?js)) ?d1 = Inr d'"
    using assms by (auto simp: promote_ready_retries_def Let_def result_bind_eq_Inr)
  then have "refs_step ?d1 d'"
    by (rule refresh) (auto simp: jobs_promote_fold image_rows_update dest: due_retries_mem(1))
  ultimately show ?thesis by (rule refs_step_trans)
qed

lemma refs_replay:
  assumes "replay_dead_letter now rnow i g x d = Inr (j, d')"
  shows "refs_step d d'"
  using assms
proof (rule replay_dead_letter_Inr)
  fix y source
  assume source: "source \<in> set (jobs d)" "j = cloned_job now i g source"
    and jobs: "jobs d' = jobs d @ [j]"
    and dls: "dead_letters d' = rows_update (\<lambda>y. dl_id y = x) (\<lambda>y. y\<lparr>dl_status := REPLAYED,
       replayed_job := Some i, replayed_at := Some now\<rparr>) (dead_letters d)"
    and ref: "refresh_scheduler_state rnow (job_tenant j)
       (d\<lparr>jobs := jobs d', dead_letters := dead_letters d'\<rparr>) = Inr d'"
  have "replays (dead_letters d') \<subseteq> replays (dead_letters d) \<union> {i}"
    by (auto simp: replays_def dls set_rows_update split: if_splits)
  then have "refs_step d (d\<lparr>jobs := jobs d', dead_letters := dead_letters d'\<rparr>)"
    using source by (auto simp: refs_step_def jobs)
  moreover have "refs_step (d\<lparr>jobs := jobs d', dead_letters := dead_letters d'\<rparr>) d'"
    using ref by (rule refs_refresh) (simp add: jobs)
  ultimately show ?thesis by (rule refs_step_trans)
qed

lemma refs_heartbeat:
  "refs_step d (heartbeat_update_attempt now i d)" "refs_step d (heartbeat_update_reservation now k d)"
  by (simp_all add: refs_step_def heartbeat_update_attempt_def heartbeat_update_reservation_def)

lemma publish_event_saves:
  assumes "publish_event now delay str_exc i (d, q) = (r, (d', q'))"
  obtains "d' = d" | k f where "d' = save_outbox k f d" "\<And>x. out_job (f x) = out_job x"
proof (cases "d' = d")
  case False
  then obtain k s p a l where "d' = save_outbox k (\<lambda>x. x\<lparr>out_status := s, published_at := p,
      publish_attempts := a, last_error := l\<rparr>) d"
    using assms by (auto simp: publish_event_def publish_event_body_def Let_def
        split: prod.splits sum.splits option.splits if_splits)
  then show thesis by (rule that(2)) simp
qed (rule that(1))

lemma refs_publish:
  assumes "publish_event now delay str_exc i (d, q) = (r, (d', q'))"
  shows "refs_step d d'"
  using assms by (rule publish_event_saves) (simp_all add: refs_step_def save_outbox_def image_rows_update)

section \<open>The invariant\<close>

text \<open>
  The transactions whose tenant comes from outside the database: at their commit PostgreSQL
  refuses one that does not exist.
\<close>

fun commits :: "event \<Rightarrow> sys \<Rightarrow> bool" where
  "commits (Submit now i g sub) s \<longleftrightarrow> sub_tenant sub \<in> ten_id ` set (tenants (sys_db s))"
| "commits (Refresh now t) s \<longleftrightarrow> t \<in> ten_id ` set (tenants (sys_db s))"
| "commits (Ensure_State t) s \<longleftrightarrow> t \<in> ten_id ` set (tenants (sys_db s))"
| "commits e s \<longleftrightarrow> True"

lemma refs_create_tenant: "create_tenant i inp d = Inr (t, d') \<Longrightarrow> refs_step d d'"
  by (auto simp: refs_step_def dest!: create_tenant_Inr(1))

lemma refs_update_tenant:
  assumes "update_tenant i inp d = Inr (t, d')"
  shows "refs_step d d'"
  using assms
proof (rule update_tenant_Inr)
  assume d': "d' = d\<lparr>tenants := rows_update (\<lambda>r. ten_id r = i) (\<lambda>_. t) (tenants d)\<rparr>" "ten_id t = i"
  have "map ten_id (rows_update (\<lambda>r. ten_id r = i) (\<lambda>_. t) (tenants d)) = map ten_id (tenants d)"
    by (rule map_rows_update) (simp add: d'(2))
  then have "ten_id ` set (tenants d') = ten_id ` set (tenants d)" 
    unfolding set_map [symmetric] by (simp add: d'(1))
  then show ?thesis by (simp add: refs_step_def d'(1))
qed

lemma refs_submit:
  assumes "refs_ok d" "sub_tenant sub \<in> ten_id ` set (tenants d)" "submit_job now i g sub d = Inr ((j, c), d')"
  shows "refs_ok d'"
  using assms(3)
proof (cases rule: submit_job_cases)
  case existing
  then show ?thesis using assms(1) by simp
next
  case new
  then show ?thesis using assms(1,2) by (auto simp: refs_ok_def)
qed

lemma refs_cache_step:
  assumes "refs_ok d" "t \<in> ten_id ` set (tenants d)" "cache_step t d d'"
  shows "refs_ok d'"
  using assms(3)
proof (cases rule: cache_step_cases)
  case existing
  then show ?thesis using assms(1) by (simp add: refs_ok_def save_scheduler_state_def image_rows_update)
next
  case new
  then show ?thesis using assms(1,2) by (simp add: refs_ok_def)
qed

lemma refs_save_readiness: "refs_ok d \<Longrightarrow> refs_ok (save_readiness t b p n d)"
  by (simp add: refs_ok_def save_readiness_def save_scheduler_state_def image_rows_update lock_tenants_def replays_def)

lemma refs_reordered: "refs_ok d \<Longrightarrow> reordered d d' \<Longrightarrow> refs_ok d'"
  by (simp add: refs_ok_def reordered_sets lock_tenants_def replays_def)

lemma refs_event:
  assumes "refs_ok (sys_db s)" "inv (sys_db s)" "commits e s" "do_event e s = Some s'"
  shows "refs_ok (sys_db s')"
proof -
  note k = invD(1) [OF assms(2)]
  have tx: "refs_ok (sys_db (tx r s))" if "\<And>d. r = Inr d \<Longrightarrow> refs_ok d" for r
    using that assms(1) by (cases r) simp_all
  have step: "refs_ok d" if "refs_step (sys_db s) d" for d by (rule refs_ok_step [OF assms(1) that])
  show ?thesis
  proof (cases e)
    case (Publish now delay str_exc i)
    obtain r d q where pub: "publish_event now delay str_exc i (sys_db s, sys_broker s) = (r, (d, q))"
      by (metis prod.exhaust)
    then have "sys_db s' = d" using assms(4) Publish by auto
    with step [OF refs_publish [OF pub]] show ?thesis by simp
  next
    case (Claim now host i jid)
    then show ?thesis using assms(1,4) refs_claim [OF k]
      by (auto split: if_splits sum.splits option.splits prod.splits intro: step)
  next
    case (Complete now i v)
    then show ?thesis using assms(1,4) refs_complete [OF k] by (auto split: if_splits sum.splits intro: step)
  next
    case (Fail now i tb lib aid exc ft)
    then have "sys_db s' = sys_db (tx (fail_job now i tb lib aid exc ft (sys_db s)) s)"
      using assms(4) by (auto split: if_splits)
    then show ?thesis using tx [of "fail_job now i tb lib aid exc ft (sys_db s)"] step refs_fail [OF k] by simp
  next
    case (Submit now i g sub)
    then have "sub_tenant sub \<in> ten_id ` set (tenants (sys_db s))" using assms(3) by simp
    from refs_submit [OF assms(1) this] show ?thesis
      using Submit assms(4) by (auto simp: db_of_Inr intro!: tx)
  next
    case (Refresh now t)
    then have "t \<in> ten_id ` set (tenants (sys_db s))" using assms(3) by simp
    from refs_cache_step [OF assms(1) this cache_step_refresh] show ?thesis
      using Refresh assms(4) by (auto intro!: tx)
  next
    case (Ensure_State t)
    then have "t \<in> ten_id ` set (tenants (sys_db s))" using assms(3) by simp
    from refs_cache_step [OF assms(1) this cache_step_create] show ?thesis
      using Ensure_State assms(4) by (auto simp: db_of_Inr intro!: tx)
  next
    case (Save_Readiness t b p n)
    then show ?thesis using assms(1,4) refs_save_readiness by auto
  next
    case (Reorder d)
    then show ?thesis using assms refs_reordered by (auto split: if_splits)
  next
    case (Publish_Crash i)
    with assms show ?thesis by (auto split: sum.splits if_splits)
  qed (use assms(1,4) in \<open>auto simp: db_of_Inr step [OF refs_heartbeat(1)] step [OF refs_heartbeat(2)]
      intro!: tx split: if_splits
      dest: step [OF refs_create_tenant] step [OF refs_update_tenant] step [OF refs_dispatch [OF k]]
        step [OF refs_promote] step [OF refs_reconcile_attempt [OF k]] step [OF refs_recover_queued [OF k]]
        step [OF refs_cancel [OF k]] step [OF refs_replay]\<close>)
qed

lemma refs_init: "refs_ok empty_db"
  by (simp add: refs_ok_def empty_db_def lock_tenants_def replays_def)

interpretation references: run_invariant commits "\<lambda>s. inv (sys_db s) \<and> refs_ok (sys_db s)"
  by unfold_locales (auto simp: init_sys_def inv_init refs_init intro: inv_event refs_event)

section \<open>The foreign keys of the schema\<close>

text \<open>
  What a declared model's foreign keys demand of the tables, read off the declaration: in each
  row the column is NULL or the primary key of a row of the model it names.
\<close>

fun reference :: "column_type \<Rightarrow> string option" where
  "reference (ForeignKey to a) = Some to"
| "reference (OneToOneField to a) = Some to"
| "reference t = None"

definition foreign_keys :: "model \<Rightarrow> (string \<times> string) list" where
  "foreign_keys m = List.map_filter (\<lambda>f. map_option (Pair (f_name f)) (reference (f_type f))) (m_fields m)"

definition primary_key :: "model \<Rightarrow> string" where
  "primary_key m = (case find f_primary (m_fields m) of None \<Rightarrow> [] | Some f \<Rightarrow> f_name f)"

text \<open>\<open>"app.Model"\<close> is the model of that name.\<close>

definition referred :: "model list \<Rightarrow> string \<Rightarrow> model option" where
  "referred schema to = find (named (map lower_char (drop 1 (dropWhile (\<lambda>c. c \<noteq> CHR ''.'') to)))) schema"

definition refers :: "row list \<Rightarrow> string \<Rightarrow> row list \<Rightarrow> string \<Rightarrow> bool" where
  "refers rows name targets key \<longleftrightarrow>
     (\<forall>r \<in> set rows. cell r name = VNull \<or> (\<exists>s \<in> set targets. cell s key = cell r name))"

definition references_hold :: "model list \<Rightarrow> (string \<Rightarrow> row list) \<Rightarrow> bool" where
  "references_hold schema tables \<longleftrightarrow> (\<forall>m \<in> set schema. \<forall>(name, to) \<in> set (foreign_keys m).
     case referred schema to of
       None \<Rightarrow> False
     | Some n \<Rightarrow> refers (tables (m_table m)) name (tables (m_table n)) (primary_key n))"

definition scheduler_state_row :: "TenantSchedulerState \<Rightarrow> row" where
  "scheduler_state_row s =
     [(''tenant'', VUuid (ss_tenant s)), (''active_reservations'', nat_value (active_reservations s)),
      (''has_ready_work'', VBool (has_ready_work s)),
      (''highest_ready_priority'', nullable_value VInt (highest_ready_priority s)),
      (''next_ready_at'', nullable_value VTime (next_ready_at s)),
      (''last_dispatched_at'', nullable_value VTime (last_dispatched_at s))]"

definition db_tables :: "db \<Rightarrow> string \<Rightarrow> row list" where
  "db_tables d table =
     (if table = ''tenants'' then map tenant_row (tenants d)
      else if table = ''jobs'' then map job_row (jobs d)
      else if table = ''job_attempts'' then map attempt_row (attempts d)
      else if table = ''job_execution_reservations'' then map reservation_row (reservations d)
      else if table = ''job_overlap_locks'' then map overlap_lock_row (overlap_locks d)
      else if table = ''job_outbox'' then map outbox_row (outbox d)
      else if table = ''dead_letter_jobs'' then map dead_letter_row (dead_letters d)
      else if table = ''tenant_scheduler_state'' then map scheduler_state_row (scheduler_states d)
      else [])"

lemma declared_keys:
  "foreign_keys Tenant_model = []"
  "foreign_keys Job_model = [(''tenant'', ''tenants.Tenant'')]"
  "foreign_keys DeadLetterJob_model
     = [(''job'', ''jobs.Job''), (''tenant'', ''tenants.Tenant''), (''replayed_job'', ''jobs.Job'')]"
  "foreign_keys JobAttempt_model = [(''job'', ''jobs.Job'')]"
  "foreign_keys JobExecutionReservation_model = [(''job'', ''jobs.Job''), (''tenant'', ''tenants.Tenant'')]"
  "foreign_keys JobOutbox_model = [(''job'', ''jobs.Job'')]"
  "foreign_keys JobOverlapLock_model = [(''job'', ''jobs.Job''), (''tenant'', ''tenants.Tenant'')]"
  "foreign_keys TenantSchedulerState_model = [(''tenant'', ''tenants.Tenant'')]"
  by code_simp+

lemma declared_targets:
  "referred declared_models ''tenants.Tenant'' = Some Tenant_model"
  "referred declared_models ''jobs.Job'' = Some Job_model"
  "primary_key Tenant_model = ''id''" "primary_key Job_model = ''id''"
  by code_simp+

lemma declared_tables:
  "m_table Tenant_model = ''tenants''" "m_table Job_model = ''jobs''"
  "m_table DeadLetterJob_model = ''dead_letter_jobs''" "m_table JobAttempt_model = ''job_attempts''"
  "m_table JobExecutionReservation_model = ''job_execution_reservations''"
  "m_table JobOutbox_model = ''job_outbox''" "m_table JobOverlapLock_model = ''job_overlap_locks''"
  "m_table TenantSchedulerState_model = ''tenant_scheduler_state''"
  by code_simp+

lemma row_keys [simp]:
  "cell (tenant_row t) ''id'' = VUuid (ten_id t)" "cell (job_row j) ''id'' = VUuid (job_id j)"
  "cell (job_row j) ''tenant'' = VUuid (job_tenant j)"
  "cell (dead_letter_row x) ''job'' = VUuid (dl_job x)"
  "cell (dead_letter_row x) ''tenant'' = VUuid (dl_tenant x)"
  "cell (dead_letter_row x) ''replayed_job'' = nullable_value VUuid (replayed_job x)"
  "cell (attempt_row a) ''job'' = VUuid (att_job a)"
  "cell (reservation_row v) ''job'' = VUuid (res_job v)"
  "cell (reservation_row v) ''tenant'' = VUuid (res_tenant v)"
  "cell (outbox_row e) ''job'' = VUuid (out_job e)"
  "cell (overlap_lock_row l) ''job'' = VUuid (lock_job l)"
  "cell (overlap_lock_row l) ''tenant'' = nullable_value VUuid (lock_tenant l)"
  "cell (scheduler_state_row s) ''tenant'' = VUuid (ss_tenant s)"
  by (simp_all add: cell_def tenant_row_def job_row_def dead_letter_row_def attempt_row_def
      reservation_row_def outbox_row_def overlap_lock_row_def scheduler_state_row_def)

lemma refers_rows:
  "refers (map f rs) name (map g ss) key
     \<longleftrightarrow> (\<forall>r \<in> set rs. cell (f r) name = VNull \<or> (\<exists>s \<in> set ss. cell (g s) key = cell (f r) name))"
  by (simp add: refers_def)

lemma references_of_invariant:
  assumes "inv d" "refs_ok d"
  shows "references_hold declared_models (db_tables d)"
proof -
  note i = invD [OF assms(1)]
  have tenant: "\<exists>t \<in> set (tenants d). ten_id t = k" if "k \<in> ten_id ` set (tenants d)" for k
    using that by auto
  have job: "\<exists>j \<in> set (jobs d). job_id j = k" if "k \<in> job_id ` set (jobs d)" for k
    using that by auto
  have jobs: "job_tenant j \<in> ten_id ` set (tenants d)" if "j \<in> set (jobs d)" for j
    using that assms(2) by (auto simp: refs_ok_def)
  have states: "ss_tenant s \<in> ten_id ` set (tenants d)" if "s \<in> set (scheduler_states d)" for s
    using that assms(2) by (auto simp: refs_ok_def)
  have events: "out_job e \<in> job_id ` set (jobs d)" if "e \<in> set (outbox d)" for e
    using that assms(2) by (auto simp: refs_ok_def)
  have lock_t: "k \<in> ten_id ` set (tenants d)" if "l \<in> set (overlap_locks d)" "lock_tenant l = Some k" for l k
    using that assms(2) unfolding refs_ok_def lock_tenants_def by (metis (mono_tags, lifting) image_eqI mem_Collect_eq subsetD)
  have replay: "k \<in> job_id ` set (jobs d)" if "x \<in> set (dead_letters d)" "replayed_job x = Some k" for x k
    using that assms(2) unfolding refs_ok_def replays_def by (metis (mono_tags, lifting) image_eqI mem_Collect_eq subsetD)
  have lock_j: "lock_job l \<in> job_id ` set (jobs d)" if "l \<in> set (overlap_locks d)" for l
    using owners_okD [OF i(6) that] by force
  have atts: "att_job a \<in> job_id ` set (jobs d)" if "a \<in> set (attempts d)" for a
    using that i(7) unfolding attempts_ok_def by force
  have res: "res_job v \<in> job_id ` set (jobs d) \<and> res_tenant v \<in> ten_id ` set (tenants d)"
    if v: "v \<in> set (reservations d)" for v
  proof -
    obtain j where "j \<in> set (jobs d)" "job_id j = res_job v" "job_tenant j = res_tenant v"
      using v i(3) unfolding slots_ok_def by blast
    then show ?thesis using jobs [of j] by (metis image_eqI)
  qed
  have dls: "dl_job x \<in> job_id ` set (jobs d) \<and> dl_tenant x \<in> ten_id ` set (tenants d)"
    if x: "x \<in> set (dead_letters d)" for x
  proof -
    obtain j where "j \<in> set (jobs d)" "job_id j = dl_job x" "job_tenant j = dl_tenant x"
      using x i(9) unfolding dlq_ok_def by blast
    then show ?thesis using jobs [of j] by (metis image_eqI)
  qed
  have opt_t: "k = None \<or> (\<exists>t \<in> set (tenants d). VUuid (ten_id t) = nullable_value VUuid k)"
    if "\<And>x. k = Some x \<Longrightarrow> x \<in> ten_id ` set (tenants d)" for k
    using that by (cases k) force+
  have opt_j: "k = None \<or> (\<exists>j \<in> set (jobs d). VUuid (job_id j) = nullable_value VUuid k)"
    if "\<And>x. k = Some x \<Longrightarrow> x \<in> job_id ` set (jobs d)" for k
    using that by (cases k) force+
  have models: "set declared_models = {Tenant_model, Job_model, DeadLetterJob_model, JobAttempt_model,
      JobExecutionReservation_model, JobOutbox_model, JobOverlapLock_model, TenantSchedulerState_model}"
    by (simp add: declared_models_def)
  show ?thesis
    unfolding references_hold_def models
    using tenant job jobs states events lock_j atts res dls
    by (simp add: declared_keys declared_targets declared_tables db_tables_def refers_rows
        opt_t [OF lock_t] opt_j [OF replay])
qed

text \<open>
  C33. Referential integrity: in every state the system can reach, every foreign key a model
  declares holds in the tables, a NULL or the key of an existing row, when only submissions and
  refreshes for existing tenants commit. So no transaction of the other services is ever refused
  by the check at its end.
\<close>

theorem foreign_keys_hold:
  assumes "reachable commits s"
  shows "references_hold declared_models (db_tables (sys_db s))"
  using references.good_reachable [OF assms] references_of_invariant by blast

theorem foreign_keys_hold_witness:
  "references_hold declared_models (db_tables (sys_db demo)) \<and> length (overlap_locks (sys_db demo)) = 1"
proof -
  have "run_events commits demo_events init_sys = Some demo"
    by (simp add: demo_def demo_events_def run_defs)
  from foreign_keys_hold [OF run_events_reachable [OF this]] show ?thesis
    by (simp add: demo_def demo_events_def run_defs)
qed

end
