(* ===== verification/Serializers.thy ===== *)
theory Serializers
  imports References Http
begin

text \<open>
  \<open>jobs/serializers.py\<close> and \<open>tenants/serializers.py\<close> as declarations: the model and the fields of
  each serializer, and the representation of a row that Django REST framework's
  \<open>ModelSerializer\<close> derives from them, one member per field. The members are kept as values
  of the columns; how JSON spells them (a UUID, a time in ISO 8601) is the framework's. As
  everywhere, \<open>created_at\<close> and \<open>updated_at\<close> are left out.
\<close>

section \<open>The serializers\<close>

text \<open>
  \<open>class Meta\<close>: \<open>model\<close>, \<open>fields\<close>, \<open>read_only_fields\<close> and the fields whose \<open>extra_kwargs\<close> say
  \<open>required: False\<close>. \<open>validators = []\<close> leaves the uniqueness of the key to the submission.
\<close>

record serializer =
  meta_model :: model
  meta_fields :: string
  meta_read_only :: "string list"
  meta_not_required :: "string list"

definition ModelSerializer :: "model \<Rightarrow> serializer" where
  "ModelSerializer m = \<lparr>meta_model = m, meta_fields = ''__all__'', meta_read_only = [],
     meta_not_required = []\<rparr>"

definition JobSerializer :: serializer where
  "JobSerializer = \<lparr>meta_model = Job_model, meta_fields = ''__all__'',
     meta_read_only = [''ready_since'', ''idempotency_key''], meta_not_required = [''available_at'']\<rparr>"

definition JobAttemptSerializer :: serializer where
  "JobAttemptSerializer = ModelSerializer JobAttempt_model"

definition JobExecutionReservationSerializer :: serializer where
  "JobExecutionReservationSerializer = ModelSerializer JobExecutionReservation_model"

definition JobOverlapLockSerializer :: serializer where
  "JobOverlapLockSerializer = ModelSerializer JobOverlapLock_model"

definition JobOutboxSerializer :: serializer where
  "JobOutboxSerializer = ModelSerializer JobOutbox_model"

definition DeadLetterJobSerializer :: serializer where
  "DeadLetterJobSerializer = ModelSerializer DeadLetterJob_model"

definition TenantSchedulerStateSerializer :: serializer where
  "TenantSchedulerStateSerializer = ModelSerializer TenantSchedulerState_model"

definition TenantSerializer :: serializer where
  "TenantSerializer = ModelSerializer Tenant_model"

text \<open>\<open>"__all__"\<close> stands for the fields of the model; the repository uses nothing else.\<close>

definition serializer_fields :: "serializer \<Rightarrow> string list" where
  "serializer_fields s = (if meta_fields s = ''__all__'' then map f_name (given (meta_model s)) else [])"

definition to_representation :: "serializer \<Rightarrow> row \<Rightarrow> row" where
  "to_representation s r = map (\<lambda>n. (n, cell r n)) (serializer_fields s)"

section \<open>Responses\<close>

text \<open>\<open>serializer_class\<close> of the views.\<close>

fun serializer_class :: "view \<Rightarrow> serializer" where
  "serializer_class JobListCreateView = JobSerializer"
| "serializer_class JobDetailView = JobSerializer"
| "serializer_class JobAttemptListView = JobAttemptSerializer"
| "serializer_class JobCancelView = JobSerializer"
| "serializer_class DeadLetterListView = DeadLetterJobSerializer"
| "serializer_class DeadLetterDetailView = DeadLetterJobSerializer"
| "serializer_class DeadLetterReplayView = JobSerializer"
| "serializer_class TenantListCreateView = TenantSerializer"
| "serializer_class TenantDetailView = TenantSerializer"

datatype rendering = Empty | Object row | Array "row list"

definition render :: "serializer \<Rightarrow> body \<Rightarrow> rendering" where
  "render s b = (case b of
       No_Body \<Rightarrow> Empty
     | Jobs_Body js \<Rightarrow> Array (map (to_representation s \<circ> job_row) js)
     | Job_Body j \<Rightarrow> Object (to_representation s (job_row j))
     | Attempts_Body as \<Rightarrow> Array (map (to_representation s \<circ> attempt_row) as)
     | Dead_Letters_Body xs \<Rightarrow> Array (map (to_representation s \<circ> dead_letter_row) xs)
     | Dead_Letter_Body x \<Rightarrow> Object (to_representation s (dead_letter_row x))
     | Tenants_Body ts \<Rightarrow> Array (map (to_representation s \<circ> tenant_row) ts)
     | Tenant_Body t \<Rightarrow> Object (to_representation s (tenant_row t)))"

definition respond ::
  "(string \<Rightarrow> uuid option) \<Rightarrow> request_env \<Rightarrow> http_method \<Rightarrow> string \<Rightarrow> json \<Rightarrow> db
     \<Rightarrow> (rendering \<times> nat) result \<times> db" where
  "respond to_uuid env m path data d =
     (case (resolve to_uuid path, handle_request to_uuid env m path data d) of
        (None, (_, d1)) \<Rightarrow> (Inr (Empty, 404), d1)
      | (Some (v, kwargs), (Inl e, d1)) \<Rightarrow> (Inl e, d1)
      | (Some (v, kwargs), (Inr (b, code), d1)) \<Rightarrow> (Inr (render (serializer_class v) b, code), d1))"

section \<open>A representation shows the whole row\<close>

lemma json_value_inject [simp]: "json_value v = json_value w \<longleftrightarrow> v = w"
  by (auto simp: json_value_def)

lemma nat_value_inject [simp]: "nat_value m = nat_value n \<longleftrightarrow> m = n"
  by (simp add: nat_value_def)

lemma nullable_value_inject:
  assumes "\<And>x y. f x = f y \<longleftrightarrow> x = y" "\<And>x. f x \<noteq> VNull"
  shows "nullable_value f v = nullable_value f w \<longleftrightarrow> v = w"
proof -
  have "VNull \<noteq> f x" for x using assms(2) [of x] by simp
  then show ?thesis using assms by (cases v; cases w) simp_all
qed

lemma choice_inject [simp]:
  "JobStatus_value js = JobStatus_value js' \<longleftrightarrow> js = js'"
  "AttemptStatus_value as = AttemptStatus_value as' \<longleftrightarrow> as = as'"
  "FailureType_value ft = FailureType_value ft' \<longleftrightarrow> ft = ft'"
  "DeadLetterReason_value dr = DeadLetterReason_value dr' \<longleftrightarrow> dr = dr'"
  "DeadLetterStatus_value ds = DeadLetterStatus_value ds' \<longleftrightarrow> ds = ds'"
  "OutboxEventType_value oe = OutboxEventType_value oe' \<longleftrightarrow> oe = oe'"
  "OutboxStatus_value os = OutboxStatus_value os' \<longleftrightarrow> os = os'"
  by - ((cases js; cases js'; simp), (cases as; cases as'; simp), (cases ft; cases ft'; simp),
      (cases dr; cases dr'; simp), (cases ds; cases ds'; simp), (cases oe; cases oe'; simp),
      (cases os; cases os'; simp))

lemma nullable_injects [simp]:
  "nullable_value VText v = nullable_value VText w \<longleftrightarrow> v = w"
  "nullable_value VTime t = nullable_value VTime u \<longleftrightarrow> t = u"
  "nullable_value VUuid i = nullable_value VUuid k \<longleftrightarrow> i = k"
  "nullable_value VInt m = nullable_value VInt n \<longleftrightarrow> m = n"
  "nullable_value nat_value a = nullable_value nat_value b \<longleftrightarrow> a = b"
  "nullable_value (VText \<circ> FailureType_value) f = nullable_value (VText \<circ> FailureType_value) g \<longleftrightarrow> f = g"
  by (rule nullable_value_inject; simp add: nat_value_def)+

lemma rows_inject:
  "job_row j = job_row j' \<longleftrightarrow> j = j'"
  "attempt_row a = attempt_row a' \<longleftrightarrow> a = a'"
  "reservation_row v = reservation_row v' \<longleftrightarrow> v = v'"
  "overlap_lock_row l = overlap_lock_row l' \<longleftrightarrow> l = l'"
  "outbox_row e = outbox_row e' \<longleftrightarrow> e = e' \<or> e = e'\<lparr>out_created_at := out_created_at e\<rparr>"
  "dead_letter_row x = dead_letter_row x' \<longleftrightarrow> x = x'"
  "scheduler_state_row s = scheduler_state_row s' \<longleftrightarrow> s = s'"
  "tenant_row t = tenant_row t' \<longleftrightarrow> t = t'"
  by - ((cases j; cases j'; auto simp: job_row_def), (cases a; cases a'; auto simp: attempt_row_def),
      (cases v; cases v'; auto simp: reservation_row_def),
      (cases l; cases l'; auto simp: overlap_lock_row_def),
      (cases e; cases e'; auto simp: outbox_row_def),
      (cases x; cases x'; auto simp: dead_letter_row_def),
      (cases s; cases s'; auto simp: scheduler_state_row_def),
      (cases t; cases t'; auto simp: tenant_row_def))

text \<open>The fields of a serializer are, in order, the columns of its rows.\<close>

lemma fields_of_rows:
  "serializer_fields JobSerializer = map fst (job_row j)"
  "serializer_fields JobAttemptSerializer = map fst (attempt_row a)"
  "serializer_fields JobExecutionReservationSerializer = map fst (reservation_row v)"
  "serializer_fields JobOverlapLockSerializer = map fst (overlap_lock_row l)"
  "serializer_fields JobOutboxSerializer = map fst (outbox_row e)"
  "serializer_fields DeadLetterJobSerializer = map fst (dead_letter_row x)"
  "serializer_fields TenantSchedulerStateSerializer = map fst (scheduler_state_row s)"
  "serializer_fields TenantSerializer = map fst (tenant_row t)"
  unfolding job_row_def attempt_row_def reservation_row_def overlap_lock_row_def outbox_row_def
    dead_letter_row_def scheduler_state_row_def tenant_row_def list.map fst_conv
  by code_simp+

lemma cell_member: "distinct (map fst r) \<Longrightarrow> p \<in> set r \<Longrightarrow> cell r (fst p) = snd p"
  by (cases p) (simp add: cell_def)

text \<open>When the serializer lists the columns of a row, the representation is the row.\<close>

lemma representation_row:
  assumes "serializer_fields s = map fst r" "distinct (map fst r)"
  shows "to_representation s r = r"
proof -
  have "map (\<lambda>p. (fst p, cell r (fst p))) r = r"
    by (rule map_idI) (simp add: cell_member [OF assms(2)])
  then show ?thesis by (simp add: to_representation_def assms(1) comp_def)
qed

lemma row_columns_distinct [simp]:
  "distinct (map fst (job_row j))" "distinct (map fst (attempt_row a))"
  "distinct (map fst (reservation_row v))" "distinct (map fst (overlap_lock_row l))"
  "distinct (map fst (outbox_row e))" "distinct (map fst (dead_letter_row x))"
  "distinct (map fst (scheduler_state_row s))" "distinct (map fst (tenant_row t))"
  by (simp_all add: job_row_def attempt_row_def reservation_row_def overlap_lock_row_def outbox_row_def
      dead_letter_row_def scheduler_state_row_def tenant_row_def)

lemmas representations = fields_of_rows [THEN representation_row]

lemma representation_simps [simp]:
  "to_representation JobSerializer (job_row j) = job_row j"
  "to_representation JobAttemptSerializer (attempt_row a) = attempt_row a"
  "to_representation JobExecutionReservationSerializer (reservation_row v) = reservation_row v"
  "to_representation JobOverlapLockSerializer (overlap_lock_row l) = overlap_lock_row l"
  "to_representation JobOutboxSerializer (outbox_row e) = outbox_row e"
  "to_representation DeadLetterJobSerializer (dead_letter_row x) = dead_letter_row x"
  "to_representation TenantSchedulerStateSerializer (scheduler_state_row s) = scheduler_state_row s"
  "to_representation TenantSerializer (tenant_row t) = tenant_row t"
  by (rule representations; simp)+

text \<open>
  The fields a client may set: not the read-only ones, not the keys (\<open>editable=False\<close> in every
  model of the API). The idempotency key is not among them, so the view reads it itself.
\<close>

definition writable_fields :: "serializer \<Rightarrow> string list" where
  "writable_fields s = filter (\<lambda>n. n \<notin> set (meta_read_only s)
     \<and> \<not> (\<exists>f \<in> set (m_fields (meta_model s)). f_name f = n \<and> f_primary f)) (serializer_fields s)"

lemma writable_job_fields:
  "writable_fields JobSerializer = [''tenant'', ''job_type'', ''status'', ''priority'', ''payload'',
     ''result'', ''available_at'', ''attempt_count'', ''last_error_code'', ''last_error_message'',
     ''queued_at'', ''started_at'', ''completed_at'', ''cancelled_at'']"
  by code_simp

end
