(* ===== verification/Responses.thy ===== *)
theory Responses
  imports Requests Serializers
begin

text \<open>
  What a client sees: a request that answers with a job or a tenant shows the row as the
  database holds it afterwards, so the next GET answers the same.
\<close>

section \<open>The answer is the stored row\<close>

lemma create_job_stored:
  assumes "create_job env super header data d = (Inr (j, code), d')"
  shows "j \<in> set (jobs d')"
proof -
  from assms obtain v key created d1 where
    sub: "submit_job (ce_now env) (ce_job_id env) (ce_generated_key env) (submission_of v key) d
      = Inr ((j, created), d1)"
    and rest: "if created then refresh_scheduler_state (ce_refresh_now env) (job_tenant j) d1 = Inr d'
      else d' = d1"
    by (auto simp: create_job_def split: sum.splits if_splits)
  have "j \<in> set (jobs d1)" using sub by (cases rule: submit_job_cases) auto
  then show ?thesis using rest refresh_frame(2) by (cases created) auto
qed

lemma cancel_view_stored:
  assumes "keyed d" "cancel_view now pk d = (Inr (j, code), d')"
  shows "j \<in> set (jobs d')"
proof -
  have c: "cancel_job now pk d = Inr (j, d')" using assms(2) by (auto simp: cancel_view_def split: sum.splits)
  then obtain job where get: "get_job pk d = Inr job" by (auto simp: cancel_job_def result_bind_eq_Inr)
  then have job: "job \<in> set (jobs d)" "job_id job = pk" using assms(1) by simp_all
  have "j = cancel_row now job" "jobs d' = rows_update (\<lambda>r. job_id r = pk) (cancel_row now) (jobs d)"
    using c unfolding cancel_job_eq [OF keyedD(1) [OF assms(1)] keyedD(3) [OF assms(1)] get]
    by (auto split: if_splits)
  then show ?thesis using job by (auto simp: set_rows_update)
qed

lemma replay_view_stored:
  assumes "replay_view now rnow i g pk d = (Inr (j, code), d')"
  shows "j \<in> set (jobs d')"
proof -
  have "replay_dead_letter now rnow i g pk d = Inr (j, d')"
    using assms by (auto simp: replay_view_def split: sum.splits)
  then show ?thesis by (rule replay_dead_letter_Inr) simp
qed

lemma job_response_body:
  "job_response r = (Inr (b, code), d') \<Longrightarrow> \<exists>j. b = Job_Body j \<and> r = (Inr (j, code), d')"
  by (auto simp: job_response_def split: prod.splits sum.splits)

lemma found_body: "found f r = (b, code) \<Longrightarrow> b = No_Body \<or> (\<exists>x. b = f x \<and> r = (Some x, code))"
  by (auto simp: found_def split: prod.splits option.splits)

lemma retrieve_Some: "retrieve r = (Some x, code) \<longleftrightarrow> r = Inr x \<and> code = 200"
  by (auto simp: retrieve_def split: sum.splits)

text \<open>The resource whose object a view answers, and the row behind the answer.\<close>

fun resource :: "view \<Rightarrow> string" where
  "resource DeadLetterListView = ''dead-letters/''"
| "resource DeadLetterDetailView = ''dead-letters/''"
| "resource TenantListCreateView = ''tenants/''"
| "resource TenantDetailView = ''tenants/''"
| "resource _ = ''jobs/''"

definition shows_row :: "view \<Rightarrow> db \<Rightarrow> body \<Rightarrow> bool" where
  "shows_row v d b \<longleftrightarrow> (case b of
       Job_Body j \<Rightarrow> resource v = ''jobs/'' \<and> v \<noteq> JobAttemptListView \<and> j \<in> set (jobs d)
     | Dead_Letter_Body x \<Rightarrow> resource v = ''dead-letters/'' \<and> v \<noteq> DeadLetterReplayView \<and> x \<in> set (dead_letters d)
     | Tenant_Body t \<Rightarrow> resource v = ''tenants/'' \<and> t \<in> set (tenants d)
     | _ \<Rightarrow> True)"

lemma shows_row_simps [simp]:
  "shows_row v d No_Body" "shows_row v d (Jobs_Body js)" "shows_row v d (Attempts_Body as)"
  "shows_row v d (Dead_Letters_Body xs)" "shows_row v d (Tenants_Body ts)"
  by (simp_all add: shows_row_def)

lemma read_view_shows:
  assumes "read_view v kwargs d = Inr (b, code)"
  shows "shows_row v d b"
  using assms
  by (cases v; auto simp: read_view_def result_bind_eq_Inr job_detail_def dead_letter_detail_def
      tenant_detail_def retrieve_Some get_defs shows_row_def dest!: found_body row_get_Inr_D)

lemma update_tenant_stored: "update_tenant pk inp d = Inr (t, d') \<Longrightarrow> t \<in> set (tenants d')"
  by (erule update_tenant_Inr) (force simp: set_rows_update get_tenant_def dest: row_get_Inr_D)

lemma tenant_answers:
  "tenant_create env data d = (Inr (b, code), d') \<Longrightarrow> \<exists>t. b = Tenant_Body t \<and> t \<in> set (tenants d')"
  "tenant_update env partial pk data d = (Inr (b, code), d') \<Longrightarrow>
     b = No_Body \<or> (\<exists>t. b = Tenant_Body t \<and> t \<in> set (tenants d'))"
  by (auto simp: tenant_create_def tenant_update_def result_bind_eq_Inr dest!: create_tenant_Inr(1)
      dest: update_tenant_stored split: sum.splits if_splits prod.splits)

lemma write_view_shows:
  assumes "keyed d" "write_view env m v kwargs data d = (Inr (b, code), d')"
  shows "shows_row v d' b"
  using assms
  by (cases v; auto simp: write_view_def shows_row_def split: sum.splits
      dest!: job_response_body tenant_answers
      dest: create_job_stored cancel_view_stored [OF assms(1)] replay_view_stored)

lemma handle_shows:
  assumes "keyed d" "handle_request to_uuid env m path data d = (Inr (b, code), d')"
    and "resolve to_uuid path = Some (v, kwargs)"
  shows "shows_row v d' b"
  using assms read_view_shows write_view_shows [OF assms(1)]
  by (auto simp: handle_request_def split: if_splits)

text \<open>The rendered object and the GET of a row's resource.\<close>

lemma render_row:
  assumes "shows_row v d b" "render (serializer_class v) b = Object r"
  obtains (job) j where "j \<in> set (jobs d)" "r = job_row j" "resource v = ''jobs/''"
    | (dead_letter) x where "x \<in> set (dead_letters d)" "r = dead_letter_row x" "resource v = ''dead-letters/''"
    | (tenant) t where "t \<in> set (tenants d)" "r = tenant_row t" "resource v = ''tenants/''"
  using assms by (cases v; cases b; auto simp: shows_row_def render_def)

lemma row_ids:
  "cell (job_row j) ''id'' = VUuid (job_id j)" "cell (dead_letter_row x) ''id'' = VUuid (dl_id x)"
  "cell (tenant_row t) ''id'' = VUuid (ten_id t)"
  by (simp_all add: cell_def job_row_def dead_letter_row_def tenant_row_def)

lemma get_row:
  assumes "keyed d" "to_uuid s = Some k" "CHR ''/'' \<notin> set s"
  shows "j \<in> set (jobs d) \<Longrightarrow> job_id j = k \<Longrightarrow>
      respond to_uuid env GET (''jobs/'' @ s @ ''/'') data d = (Inr (Object (job_row j), 200), d)"
    "x \<in> set (dead_letters d) \<Longrightarrow> dl_id x = k \<Longrightarrow>
      respond to_uuid env GET (''dead-letters/'' @ s @ ''/'') data d = (Inr (Object (dead_letter_row x), 200), d)"
    "t \<in> set (tenants d) \<Longrightarrow> ten_id t = k \<Longrightarrow>
      respond to_uuid env GET (''tenants/'' @ s @ ''/'') data d = (Inr (Object (tenant_row t), 200), d)"
proof -
  note routes = endpoints_resolve [where to_uuid = to_uuid and s = s and k = k and path = "[]", OF assms(2,3)]
  have rows: "j \<in> set (jobs d) \<Longrightarrow> job_id j = k \<Longrightarrow> get_job k d = Inr j"
    "x \<in> set (dead_letters d) \<Longrightarrow> dl_id x = k \<Longrightarrow> get_dead_letter k d = Inr x"
    "t \<in> set (tenants d) \<Longrightarrow> ten_id t = k \<Longrightarrow> get_tenant k d = Inr t"
    using assms(1) by (simp_all add: get_dead_letter_def row_get_distinct keyedD)
  show "j \<in> set (jobs d) \<Longrightarrow> job_id j = k \<Longrightarrow>
      respond to_uuid env GET (''jobs/'' @ s @ ''/'') data d = (Inr (Object (job_row j), 200), d)"
    using routes rows by (simp add: respond_def handle_request_def read_view_def kwarg_def
        job_detail_def found_def retrieve_def render_def)
  show "x \<in> set (dead_letters d) \<Longrightarrow> dl_id x = k \<Longrightarrow>
      respond to_uuid env GET (''dead-letters/'' @ s @ ''/'') data d = (Inr (Object (dead_letter_row x), 200), d)"
    using routes rows by (simp add: respond_def handle_request_def read_view_def kwarg_def
        dead_letter_detail_def found_def retrieve_def render_def)
  show "t \<in> set (tenants d) \<Longrightarrow> ten_id t = k \<Longrightarrow>
      respond to_uuid env GET (''tenants/'' @ s @ ''/'') data d = (Inr (Object (tenant_row t), 200), d)"
    using routes rows by (simp add: respond_def handle_request_def read_view_def kwarg_def
        tenant_detail_def found_def retrieve_def render_def)
qed

text \<open>
  C34. Read your writes: the object any request answers, of whatever method, is the one a GET of
  its identifier answers next, field by field, whichever view wrote it; and its members are all
  the columns of a row, so two different jobs, dead letters or tenants are never shown alike.
\<close>

theorem read_your_writes:
  assumes "inv d" "respond to_uuid env m path data d = (Inr (Object r, code), d')"
    and "resolve to_uuid path = Some (v, kwargs)" "cell r ''id'' = VUuid k"
    and "to_uuid s = Some k" "CHR ''/'' \<notin> set s"
  shows "respond to_uuid env' GET (resource v @ s @ ''/'') data' d' = (Inr (Object r, 200), d')
    \<and> inj (to_representation JobSerializer \<circ> job_row)
    \<and> inj (to_representation DeadLetterJobSerializer \<circ> dead_letter_row)
    \<and> inj (to_representation TenantSerializer \<circ> tenant_row)"
proof (intro conjI)
  obtain b where b: "handle_request to_uuid env m path data d = (Inr (b, code), d')"
    "render (serializer_class v) b = Object r"
    using assms(2,3) by (auto simp: respond_def split: prod.splits sum.splits)
  have keyed: "keyed d'" by (rule invD(1) [OF handle_inv [OF assms(1) b(1)]])
  note get = get_row [where to_uuid = to_uuid, OF keyed assms(5,6)]
  show "respond to_uuid env' GET (resource v @ s @ ''/'') data' d' = (Inr (Object r, 200), d')"
    using handle_shows [OF invD(1) [OF assms(1)] b(1) assms(3)] b(2)
    by (cases rule: render_row) (use assms(4) row_ids get in auto)
qed (simp_all add: inj_def rows_inject)

theorem read_your_writes_witness:
  "\<exists>r d'. respond (\<lambda>s. if s = ''2'' then Some 2 else None) tenant_request POST ''tenants/'' JNull empty_db
       = (Inr (Object r, 201), d')
     \<and> respond (\<lambda>s. if s = ''2'' then Some 2 else None) tenant_request GET ''tenants/2/'' JNull d'
       = (Inr (Object r, 200), d')"
proof -
  let ?u = "\<lambda>s. if s = ''2'' then Some 2 else None"
  have route: "resolve ?u ''tenants/'' = Some (TenantListCreateView, [])"
    by (simp add: resolve_compiled compiled_def)
  obtain r d' where r: "respond ?u tenant_request POST ''tenants/'' JNull empty_db = (Inr (Object r, 201), d')"
    "cell r ''id'' = VUuid 2"
    by (simp add: respond_def handle_request_def route write_view_def tenant_create_def render_def
        tenant_request_def create_tenant_def apply_tenant_input_def empty_db_def Let_def smallint_max_def row_ids)
  show ?thesis
    using read_your_writes [OF inv_init r(1) route r(2), of "''2''" tenant_request JNull] r(1) by auto
qed

end
