(* ===== verification/Platform.thy ===== *)
theory Platform
  imports Requests Worker
begin

text \<open>
  The running platform: the tasks Celery finds in \<open>jobs/tasks.py\<close>, the beat schedule of
  \<open>config/settings.py\<close> that names them, and any sequence of requests, beat runs and delivered
  messages. Celery's clock, which decides when an entry is due, is the order of the sequence.
\<close>

section \<open>Tasks by name\<close>

datatype task = Execute_Job | Process_Retries | Publish_Outbox | Dispatch_Jobs | Reconcile_Zombies

definition registered_tasks :: "(string \<times> task) list" where
  "registered_tasks =
     [(''jobs.tasks.execute_job'', Execute_Job),
      (''jobs.tasks.process_retries'', Process_Retries),
      (''jobs.tasks.publish_outbox'', Publish_Outbox),
      (''jobs.tasks.dispatch_jobs'', Dispatch_Jobs),
      (''jobs.tasks.reconcile_zombies'', Reconcile_Zombies)]"

text \<open>What the run of a task draws from its surroundings.\<close>

record task_env =
  te_execute :: execute_env
  te_now :: time
  te_locked :: "uuid \<Rightarrow> bool"
  te_refresh_now :: "uuid \<Rightarrow> time"
  te_event_now :: "uuid \<Rightarrow> time"
  te_delay :: "uuid \<Rightarrow> exn option"
  te_str_exc :: "exn \<Rightarrow> string"
  te_dispatch :: "uuid \<Rightarrow> dispatch_env"
  te_reconcile :: reconcile_env

definition on_db :: "(db \<Rightarrow> unit result \<times> db) \<Rightarrow> db \<times> broker \<Rightarrow> unit result \<times> (db \<times> broker)" where
  "on_db f s = (fst (f (fst s)), (snd (f (fst s)), snd s))"

text \<open>A task called with arguments it does not take raises a TypeError.\<close>

fun run_task :: "task_env \<Rightarrow> task \<Rightarrow> uuid list \<Rightarrow> db \<times> broker \<Rightarrow> unit result \<times> (db \<times> broker)" where
  "run_task env Execute_Job [jid] s = on_db (execute_job (te_execute env) simulated_registry jid) s"
| "run_task env Process_Retries [] s =
     on_db (\<lambda>d. case process_retries (te_now env) (te_locked env) (te_refresh_now env) d of
                  Inl e \<Rightarrow> (Inl e, d) | Inr (n, d1) \<Rightarrow> (Inr (), d1)) s"
| "run_task env Publish_Outbox [] s =
     publish_outbox (te_now env) (te_event_now env) (te_delay env) (te_str_exc env) s"
| "run_task env Dispatch_Jobs [] s = on_db (dispatch_jobs (te_dispatch env)) s"
| "run_task env Reconcile_Zombies [] s = on_db (reconcile_zombies (te_reconcile env)) s"
| "run_task env _ _ s = (Inl TypeError, s)"

definition call_task :: "task_env \<Rightarrow> string \<Rightarrow> uuid list \<Rightarrow> db \<times> broker \<Rightarrow> unit result \<times> (db \<times> broker)" where
  "call_task env name args s =
     (case map_of registered_tasks name of
        None \<Rightarrow> (Inl (OtherError ''NotRegistered''), s)
      | Some t \<Rightarrow> run_task env t args s)"

section \<open>The beat schedule\<close>

text \<open>The entries with the task they name and their period.\<close>

definition CELERY_BEAT_SCHEDULE :: "(string \<times> string \<times> time) list" where
  "CELERY_BEAT_SCHEDULE =
     [(''promote-retries'', ''jobs.tasks.process_retries'', seconds 5),
      (''dispatch-jobs'', ''jobs.tasks.dispatch_jobs'', seconds 1),
      (''publish-outbox'', ''jobs.tasks.publish_outbox'', seconds 1),
      (''reconcile-zombies'', ''jobs.tasks.reconcile_zombies'', seconds 10)]"

definition beat :: "task_env \<Rightarrow> string \<Rightarrow> db \<times> broker \<Rightarrow> unit result \<times> (db \<times> broker)" where
  "beat env entry s =
     (case map_of CELERY_BEAT_SCHEDULE entry of
        None \<Rightarrow> (Inl (OtherError ''KeyError''), s)
      | Some (name, period) \<Rightarrow> call_task env name [] s)"

text \<open>Every entry names a registered task that takes no argument, and every such task has an entry.\<close>

lemma beat_simps [simp]:
  "beat env ''promote-retries'' s = run_task env Process_Retries [] s"
  "beat env ''dispatch-jobs'' s = run_task env Dispatch_Jobs [] s"
  "beat env ''publish-outbox'' s = run_task env Publish_Outbox [] s"
  "beat env ''reconcile-zombies'' s = run_task env Reconcile_Zombies [] s"
  by (simp_all add: beat_def CELERY_BEAT_SCHEDULE_def call_task_def registered_tasks_def)

lemma scheduled_entries: "fst ` set CELERY_BEAT_SCHEDULE
    = {''promote-retries'', ''dispatch-jobs'', ''publish-outbox'', ''reconcile-zombies''}"
  by (simp add: CELERY_BEAT_SCHEDULE_def)

lemma beat_unknown:
  "entry \<notin> fst ` set CELERY_BEAT_SCHEDULE \<Longrightarrow> beat env entry s = (Inl (OtherError ''KeyError''), s)"
  by (auto simp: beat_def split: option.splits dest: map_of_SomeD intro: rev_image_eqI)

lemma scheduled_tasks:
  "mset (map (\<lambda>(entry, name, period). map_of registered_tasks name) CELERY_BEAT_SCHEDULE)
     = {#Some Process_Retries, Some Publish_Outbox, Some Dispatch_Jobs, Some Reconcile_Zombies#}"
  by (simp add: CELERY_BEAT_SCHEDULE_def registered_tasks_def)

section \<open>Runs of the platform\<close>

text \<open>
  A delivery takes a message the broker holds, which may be delivered again; a due entry of the
  schedule and a request may come at any time.
\<close>

datatype activity =
    Http_Request request_env http_method string json
  | Beat string task_env
  | Deliver uuid task_env

fun act :: "(string \<Rightarrow> uuid option) \<Rightarrow> activity \<Rightarrow> db \<times> broker \<Rightarrow> db \<times> broker" where
  "act to_uuid (Http_Request env m path data) s =
     (snd (handle_request to_uuid env m path data (fst s)), snd s)"
| "act to_uuid (Beat entry env) s = snd (beat env entry s)"
| "act to_uuid (Deliver jid env) s =
     (if jid \<in> set (snd s) then snd (call_task env ''jobs.tasks.execute_job'' [jid] s) else s)"

fun reaps :: "activity \<Rightarrow> bool" where
  "reaps (Beat entry env) \<longleftrightarrow> entry = ''reconcile-zombies''"
| "reaps _ \<longleftrightarrow> False"

section \<open>The platform as the system\<close>

definition runs :: "(event \<Rightarrow> sys \<Rightarrow> bool) \<Rightarrow> sys \<Rightarrow> db \<times> broker \<Rightarrow> bool" where
  "runs G s x \<longleftrightarrow> (\<exists>es s'. run_events G es s = Some s' \<and> (sys_db s', sys_broker s') = x)"

lemma runs_refl: "runs G s (sys_db s, sys_broker s)"
  unfolding runs_def by (intro exI [of _ "[]"]) simp

lemma runs_trans:
  assumes "runs G s x" "\<And>s'. (sys_db s', sys_broker s') = x \<Longrightarrow> runs G s' y"
  shows "runs G s y"
proof -
  obtain es s1 where 1: "run_events G es s = Some s1" "(sys_db s1, sys_broker s1) = x"
    using assms(1) by (auto simp: runs_def)
  obtain fs s2 where 2: "run_events G fs s1 = Some s2" "(sys_db s2, sys_broker s2) = y"
    using assms(2) [OF 1(2)] by (auto simp: runs_def)
  have "run_events G (es @ fs) s = Some s2" using 1(1) 2(1) by (simp add: run_events_append)
  with 2(2) show ?thesis unfolding runs_def by blast
qed

lemma runs_simulates: "simulates G s d \<Longrightarrow> runs G s (d, sys_broker s)"
  by (force simp: simulates_def runs_def)

lemma runs_mono: "(\<And>e s. G e s \<Longrightarrow> H e s) \<Longrightarrow> runs G s x \<Longrightarrow> runs H s x"
  unfolding runs_def using run_events_mono [of G H] by blast

lemma runs_steady: "runs steady s x \<Longrightarrow> runs timely s x"
  by (rule runs_mono [of steady]) (simp_all add: steady_def)

lemma runs_any: "runs G s x \<Longrightarrow> runs any_event s x"
  by (rule runs_mono [of G]) (simp_all add: any_event_def)

lemma publish_runs: "runs steady s (snd (publish_outbox now enow delay str_exc (sys_db s, sys_broker s)))"
proof -
  obtain es where "run_events steady es s = Some (s
      \<lparr>sys_db := fst (snd (publish_outbox now enow delay str_exc (sys_db s, sys_broker s))),
       sys_broker := snd (snd (publish_outbox now enow delay str_exc (sys_db s, sys_broker s)))\<rparr>)"
    using tasks_refine by blast
  then show ?thesis unfolding runs_def by (intro exI conjI) auto
qed

lemma retries_run:
  "runs steady s (snd (on_db (\<lambda>d. case process_retries now locked rnow d of
     Inl e \<Rightarrow> (Inl e, d) | Inr (n, d1) \<Rightarrow> (Inr (), d1)) (sys_db s, sys_broker s)))"
proof -
  have "simulates steady s (case process_retries now locked rnow (sys_db s) of
      Inl e \<Rightarrow> sys_db s | Inr (n, d) \<Rightarrow> d)"
    using tasks_refine by blast
  from runs_simulates [OF this] show ?thesis by (auto simp: on_db_def split: sum.splits prod.splits)
qed

lemma dispatch_runs: "runs steady s (snd (on_db (dispatch_jobs envs) (sys_db s, sys_broker s)))"
  using tasks_refine [of s envs] by (auto simp: on_db_def intro: runs_simulates)

lemma reconcile_runs: "runs any_event s (snd (on_db (reconcile_zombies env) (sys_db s, sys_broker s)))"
  by (simp add: on_db_def runs_simulates reconcile_simulates)

lemma execute_runs:
  assumes "jid \<in> set (sys_broker s)"
  shows "runs steady s (snd (on_db (execute_job env simulated_registry jid) (sys_db s, sys_broker s)))"
  using simulated.execute_run [OF assms, of env] by (auto simp: on_db_def runs_def execute_job_def)

lemma request_runs:
  "runs timely s (snd (handle_request to_uuid env m path data (sys_db s)), sys_broker s)"
  by (rule runs_simulates [OF handle_simulates])

lemma one_of_four:
  "x \<in> {a, b, c, d} \<Longrightarrow> (x = a \<Longrightarrow> P) \<Longrightarrow> (x = b \<Longrightarrow> P) \<Longrightarrow> (x = c \<Longrightarrow> P) \<Longrightarrow> (x = d \<Longrightarrow> P) \<Longrightarrow> P"
  by blast

lemma beat_runs:
  "runs (if entry = ''reconcile-zombies'' then any_event else timely) s
     (snd (beat env entry (sys_db s, sys_broker s)))"
proof (cases "entry \<in> fst ` set CELERY_BEAT_SCHEDULE")
  case True
  from this [unfolded scheduled_entries] consider "entry = ''promote-retries''" | "entry = ''dispatch-jobs''" | "entry = ''publish-outbox''"
    | "entry = ''reconcile-zombies''"
    by (rule one_of_four)
  then show ?thesis
    by cases (simp_all add: runs_steady retries_run dispatch_runs publish_runs reconcile_runs)
next
  case False
  then show ?thesis by (simp add: beat_unknown runs_refl)
qed

lemma act_runs:
  "runs (if reaps a then any_event else timely) s (act to_uuid a (sys_db s, sys_broker s))"
proof (cases a)
  case (Deliver jid env)
  then show ?thesis
    using runs_steady [OF execute_runs, of jid s "te_execute env"]
    by (simp add: runs_refl call_task_def registered_tasks_def)
qed (use request_runs beat_runs in auto)

lemma acts_run:
  assumes "\<And>a (s :: sys). a \<in> set as \<Longrightarrow> runs G s (act to_uuid a (sys_db s, sys_broker s))"
  shows "runs G s (fold (act to_uuid) as (sys_db s, sys_broker s))"
  using assms
proof (induction as arbitrary: s)
  case Nil
  show ?case by (simp add: runs_refl)
next
  case (Cons a as)
  show ?case
  proof (rule runs_trans)
    show "runs G s (act to_uuid a (sys_db s, sys_broker s))" using Cons.prems by simp
  next
    fix s' :: sys assume "(sys_db s', sys_broker s') = act to_uuid a (sys_db s, sys_broker s)"
    then show "runs G s' (fold (act to_uuid) (a # as) (sys_db s, sys_broker s))"
      using Cons.IH [of s'] Cons.prems by simp
  qed
qed

text \<open>
  C31. The platform implements the system. Whatever requests arrive, whatever entries of the beat
  schedule come due and whatever messages of the broker are delivered, one after the other in any
  order and number and wherever an exception cuts one short, the database and the broker are those of a sequence of the
  system's events, each one transaction; and while the schedule does not run the reaper, they
  are those of a timely run. So every property of the reachable states is one of the platform.
\<close>

theorem platform_refines:
  "\<exists>es s'. run_events (if \<exists>a \<in> set as. reaps a then any_event else timely) es s = Some s'
     \<and> (sys_db s', sys_broker s') = fold (act to_uuid) as (sys_db s, sys_broker s)"
proof -
  have "runs (if \<exists>a \<in> set as. reaps a then any_event else timely) s
      (act to_uuid a (sys_db s, sys_broker s))" if "a \<in> set as" for a and s :: sys
  proof (cases "\<exists>a \<in> set as. reaps a")
    case True
    then show ?thesis by (simp add: runs_any [OF act_runs])
  next
    case False
    then show ?thesis using that act_runs [of a s to_uuid] by auto
  qed
  from acts_run [of as, OF this] show ?thesis unfolding runs_def .
qed

end
