(* ===== verification/Settings.thy ===== *)
theory Settings
  imports Platform
begin

text \<open>
  \<open>config/settings.py\<close> as a function of the process's environment, and the entry points that
  choose it: \<open>manage.py\<close>, \<open>config/celery.py\<close>, \<open>config/wsgi.py\<close> and \<open>config/asgi.py\<close>. The lists
  that only name parts of Django (middleware, templates, password validators) are left out.
\<close>

section \<open>Environment variables\<close>

type_synonym environ = "(string \<times> string) list"

definition getenv :: "environ \<Rightarrow> string \<Rightarrow> string \<Rightarrow> string" where
  "getenv env k dflt = (case map_of env k of None \<Rightarrow> dflt | Some v \<Rightarrow> v)"

text \<open>\<open>os.environ.setdefault\<close>.\<close>

definition setdefault :: "string \<Rightarrow> string \<Rightarrow> environ \<Rightarrow> environ" where
  "setdefault k v env = (if map_of env k = None then (k, v) # env else env)"

lemma map_of_setdefault:
  "map_of (setdefault k v env) i = (if i = k then Some (getenv env k v) else map_of env i)"
  by (auto simp: setdefault_def getenv_def split: option.splits)

lemma setdefault_twice: "setdefault k w (setdefault k v env) = setdefault k v env"
  by (simp add: setdefault_def)

text \<open>\<open>str.split\<close> with a separator of one character.\<close>

fun split_on :: "char \<Rightarrow> string \<Rightarrow> string list" where
  "split_on sep [] = [[]]"
| "split_on sep (c # cs) =
     (if c = sep then [] # split_on sep cs
      else case split_on sep cs of [] \<Rightarrow> [[c]] | p # ps \<Rightarrow> (c # p) # ps)"

lemma split_on_nonempty [simp]: "split_on sep s \<noteq> []"
  by (induction s) (auto split: list.splits)

fun join :: "char \<Rightarrow> string list \<Rightarrow> string" where
  "join sep [] = []"
| "join sep [p] = p"
| "join sep (p # q # ps) = p @ sep # join sep (q # ps)"

lemma join_Cons: "ps \<noteq> [] \<Longrightarrow> join sep ((c # p) # ps) = c # join sep (p # ps)"
  by (cases ps) simp_all

lemma join_split: "join sep (split_on sep s) = s"
proof (induction s)
  case (Cons c cs)
  obtain p ps where ps: "split_on sep cs = p # ps" by (cases "split_on sep cs") simp_all
  show ?case using Cons ps by (cases ps) auto
qed simp

lemma split_no_sep: "p \<in> set (split_on sep s) \<Longrightarrow> sep \<notin> set p"
proof (induction s arbitrary: p)
  case (Cons c cs)
  obtain q qs where qs: "split_on sep cs = q # qs" by (cases "split_on sep cs") simp_all
  show ?case using Cons qs by (auto split: if_splits)
qed simp

section \<open>The settings\<close>

definition SECRET_KEY :: "environ \<Rightarrow> string" where
  "SECRET_KEY env =
     getenv env ''SECRET_KEY'' ''django-insecure-ceo42sheovlcyr=pcarm47!rassiyyt7%g@+h#snj@0w975y_h''"

definition DEBUG :: "environ \<Rightarrow> bool" where
  "DEBUG env \<longleftrightarrow> getenv env ''DJANGO_DEBUG'' ''True'' = ''True''"

definition ALLOWED_HOSTS :: "environ \<Rightarrow> string list" where
  "ALLOWED_HOSTS env =
     split_on (CHR '','') (getenv env ''DJANGO_ALLOWED_HOSTS'' ''127.0.0.1,localhost,testserver'')"

definition INSTALLED_APPS :: "string list" where
  "INSTALLED_APPS =
     [''django.contrib.admin'', ''django.contrib.auth'', ''django.contrib.contenttypes'',
      ''django.contrib.sessions'', ''django.contrib.messages'', ''django.contrib.staticfiles'',
      ''rest_framework'', ''django_celery_results'', ''tenants'', ''jobs'']"

record database =
  db_engine :: string
  db_name :: string
  db_user :: string
  db_password :: string
  db_host :: string
  db_port :: string

definition DATABASES :: "environ \<Rightarrow> database" where
  "DATABASES env =
     \<lparr>db_engine = ''django.db.backends.postgresql'',
      db_name = getenv env ''POSTGRES_DB'' ''mt_jobs_db'',
      db_user = getenv env ''POSTGRES_USER'' ''admin'',
      db_password = getenv env ''POSTGRES_PASSWORD'' ''admin'',
      db_host = getenv env ''POSTGRES_HOST'' ''localhost'',
      db_port = getenv env ''POSTGRES_PORT'' ''5432''\<rparr>"

definition REDIS_URL :: "environ \<Rightarrow> string" where
  "REDIS_URL env = getenv env ''REDIS_URL'' ''redis://127.0.0.1:6379''"

definition CACHES_LOCATION :: "environ \<Rightarrow> string" where
  "CACHES_LOCATION env = REDIS_URL env @ ''/1''"

definition CELERY_BROKER_URL :: "environ \<Rightarrow> string" where
  "CELERY_BROKER_URL env = REDIS_URL env @ ''/0''"

text \<open>The messages and the cache never share a Redis database.\<close>

lemma broker_apart_from_cache: "CELERY_BROKER_URL env \<noteq> CACHES_LOCATION env'"
proof
  assume "CELERY_BROKER_URL env = CACHES_LOCATION env'"
  then have "last (CELERY_BROKER_URL env) = last (CACHES_LOCATION env')" by simp
  then show False by (simp add: CELERY_BROKER_URL_def CACHES_LOCATION_def)
qed

text \<open>The allowed hosts are the comma-separated parts of the variable, an empty one included.\<close>

lemma allowed_hosts:
  "join (CHR '','') (ALLOWED_HOSTS env)
     = getenv env ''DJANGO_ALLOWED_HOSTS'' ''127.0.0.1,localhost,testserver''"
  "h \<in> set (ALLOWED_HOSTS env) \<Longrightarrow> CHR '','' \<notin> set h"
  "map_of env ''DJANGO_ALLOWED_HOSTS'' = Some [] \<Longrightarrow> ALLOWED_HOSTS env = [[]]"
  by (simp_all add: ALLOWED_HOSTS_def join_split split_no_sep getenv_def)

section \<open>The tasks Celery discovers\<close>

text \<open>\<open>app.autodiscover_tasks()\<close> imports the module \<open>tasks\<close> of every installed application.\<close>

definition task_modules :: "string list" where
  "task_modules = map (\<lambda>a. a @ ''.tasks'') INSTALLED_APPS"

text \<open>A shared task is named after its module and its function.\<close>

definition task_module :: "string \<Rightarrow> string" where
  "task_module name = rev (drop 1 (dropWhile (\<lambda>c. c \<noteq> CHR ''.'') (rev name)))"

lemma scheduled_tasks_discovered:
  "list_all (\<lambda>(name, t). task_module name \<in> set task_modules) registered_tasks"
  "list_all (\<lambda>(entry, name, period). task_module name \<in> set task_modules) CELERY_BEAT_SCHEDULE"
  by code_simp+

section \<open>Entry points\<close>

definition SETTINGS :: string where "SETTINGS = ''DJANGO_SETTINGS_MODULE''"

text \<open>\<open>config/celery.py\<close>, which the package imports in \<open>config/__init__.py\<close>.\<close>

definition celery_app :: "environ \<Rightarrow> environ" where
  "celery_app env = setdefault SETTINGS ''config.settings'' env"

text \<open>\<open>manage.py\<close>: \<open>installed\<close> says whether Django can be imported.\<close>

definition manage_main :: "bool \<Rightarrow> environ \<Rightarrow> unit result \<times> environ" where
  "manage_main installed env =
     (let env1 = setdefault SETTINGS ''config.settings'' env
      in if installed then (Inr (), env1) else (Inl (OtherError ''ImportError''), env1))"

text \<open>
  The two servers' modules. Importing a module of the package \<open>config\<close> runs \<open>config/__init__.py\<close>
  first; loaded from within the directory they run alone.
\<close>

definition wsgi :: "environ \<Rightarrow> environ" where
  "wsgi env = setdefault SETTINGS ''settings'' env"

definition asgi :: "environ \<Rightarrow> environ" where
  "asgi env = setdefault SETTINGS ''settings'' env"

text \<open>
  The default of \<open>wsgi.py\<close> and \<open>asgi.py\<close> names no module of the repository, but as modules of
  the package they never use it: every entry point runs on the settings the environment names,
  or on \<open>config.settings\<close>.
\<close>

lemma entry_points_agree:
  "wsgi (celery_app env) = celery_app env"
  "asgi (celery_app env) = celery_app env"
  "snd (manage_main installed env) = celery_app env"
  "map_of (celery_app env) SETTINGS = Some (getenv env SETTINGS ''config.settings'')"
  "k \<noteq> SETTINGS \<Longrightarrow> map_of (celery_app env) k = map_of env k"
  by (simp_all add: wsgi_def asgi_def celery_app_def manage_main_def setdefault_twice map_of_setdefault Let_def)

lemma server_alone: "map_of (wsgi []) SETTINGS = Some ''settings''" "asgi env = wsgi env"
  by (simp_all add: wsgi_def asgi_def map_of_setdefault getenv_def)

end
