(* ===== verification/Lateness.thy ===== *)
theory Lateness
  imports Services Outcomes
begin

text \<open>
  Workers that finish after the reaper has given up on their attempt: \<open>complete_job\<close> and
  \<open>fail_job\<close> do not ask whether the attempt they report on is still the running one.
\<close>

section \<open>Slots\<close>

lemma dispatch_slot:
  assumes "inv d" "dispatch_next env t d = Inr (Some j, d')"
  shows "occupied t (jobs d') = Suc (occupied t (jobs d))"
    "r \<in> set (jobs d) \<Longrightarrow> job_status r \<noteq> WAITING \<Longrightarrow> r \<in> set (jobs d')"
    "attempts d' = attempts d" "tenants d' = tenants d"
proof -
  note v' = inv_dispatch [OF assms]
  show "occupied t (jobs d') = Suc (occupied t (jobs d))" "attempts d' = attempts d"
    "tenants d' = tenants d"
  proof -
    show "attempts d' = attempts d" "tenants d' = tenants d" by (rule dispatch_takes [OF assms], assumption)+
    have "tenant_reservations t (reservations d') = Suc (tenant_reservations t (reservations d))"
      by (rule dispatch_takes [OF assms]) (simp add: tenant_reservations_def rows_count_def)
    then show "occupied t (jobs d') = Suc (occupied t (jobs d))"
      by (simp only: occupied_reservations [OF v'] occupied_reservations [OF assms(1)])
  qed
  assume r: "r \<in> set (jobs d)" "job_status r \<noteq> WAITING"
  show "r \<in> set (jobs d')"
  proof (rule dispatch_takes [OF assms])
    fix job
    assume job: "job \<in> set (jobs d)" "job_status job = WAITING"
      and jobs: "jobs d' = rows_update (\<lambda>r. job_id r = job_id job)
        (\<lambda>r. r\<lparr>job_status := QUEUED, queued_at := Some (de_now env)\<rparr>) (jobs d)"
    have "job_id r \<noteq> job_id job" using only_row [OF assms(1) job(1) r(1)] job(2) r(2) by metis
    then show "r \<in> set (jobs d')" unfolding jobs by (rule mem_upd_other [OF r(1)])
  qed
qed

text \<open>A dispatch needs room, by the counter.\<close>

lemma dispatch_room:
  assumes "strong d" "dispatch_next env t d = Inr (Some j, d')" "tn \<in> set (tenants d)" "ten_id tn = t"
  shows "occupied t (jobs d) < max_concurrent_jobs tn"
proof (rule dispatch_next_Some [OF invD(1) [OF strongD(1) [OF assms(1)]] assms(2)])
  fix state tenant
  assume st: "state \<in> set (scheduler_states d)" "ss_tenant state = t"
    and tenant: "tenant \<in> set (tenants d)" "ten_id tenant = t"
    and lim: "active_reservations state < max_concurrent_jobs tenant"
  have "tenant = tn"
    using same_key [OF keyedD(4) [OF invD(1) [OF strongD(1) [OF assms(1)]]] tenant(1) assms(3)]
      tenant(2) assms(4) by simp
  then show ?thesis
    using st lim strongD(2) [OF assms(1)] by (auto simp: exact_def occupied_reservations [OF strongD(1) [OF assms(1)]])
qed

text \<open>What the reaper does to the job of a running attempt.\<close>

lemma reap_frees:
  assumes "strong d" "reconcile_attempt n n' i (att_id a) d = Inr d1" "d1 \<noteq> d"
    and "a \<in> set (attempts d)" "job \<in> set (jobs d)" "job_id job = att_job a"
  obtains a1 job1 where "a1 \<in> set (attempts d1)" "att_id a1 = att_id a" "job1 \<in> set (jobs d1)"
    "job_id job1 = att_job a1" "job_tenant job1 = job_tenant job" "tenants d1 = tenants d"
    "job_status job1 \<in> {RETRY_WAIT, FAILED_FINAL}"
    "Suc (occupied (job_tenant job) (jobs d1)) = occupied (job_tenant job) (jobs d)"
proof -
  note v = strongD(1) [OF assms(1)]
  note v1 = strongD(1) [OF strong_reap(1) [OF assms(1,2)]]
  show thesis
    using invD(1) [OF v] assms(2)
  proof (cases rule: reconcile_attempt_cases)
    case skipped
    with assms(3) show ?thesis by simp
  next
    case (abandoned b jb)
    have b: "b = a" using same_key [OF keyedD(2) [OF invD(1) [OF v]] abandoned(1) assms(4)] abandoned(2) by simp
    have jb: "jb = job" using only_row [OF v abandoned(4) assms(5)] abandoned(5) assms(6) b by simp
    let ?g = "\<lambda>a::JobAttempt. a\<lparr>att_status := ABANDONED, finished_at := Some n, failure_type := Some INFRASTRUCTURE\<rparr>"
    let ?d = "save_attempt (att_id a) ?g d"
    have kd: "keyed ?d" using invD(1) [OF v] by (subst keyed_save_attempt) simp_all
    have run: "running (job_status job)"
      using running_attempt(1) [OF assms(1,4) _ assms(5,6)] abandoned(3) b by simp
    show ?thesis
    proof (rule fail_row_tx_Inr [OF kd _ abandoned(6) [unfolded jb]])
      fix d2
      assume d1: "d1 = released job (save_job (job_id job) (failed_row n' INFRASTRUCTURE worker_lease_expired) d2)"
        and "d2 = ?d \<and> (retries INFRASTRUCTURE job \<or> (\<exists>x \<in> set (dead_letters ?d). dl_job x = job_id job))
          \<or> (let x = new_dead_letter i job (dead_letter_reason INFRASTRUCTURE) worker_lease_expired
            in d2 = ?d\<lparr>dead_letters := dead_letters ?d @ [x]\<rparr> \<and> \<not> retries INFRASTRUCTURE job
               \<and> (\<forall>y \<in> set (dead_letters ?d). dl_id y \<noteq> i \<and> dl_job y \<noteq> job_id job))"
      then have d2: "jobs d2 = jobs d" "attempts d2 = attempts ?d" "reservations d2 = reservations d"
        "tenants d2 = tenants d" by (auto simp: Let_def)
      have "\<exists>r \<in> set (reservations d). res_job r = job_id job"
        using slot_of [OF v assms(5) running_occupying [OF run]] by blast
      then have "Suc (tenant_reservations (job_tenant job) (rows_delete (\<lambda>r. res_job r = job_id job) (reservations d)))
          = tenant_reservations (job_tenant job) (reservations d)"
        using tenant_reservations_delete [where u = "job_tenant job" and k = "job_id job",
            OF keyedD(8) [OF invD(1) [OF v]] slot_tenant [OF v assms(5)]] by simp
      then have "Suc (tenant_reservations (job_tenant job) (reservations d1))
          = tenant_reservations (job_tenant job) (reservations d)" by (simp add: d1 d2)
      then have "Suc (occupied (job_tenant job) (jobs d1)) = occupied (job_tenant job) (jobs d)"
        by (simp add: occupied_reservations [OF v] occupied_reservations [OF v1])
      moreover have "?g a \<in> set (attempts d1)"
        using assms(4) by (auto simp: d1 d2 set_rows_update)
      moreover have "failed_row n' INFRASTRUCTURE worker_lease_expired job \<in> set (jobs d1)"
        using assms(5) by (auto simp: d1 d2 set_rows_update)
      ultimately show thesis
        by (intro that [of "?g a" "failed_row n' INFRASTRUCTURE worker_lease_expired job"])
          (simp_all add: assms(6) d1 d2)
    qed (simp add: assms(5))
  qed
qed

text \<open>
  A completion of an attempt whose job is in no slot: it takes nothing back but one from the
  counter.
\<close>

lemma late_completion:
  assumes "inv d" "exact (reservations d) (scheduler_states d)"
    and "a \<in> set (attempts d)" "job \<in> set (jobs d)" "job_id job = att_job a"
    and "\<not> occupying (job_status job)"
  obtains d' where "complete_job m (att_id a) v d = Inr d'" "inv d'"
    "occupied t (jobs d') = occupied t (jobs d)"
    "\<And>st. st \<in> set (scheduler_states d') \<Longrightarrow> ss_tenant st = job_tenant job
       \<Longrightarrow> active_reservations st = occupied (job_tenant job) (jobs d') - 1"
proof -
  let ?d' = "released job (save_job (job_id job) (completed_row m v)
    (save_attempt (att_id a) (\<lambda>b. b\<lparr>att_status := ATT_SUCCEEDED, finished_at := Some m\<rparr>) d))"
  have res: "complete_job m (att_id a) v d = Inr ?d'" by (rule complete_total [OF assms(1,3-5)])
  have v: "inv ?d'" by (rule inv_complete [OF assms(1) res])
  have "\<forall>r \<in> set (reservations d). res_job r \<noteq> job_id job"
    using invD(3) [OF assms(1)] assms(4,6) unfolding slots_ok_def by blast
  then have same: "reservations ?d' = reservations d" by (simp add: rows_delete_none)
  then have occ: "occupied u (jobs ?d') = occupied u (jobs d)" for u
    by (simp only: occupied_reservations [OF assms(1)] occupied_reservations [OF v])
  have "active_reservations st = occupied (job_tenant job) (jobs ?d') - 1"
    if "st \<in> set (scheduler_states ?d')" "ss_tenant st = job_tenant job" for st
    using that assms(2) unfolding occ occupied_reservations [OF assms(1)]
    by (auto simp: set_rows_update exact_def)
  with res v occ show thesis by (rule that)
qed

section \<open>Reports of two workers on one job\<close>

lemma completed_job:
  assumes "inv d" "a \<in> set (attempts d)" "job \<in> set (jobs d)" "job_id job = att_job a"
  obtains d' where "complete_job m (att_id a) v d = Inr d'" "inv d'" "completed_row m v job \<in> set (jobs d')"
    "\<And>b. b \<in> set (attempts d) \<Longrightarrow> att_id b \<noteq> att_id a \<Longrightarrow> b \<in> set (attempts d')"
    "dead_letters d' = dead_letters d"
proof -
  let ?d' = "released job (save_job (job_id job) (completed_row m v)
    (save_attempt (att_id a) (\<lambda>b. b\<lparr>att_status := ATT_SUCCEEDED, finished_at := Some m\<rparr>) d))"
  have res: "complete_job m (att_id a) v d = Inr ?d'" by (rule complete_total [OF assms])
  show thesis
    by (rule that [OF res inv_complete [OF assms(1) res]])
      (use assms(3) in \<open>auto simp: set_rows_update\<close>)
qed

lemma retried_job:
  assumes "inv d" "b \<in> set (attempts d)" "job \<in> set (jobs d)" "job_id job = att_job b"
    and "retries ft job" "\<forall>x \<in> set (dead_letters d). dl_id x \<noteq> i"
  obtains d' where "fail_job n i tb lib (att_id b) exc ft d = Inr d'" "inv d'"
    "failed_row n ft (exc_str lib exc) job \<in> set (jobs d')"
proof -
  note res = fail_total [OF assms(1-4,6), of n tb lib exc ft]
  show thesis
    by (rule that [OF res inv_fail [OF assms(1) res]])
      (use assms(3) in \<open>auto simp: failed_db_def set_rows_update\<close>)
qed

text \<open>The batch of retries when every other row is locked.\<close>

lemma promote_one:
  assumes "inv d" "j \<in> set (jobs d)" "job_status j = RETRY_WAIT" "available_at j \<le> now"
  obtains n d' where "promote_ready_retries now (\<lambda>k. k \<noteq> job_id j) rnow (Suc l) d = Inr (n, d')"
    "j\<lparr>job_status := WAITING, ready_since := now\<rparr> \<in> set (jobs d')"
proof -
  let ?js = "due_retries now (\<lambda>k. k \<noteq> job_id j) (Suc l) d"
  let ?f = "filter (\<lambda>x. job_status x = RETRY_WAIT \<and> available_at x \<le> now \<and> job_id x = job_id j) (jobs d)"
  have sorted: "set (sort_key available_at ?f) = set ?f" by simp
  have "j \<in> set ?f" using assms(2-4) by simp
  then obtain x xs where xs: "sort_key available_at ?f = x # xs"
    unfolding sorted [symmetric] by (cases "sort_key available_at ?f") simp_all
  have "x \<in> set ?f" unfolding sorted [symmetric] xs by simp
  then have "x = j" using only_row [OF assms(1,2)] by simp
  then have j: "j \<in> set ?js" using xs by (simp add: due_retries_def)
  obtain d' where "try_each (\<lambda>t. refresh_scheduler_state (rnow t) t) (remdups (map job_tenant ?js))
      (fold (promote now) ?js d) = Inr d'"
    using refresh_all_total [OF inv_promote_fold [OF assms(1)]] by blast
  then have run: "promote_ready_retries now (\<lambda>k. k \<noteq> job_id j) rnow (Suc l) d = Inr (length ?js, d')"
    by (simp add: promote_ready_retries_def Let_def)
  show thesis
    by (rule that [OF run])
      (use promote_ready_retries_Inr(2) [OF run] assms(2) j in \<open>auto simp: set_rows_update\<close>)
qed

end
