(* ===== verification/Moves.thy ===== *)
theory Moves
  imports Scenarios
begin

text \<open>
  The status changes that happen: a change happens when some event, with a timely reaper, makes it
  to some job in some reachable state. They are exactly \<open>moves\<close>: no other change happens, and a
  run of the services shows each of them.
\<close>

definition happens :: "JobStatus \<Rightarrow> JobStatus \<Rightarrow> bool" where
  "happens s t \<longleftrightarrow> s \<noteq> t \<and> (\<exists>x e x' j j'. reachable timely x \<and> timely e x \<and> do_event e x = Some x'
     \<and> j \<in> set (jobs (sys_db x)) \<and> j' \<in> set (jobs (sys_db x')) \<and> job_id j' = job_id j
     \<and> job_status j = s \<and> job_status j' = t)"

lemma happens_moves: "happens s t \<Longrightarrow> moves s t"
proof -
  assume "happens s t"
  then obtain x e x' j j' where x: "reachable timely x" "timely e x" "do_event e x = Some x'"
    and j: "j \<in> set (jobs (sys_db x))" "job_status j = s"
    and j': "j' \<in> set (jobs (sys_db x'))" "job_id j' = job_id j" "job_status j' = t" and ne: "s \<noteq> t"
    unfolding happens_def by blast
  have good: "good x" "good x'"
    using strong.good_reachable [OF x(1)] strong.good_reachable [OF reachable.step [OF x]] by simp_all
  obtain k where k: "k \<in> set (jobs (sys_db x'))" "comes_from moves j k"
    using evolves_event [OF good(1) x(3)] j(1) unfolding evolves_def by blast
  have "inv (sys_db x')" using good(2) by (simp add: good_def strong_def)
  then have "k = j'" using only_row [OF _ k(1) j'(1)] k(2) j'(2) by (simp add: comes_from_def)
  then show ?thesis using k(2) j(2) j'(3) ne by (simp add: comes_from_def)
qed

section \<open>A run for each move\<close>

text \<open>The statuses of the jobs at the end of a run of events, one of which is not admitted or not possible: none.\<close>

definition statuses :: "event list \<Rightarrow> (uuid \<times> JobStatus) list option" where
  "statuses es = map_option (\<lambda>x. map (\<lambda>j. (job_id j, job_status j)) (jobs (sys_db x)))
     (run_events timely es init_sys)"

lemma happensI:
  assumes "statuses es = Some [(i, s)]" "statuses (es @ [e]) = Some [(i, t)]" "s \<noteq> t"
  shows "happens s t"
proof -
  obtain x j where x: "run_events timely es init_sys = Some x" "jobs (sys_db x) = [j]"
    "job_id j = i" "job_status j = s"
    using assms(1) by (auto simp: statuses_def)
  obtain x' j' where x': "run_events timely (es @ [e]) init_sys = Some x'" "jobs (sys_db x') = [j']"
    "job_id j' = i" "job_status j' = t"
    using assms(2) by (auto simp: statuses_def)
  have "timely e x" "do_event e x = Some x'"
    using x(1) x'(1) by (auto simp: run_events_append split: if_splits option.splits)
  then show ?thesis
    using run_events_reachable [OF x(1)] x(2-4) x'(2-4) assms(3) unfolding happens_def
    by (intro conjI exI [of _ x] exI [of _ e] exI [of _ x'] exI [of _ j] exI [of _ j']) simp_all
qed

definition one_job :: "event list" where
  "one_job = [Create_Tenant 1 one_slot, Submit 0 11 ''k11'' (plain_submission (JObj [])), Refresh 1 1]"

definition one_dispatch :: event where
  "one_dispatch = Dispatch (plain_env 2 31) 1"

definition one_claim :: "event list" where
  "one_claim = [Publish 3 (\<lambda>_. None) (\<lambda>_. []) 31, Claim 4 ''host'' 51 11]"

definition one_failure :: "FailureType \<Rightarrow> event" where
  "one_failure ft = Fail 5 91 [] (\<lambda>_. []) 51 (RetryableJobError []) ft"

lemmas one_job_defs = statuses_def one_job_def one_dispatch_def one_claim_def one_failure_def

lemma waiting_run_statuses: "statuses one_job = Some [(11, WAITING)]"
  "statuses (one_job @ [Cancel_Job 2 11]) = Some [(11, CANCELLED)]"
  "statuses (one_job @ [one_dispatch]) = Some [(11, QUEUED)]"
  by (simp_all add: one_job_defs run_defs)

lemma queued_run_statuses:
  "statuses ((one_job @ [one_dispatch]) @ [Cancel_Job 3 11]) = Some [(11, CANCELLED)]"
  "statuses ((one_job @ [one_dispatch]) @ [Recover (timedelta_minutes 10) (timedelta_minutes 10) 11]) = Some [(11, WAITING)]"
  "statuses (((one_job @ [one_dispatch]) @ [hd one_claim])) = Some [(11, QUEUED)]"
  "statuses (((one_job @ [one_dispatch]) @ [hd one_claim]) @ [last one_claim]) = Some [(11, EXECUTING)]"
  by (simp_all add: one_job_defs recover_queued_def run_defs)

abbreviation executing :: "event list" where
  "executing \<equiv> ((one_job @ [one_dispatch]) @ [hd one_claim]) @ [last one_claim]"

lemma executing_run_statuses:
  "statuses (executing @ [Complete 5 51 JNull]) = Some [(11, SUCCEEDED)]"
  "statuses (executing @ [one_failure TRANSIENT]) = Some [(11, RETRY_WAIT)]"
  "statuses (executing @ [one_failure PERMANENT]) = Some [(11, FAILED_FINAL)]"
  "statuses (executing @ [Cancel_Job 5 11]) = Some [(11, CANCEL_REQUESTED)]"
  by (simp_all add: one_job_defs run_defs)

lemma requested_run_statuses:
  "statuses ((executing @ [Cancel_Job 5 11]) @ [Complete 5 51 JNull]) = Some [(11, SUCCEEDED)]"
  "statuses ((executing @ [Cancel_Job 5 11]) @ [one_failure TRANSIENT]) = Some [(11, RETRY_WAIT)]"
  "statuses ((executing @ [Cancel_Job 5 11]) @ [one_failure PERMANENT]) = Some [(11, FAILED_FINAL)]"
  by (simp_all add: one_job_defs run_defs)

lemma retrying_run_statuses:
  "statuses ((executing @ [one_failure TRANSIENT]) @ [Cancel_Job 6 11]) = Some [(11, CANCELLED)]"
  "statuses ((executing @ [one_failure TRANSIENT])
     @ [Promote (timedelta_minutes 1) (\<lambda>_. False) (\<lambda>_. timedelta_minutes 1) 100]) = Some [(11, WAITING)]"
  by (simp_all add: one_job_defs run_defs)

lemmas run_statuses = waiting_run_statuses queued_run_statuses executing_run_statuses
  requested_run_statuses retrying_run_statuses

lemma moves_happen:
  assumes "moves s t"
  shows "happens s t"
proof -
  have w: "happens WAITING CANCELLED" "happens WAITING QUEUED"
    by (rule happensI, rule run_statuses, rule run_statuses, simp)+
  have q: "happens QUEUED CANCELLED" "happens QUEUED WAITING"
    by (rule happensI, rule run_statuses(3), rule run_statuses, simp)+
  have x: "happens QUEUED EXECUTING" by (rule happensI, rule run_statuses(6), rule run_statuses, simp)
  have e: "happens EXECUTING SUCCEEDED" "happens EXECUTING RETRY_WAIT" "happens EXECUTING FAILED_FINAL"
    "happens EXECUTING CANCEL_REQUESTED"
    by (rule happensI, rule run_statuses(7), rule run_statuses, simp)+
  have c: "happens CANCEL_REQUESTED SUCCEEDED" "happens CANCEL_REQUESTED RETRY_WAIT"
    "happens CANCEL_REQUESTED FAILED_FINAL"
    by (rule happensI, rule run_statuses(11), rule run_statuses, simp)+
  have r: "happens RETRY_WAIT CANCELLED" "happens RETRY_WAIT WAITING"
    by (rule happensI, rule run_statuses(9), rule run_statuses, simp)+
  from assms show ?thesis
    by cases (use w q x e c r in \<open>auto simp: running_def\<close>)
qed

lemma happens_iff: "happens s t \<longleftrightarrow> moves s t"
  using happens_moves moves_happen by blast

end
