(* ===== verification/Spec2Isabelle.thy ===== *)
theory Spec2Isabelle
  imports Interface Pipeline Blocking Responses Settings Lateness Moves
begin

text \<open>
  The job orchestrator: a Django application in which the jobs of many tenants are submitted over
  REST, dispatched by priority within a concurrency limit per tenant, executed by Celery workers,
  retried, cancelled, dead-lettered and replayed. This library models its services on the
  database they share and proves what holds in every interleaving of them.

  \<^bold>\<open>The parts and how they interact.\<close> \<open>jobs/views.py\<close> submits a job (\<open>services/submission.py\<close>) and
  refreshes its tenant's scheduler state (\<open>services/scheduler_state.py\<close>). The beat task
  \<open>dispatch_jobs\<close> calls \<open>dispatch_next\<close> (\<open>services/dispatcher.py\<close>) for the tenants with ready work:
  under the lock of the scheduler state it checks the limit, takes the first ready job whose
  resource lock (\<open>services/overlap.py\<close>) is free, reserves a slot and writes an outbox event.
  \<open>publish_outbox\<close> (\<open>services/outbox.py\<close>) sends the events to the broker; a worker that receives the
  message claims the job, runs its handler (\<open>jobs/handlers/\<close>) and reports success or failure
  (\<open>services/execution.py\<close>, \<open>services/failure.py\<close>), which frees the slot and the locks.
  \<open>process_retries\<close> (\<open>services/retry.py\<close>) returns jobs after their delay, \<open>reconcile_zombies\<close>
  (\<open>services/reconciliation.py\<close>) abandons attempts whose lease expired and frees stuck queued jobs,
  \<open>services/cancellation.py\<close> and \<open>services/dead_letter.py\<close> are the operators' requests.

  \<^bold>\<open>Theories and code.\<close>
  \<^item> \<open>Prelude\<close>: exceptions, results, table rows as lists, JSON values.
  \<^item> \<open>Models\<close>: \<open>jobs/models/\<close>, \<open>tenants/models.py\<close>; the database is a record of tables.
  \<^item> \<open>Domain\<close>: \<open>jobs/domain/\<close>.
  \<^item> \<open>SchedulerState\<close>, \<open>Overlap\<close>, \<open>Execution\<close>, \<open>Failure\<close>, \<open>Dispatcher\<close>, \<open>Submission\<close>, \<open>Retry\<close>, \<open>Cancel\<close>,
    \<open>DeadLetter\<close>, \<open>Outbox\<close>, \<open>Reconciliation\<close>: the file of \<open>jobs/services/\<close> with that name (\<open>Cancel\<close> is
    \<open>cancellation.py\<close>, \<open>Retry\<close> is \<open>retry.py\<close>), one definition per function, named as in the code,
    with the lemmas that state its outcomes.
  \<^item> \<open>Handlers\<close>: \<open>jobs/handlers/\<close> and \<open>services/heartbeat.py\<close>; \<open>Tasks\<close>: \<open>jobs/tasks.py\<close>;
    \<open>Api\<close>: \<open>jobs/serializers.py\<close>, \<open>jobs/views.py\<close> and the tenants application; \<open>Http\<close>: the three
    \<open>urls.py\<close>, the resolution of a path and the views' dispatch by method; \<open>Serializers\<close>: the
    serializers' declarations and the representation of a row; \<open>Settings\<close>: \<open>config/settings.py\<close> as
    a function of the environment, and the entry points.
  \<^item> \<open>Schema\<close>: \<open>jobs/migrations/\<close>, \<open>tenants/migrations/\<close> and the declarations of the models;
    \<open>Constraints\<close>: an INSERT into any table of such a schema.
  \<^item> \<open>Invariants\<close>, \<open>Preservation\<close>: the consistency of the tables (\<open>inv\<close>) and its preservation, one
    lemma per operation.
  \<^item> \<open>System\<close>: the running system as events on the database, the broker and the workers;
    \<open>Timely\<close>, \<open>Capacity\<close>, \<open>Lifecycle\<close>, \<open>Delivery\<close>: invariants of its runs under named conditions.
  \<^item> \<open>Scenarios\<close>: concrete runs for the witnesses; \<open>Moves\<close>: the status changes that happen and a run
    for each; \<open>Lateness\<close>: workers that report after the reaper gave up on their attempt.
  \<^item> \<open>Services\<close>, \<open>Outcomes\<close>, \<open>Recovery\<close>, \<open>Worker\<close>, \<open>Pipeline\<close>, \<open>References\<close>, \<open>Blocking\<close>,
    \<open>Responses\<close>, \<open>Interface\<close> and this theory: the properties, with the lemmas only they need.
  \<^item> \<open>Refinement\<close>, \<open>Requests\<close>, \<open>Platform\<close>: the code that strings transactions together as sequences
    of events; \<open>Platform\<close> holds the task names of \<open>jobs/tasks.py\<close> and the beat schedule of
    \<open>config/settings.py\<close>.

  \<^bold>\<open>How the code is translated.\<close> A service is a function from the database to a result, an
  exception or the value and the new database. A function under \<open>@transaction.atomic\<close> is one
  step: its row locks (\<open>select_for_update\<close>, the unique constraints) order the transactions that
  touch the same rows, and a transaction that raises, or is aborted, leaves the database as it
  was. What is not in a transaction (\<open>heartbeat\<close>, the view's two calls, the loops of the tasks) is
  several steps; the refresh, which the view calls outside a transaction, is also the two commits
  \<open>Ensure_State\<close> and \<open>Save_Readiness\<close>, the second with any values. The broker is the log of the
  messages it accepted: a message may be delivered at any time, again, or never. Clock readings, new UUIDs, the host name, \<open>str\<close> of a foreign exception or value, the
  rows found locked by others (\<open>skip_locked\<close>) and the broker's answers are arguments. An ORM
  statement is the SQL it issues: \<open>save(update_fields=...)\<close> updates those columns of the row with
  the instance's key, a queryset without \<open>order_by\<close> is in table order, which the event \<open>Reorder\<close>
  may change at any time, and with \<open>order_by\<close> a stable sort. Time is an integer count of
  microseconds. Text is ASCII.

  \<^bold>\<open>What the lemmas show.\<close> C1, C2, C4, C5 and C7 are invariants of all reachable states, C2 and C4
  under the condition that the reaper abandons no attempt that a worker still executes (and, for
  C2, that no limit is lowered). C3 and C10 show what the report of a late worker does whenever it
  happens: a slot is given back twice, a finished job runs again; their witnesses are runs in which
  the reaper goes by the lease as the code does. C6 is idempotent submission across any later
  events, C8 and C9 the life cycle, C11 that the changes of status that happen (\<open>Moves\<close> has a run
  for each) are the documented table's but for five, C12 and C13 the outbox.
  C14 to C28 state what each service does on each branch: dispatching and claiming (\<open>Services\<close>),
  where the dispatcher gets stuck (C17, \<open>Blocking\<close>; C18), failing, cancelling, promoting and replaying (\<open>Outcomes\<close>), the outbox batch, recovery
  and the heartbeat (\<open>Recovery\<close>). C29 and C30 are the worker's whole run (\<open>Worker\<close>). C30 and C31
  refine the system: the worker's \<open>execute\<close>, and any sequence of HTTP requests, entries of the beat
  schedule and deliveries (\<open>Platform\<close>), are sequences of its events, so the invariants hold of the
  code that strings the transactions together. C32 composes dispatcher, publisher and worker into
  the way of one job (\<open>Pipeline\<close>); C33 is referential integrity over the declared foreign keys
  (\<open>References\<close>). C34 is reading what was written, over the routing (\<open>Http\<close>) and the rendering
  (\<open>Serializers\<close>) of the API (\<open>Responses\<close>), C35 what a request may change (\<open>Requests\<close>), C36 to C38
  are the edges (\<open>Interface\<close>): the retry law of the simulated handlers, the API's submission and
  the scheduler's blind spot. C39 is the schema: the checks of every INSERT of the
  model are those of the tables the migrations create, which are the declared ones.

  \<^bold>\<open>Interfaces.\<close> \<open>exclusive_locks\<close> (\<open>Overlap\<close>) is the contract of a table of exclusive locks,
  \<open>handler_registry\<close> (\<open>Handlers\<close>) that of the registry, \<open>run_invariant\<close> (\<open>System\<close>) that of an invariant
  of runs, interpreted for the five invariants, \<open>heartbeat_handlers\<close> (\<open>Worker\<close>) that of the handlers
  with the worker.

  \<^bold>\<open>Bounds.\<close> Nothing needs fuel: every loop of the code is over the rows of one query. Column
  ranges are written out: \<open>smallint\<close> up to 32767, \<open>varchar\<close> lengths.

  \<^bold>\<open>What is assumed of the frameworks.\<close> The meaning of the ORM's statements, the resolution of a path
  by Django, the dispatch of a request by method (\<open>handle_request\<close>) and the fields of a model
  serializer (\<open>to_representation\<close>) by Django REST framework are as their documentation says; a JSON
  column returns the value it was given.

  \<^bold>\<open>Not modelled.\<close> Django REST framework's validation (an argument, \<open>Api\<close>) and its spelling of
  values in JSON, its HEAD and OPTIONS and the redirect of a path without its slash, ON DELETE
  (nothing deletes a tenant or a job; that the foreign keys hold is proved, not checked by the
  model), \<open>created_at\<close> and \<open>updated_at\<close> except for the order of the outbox, defaults and help texts
  of the migrations, the settings that only name parts of Django, Celery's own clock, retries of
  delivery and time limit, the registrations of the applications, the re-exports of
  \<open>jobs/models/__init__.py\<close> and the tests. What is left of the files modelled is imports and
  documentation.
\<close>

section \<open>Properties of the system\<close>

text \<open>
  C1. In every state the system can reach, whatever the interleaving of requests, beat tasks,
  workers, crashes and repeated deliveries, the tables are consistent: keys are unique, a job has
  a reservation exactly while it is QUEUED, EXECUTING or CANCEL_REQUESTED, no tenant's counter is
  above its number of reservations, exactly the jobs with a slot hold the locks they ask for, the
  attempts of a job are numbered from 1, no job has more than four, and every finally failed job
  has a dead letter.
\<close>

theorem reachable_consistent:
  assumes "reachable any_event s"
  shows "inv (sys_db s)"
  using assms by (rule weak.good_reachable)

theorem reachable_consistent_witness: "inv (sys_db demo)"
  by (rule reachable_consistent [OF demo_reachable(3)])

text \<open>
  C2. The concurrency limit: while the reaper abandons only attempts no worker executes any more
  and no update lowers a limit, a tenant never has more jobs queued or executing than
  \<open>max_concurrent_jobs\<close>.
\<close>

theorem concurrency_limit:
  assumes "reachable steady s" "t \<in> set (tenants (sys_db s))"
  shows "occupied (ten_id t) (jobs (sys_db s)) \<le> max_concurrent_jobs t"
proof -
  have b: "bounded s" using assms(1) by (rule bounded.good_reachable)
  then have "inv (sys_db s)" by (simp add: bounded_def good_def strong_def)
  then show ?thesis
    using b assms(2) by (simp add: occupied_reservations bounded_def in_limits_def)
qed

theorem concurrency_limit_witness:
  "occupied 1 (jobs (sys_db demo)) = 1 \<and> occupied 1 (jobs (sys_db demo)) \<le> 1"
  using concurrency_limit [OF demo_reachable(1), of "hd (tenants (sys_db demo))"] demo_tables(7)
  by (simp add: demo_tables(1))

text \<open>
  C3. The timely reaper is needed. Take a tenant whose slots are all in use and a worker that is
  still at one of its jobs. If the reaper gives up on that worker's attempt, for whatever reason,
  and the slot goes to another job, then the worker can still complete its attempt; the
  counter then says that a slot is free although none is, and every job that is dispatched next
  is one more than the limit allows.
\<close>

theorem slow_worker_exceeds_limit:
  assumes "reachable timely s"
    and "a \<in> set (attempts (sys_db s))" "att_id a \<in> set (sys_workers s)"
    and "job \<in> set (jobs (sys_db s))" "job_id job = att_job a"
    and "tn \<in> set (tenants (sys_db s))" "ten_id tn = job_tenant job"
    and "occupied (ten_id tn) (jobs (sys_db s)) = max_concurrent_jobs tn"
    and "do_event (Reap n n' i (att_id a)) s = Some s1"
    and "dispatch_next env (ten_id tn) (sys_db s1) = Inr (Some k, d2)"
  shows "\<exists>s3. do_event (Complete m (att_id a) v) (s1\<lparr>sys_db := d2\<rparr>) = Some s3
    \<and> occupied (ten_id tn) (jobs (sys_db s3)) = max_concurrent_jobs tn
    \<and> (\<forall>st \<in> set (scheduler_states (sys_db s3)). ss_tenant st = ten_id tn \<longrightarrow>
         active_reservations st = max_concurrent_jobs tn - 1)
    \<and> (\<forall>env' l d4. dispatch_next env' (ten_id tn) (sys_db s3) = Inr (Some l, d4) \<longrightarrow>
         occupied (ten_id tn) (jobs d4) = Suc (max_concurrent_jobs tn))"
proof -
  let ?d = "sys_db s" and ?t = "ten_id tn"
  have st: "strong ?d" using strong.good_reachable [OF assms(1)] by (simp add: good_def)
  have s1: "s1 = tx (reconcile_attempt n n' i (att_id a) ?d) s" using assms(9) by simp
  obtain d1 where d1: "reconcile_attempt n n' i (att_id a) ?d = Inr d1" "d1 \<noteq> ?d"
    using dispatch_room [OF st _ assms(6) refl] assms(8,10) s1
    by (cases "reconcile_attempt n n' i (att_id a) ?d") fastforce+
  note st1 = strong_reap(1) [OF st d1(1)]
  have disp: "dispatch_next env ?t d1 = Inr (Some k, d2)" using assms(10) by (simp add: s1 d1(1))
  note st2 = strong_dispatch(1) [OF st1 disp]
  obtain a1 j1 where a1: "a1 \<in> set (attempts d1)" "att_id a1 = att_id a"
    and j1: "j1 \<in> set (jobs d1)" "job_id j1 = att_job a1" "job_tenant j1 = ?t"
      "job_status j1 \<in> {RETRY_WAIT, FAILED_FINAL}"
    and less: "Suc (occupied ?t (jobs d1)) = occupied ?t (jobs ?d)"
    by (rule reap_frees [OF st d1 assms(2,4,5)]) (use assms(7) in simp)
  note slot = dispatch_slot [OF strongD(1) [OF st1] disp]
  have j2: "j1 \<in> set (jobs d2)" using j1(1,4) by (intro slot(2)) auto
  have idle: "\<not> occupying (job_status j1)" using j1(4) by auto
  obtain d3 where d3: "complete_job m (att_id a1) v d2 = Inr d3" "inv d3"
    "occupied ?t (jobs d3) = occupied ?t (jobs d2)"
    "\<And>st. st \<in> set (scheduler_states d3) \<Longrightarrow> ss_tenant st = ?t \<Longrightarrow>
       active_reservations st = occupied ?t (jobs d3) - 1"
    using late_completion [OF strongD(1,2) [OF st2] _ j2 j1(2) idle] a1(1) slot(3) j1(3) by metis
  have full: "occupied ?t (jobs d3) = max_concurrent_jobs tn"
    using d3(3) slot(1) less assms(8) by simp
  let ?s3 = "s\<lparr>sys_db := d3, sys_workers := removeAll (att_id a) (sys_workers s)\<rparr>"
  have "do_event (Complete m (att_id a) v) (s1\<lparr>sys_db := d2\<rparr>) = Some ?s3"
    using assms(3) d3(1) a1(2) by (simp add: s1 d1(1))
  moreover have "occupied ?t (jobs d4) = Suc (max_concurrent_jobs tn)"
    if "dispatch_next env' ?t (sys_db ?s3) = Inr (Some l, d4)" for env' l d4
    using dispatch_slot(1) [OF d3(2), of env' ?t l d4] that full by simp
  ultimately show ?thesis using d3(4) full by (intro exI [of _ ?s3]) simp
qed

theorem slow_worker_exceeds_limit_witness:
  "expired_attempts (seconds 304) 100 (sys_db slow_claimed) = [51]
   \<and> (\<exists>s1 k d2 s3 l d4. do_event (Reap (seconds 304) (seconds 304) 91 51) slow_claimed = Some s1
     \<and> dispatch_next (plain_env (seconds 305) 32) 1 (sys_db s1) = Inr (Some k, d2)
     \<and> do_event (Complete (seconds 306) 51 JNull) (s1\<lparr>sys_db := d2\<rparr>) = Some s3
     \<and> dispatch_next (plain_env (seconds 307) 33) 1 (sys_db s3) = Inr (Some l, d4)
     \<and> max_concurrent_jobs (hd (tenants d4)) = 1 \<and> occupied 1 (jobs d4) = 2)"
proof -
  let ?d = "sys_db slow_claimed"
  have x: "expired_attempts (seconds 304) 100 ?d = [51]"
    by (simp add: slow_claimed_def slow_start_def seconds_def run_defs)
  have a: "hd (attempts ?d) \<in> set (attempts ?d)" "att_id (hd (attempts ?d)) = 51"
      "51 \<in> set (sys_workers slow_claimed)"
    and j: "hd (jobs ?d) \<in> set (jobs ?d)" "job_id (hd (jobs ?d)) = att_job (hd (attempts ?d))"
    and t: "hd (tenants ?d) \<in> set (tenants ?d)" "ten_id (hd (tenants ?d)) = 1"
      "job_tenant (hd (jobs ?d)) = 1" "max_concurrent_jobs (hd (tenants ?d)) = 1" "occupied 1 (jobs ?d) = 1"
    by (simp_all add: slow_claimed_def slow_start_def seconds_def run_defs)
  have "\<exists>s1 k d2 s3 l d4. do_event (Reap (seconds 304) (seconds 304) 91 51) slow_claimed = Some s1
    \<and> dispatch_next (plain_env (seconds 305) 32) 1 (sys_db s1) = Inr (Some k, d2)
    \<and> do_event (Complete (seconds 306) 51 JNull) (s1\<lparr>sys_db := d2\<rparr>) = Some s3
    \<and> dispatch_next (plain_env (seconds 307) 33) 1 (sys_db s3) = Inr (Some l, d4)
    \<and> max_concurrent_jobs (hd (tenants d4)) = 1"
    by (simp add: slow_claimed_def slow_start_def seconds_def run_defs)
  then obtain s1 k d2 s3 l d4 where
    r: "do_event (Reap (seconds 304) (seconds 304) 91 51) slow_claimed = Some s1"
      "dispatch_next (plain_env (seconds 305) 32) 1 (sys_db s1) = Inr (Some k, d2)"
    and c: "do_event (Complete (seconds 306) 51 JNull) (s1\<lparr>sys_db := d2\<rparr>) = Some s3"
      "dispatch_next (plain_env (seconds 307) 33) 1 (sys_db s3) = Inr (Some l, d4)"
      "max_concurrent_jobs (hd (tenants d4)) = 1" by blast
  from slow_worker_exceeds_limit [OF slow_claimed_timely a(1) _ j t(1), where v = JNull
      and m = "seconds 306", unfolded a(2) t(2-4), OF a(3) refl t(5) r] r c x
  show ?thesis by (simp only:) fastforce
qed

text \<open>
  C4. With a timely reaper a tenant's counter is exact: \<open>active_reservations\<close> is the number of its
  jobs that are queued or executing.
\<close>

theorem counter_exact:
  assumes "reachable timely s" "st \<in> set (scheduler_states (sys_db s))"
  shows "active_reservations st = occupied (ss_tenant st) (jobs (sys_db s))"
proof -
  have "strong (sys_db s)" using strong.good_reachable [OF assms(1)] by (simp add: good_def)
  then show ?thesis
    using assms(2) by (simp add: occupied_reservations strong_def exact_def)
qed

theorem counter_exact_witness:
  "active_reservations (hd (scheduler_states (sys_db demo)))
     = occupied (ss_tenant (hd (scheduler_states (sys_db demo)))) (jobs (sys_db demo))"
  by (rule counter_exact [OF demo_reachable(2)]) (simp add: demo_def demo_events_def run_defs)

text \<open>
  Without any assumption the counter can only be too low: it never exceeds the number of the
  tenant's jobs in a slot, so it never blocks a tenant that has room.
\<close>

lemma counter_never_above:
  assumes "reachable any_event s" "st \<in> set (scheduler_states (sys_db s))"
  shows "active_reservations st \<le> occupied (ss_tenant st) (jobs (sys_db s))"
proof -
  have v: "inv (sys_db s)" using assms(1) by (rule weak.good_reachable)
  show ?thesis using invD(4) [OF v] assms(2) by (simp add: occupied_reservations [OF v] counts_le_def)
qed

text \<open>
  C5. Mutual exclusion on resources, in every reachable state: of the jobs of a tenant that ask for
  the same non-empty string as their \<open>overlap_key\<close> at most one is queued or executing. (Another
  truthy value is locked under its \<open>str\<close>, an input of the model, and not covered here.)
\<close>

theorem overlap_exclusion:
  assumes "reachable any_event s"
  shows "card {j \<in> set (jobs (sys_db s)). job_tenant j = t \<and> wants j = Some k
    \<and> occupying (job_status j)} \<le> 1"
proof -
  have v: "inv (sys_db s)" using assms by (rule weak.good_reachable)
  let ?J = "{j \<in> set (jobs (sys_db s)). job_tenant j = t \<and> wants j = Some k \<and> occupying (job_status j)}"
  have "i = j" if "i \<in> ?J" "j \<in> ?J" for i j
  proof -
    have "holds (sys_db s) t k (job_id i)" "holds (sys_db s) t k (job_id j)"
      using invD(6) [OF v] that by (auto simp: owners_ok_def holds_def lock_held_def)
    then have "job_id i = job_id j" by (rule locks.exclusive [OF invD(5) [OF v]])
    then show ?thesis using only_row [OF v] that by auto
  qed
  then show ?thesis by (auto simp: card_le_Suc0_iff_eq)
qed

theorem overlap_exclusion_witness:
  "map wants (jobs (sys_db demo)) = [Some ''ledger'', Some ''ledger'']
   \<and> card {j \<in> set (jobs (sys_db demo)). job_tenant j = 1 \<and> wants j = Some ''ledger''
       \<and> occupying (job_status j)} \<le> 1"
  using overlap_exclusion [OF demo_reachable(3), of 1 "''ledger''"]
  by (simp add: demo_def demo_events_def run_defs wants_def)

text \<open>
  C6. Idempotent submission across time: after a submission with a key, whatever happens to the
  system, every later submission of that tenant with that key returns the same job, reports that
  nothing was created, and changes nothing.
\<close>

theorem resubmission:
  assumes "reachable any_event s" "sub_idempotency_key sub = Some k" "k \<noteq> []"
    and "submit_job now i g sub (sys_db s) = Inr ((j, created), d)"
    and "later any_event (s\<lparr>sys_db := d\<rparr>) s'"
    and "sub_tenant sub' = sub_tenant sub" "sub_idempotency_key sub' = Some k"
  shows "\<exists>j'. submit_job now' i' g' sub' (sys_db s') = Inr ((j', False), sys_db s')
    \<and> job_id j' = job_id j \<and> payload j' = payload j"
proof -
  have v: "inv (sys_db s)" using assms(1) by (rule weak.good_reachable)
  have key: "effective_key g sub = k" "effective_key g' sub' = k"
    using assms(2,3,7) by (simp_all add: effective_key_def)
  have d: "inv (sys_db (s\<lparr>sys_db := d\<rparr>))" using inv_submit [OF v assms(4)] by simp
  have "j \<in> set (jobs d) \<and> has_key (sub_tenant sub) k j"
    using assms(4) by (cases rule: submit_job_cases) (auto simp: key has_key_def)
  then obtain j' where j': "j' \<in> set (jobs (sys_db s'))" "job_id j' = job_id j"
    "payload j' = payload j" "has_key (sub_tenant sub) k j'"
    using job_persists [OF assms(5) d, of j] by (auto simp: has_key_def)
  have "keys_unique (sys_db s')" using weak.good_later [OF assms(5) d] by (rule invD)
  then have "submit_job now' i' g' sub' (sys_db s') = Inr ((j', False), sys_db s')"
    using j' key(2) assms(6) by (intro submit_again) simp_all
  then show ?thesis using j' by blast
qed

definition keyed_submission :: submission where
  "keyed_submission = (plain_submission JNull)\<lparr>sub_idempotency_key := Some ''k''\<rparr>"

theorem resubmission_witness:
  "\<exists>j d j'. submit_job 0 21 ''g'' keyed_submission (sys_db demo) = Inr ((j, True), d)
     \<and> submit_job 9 22 ''h'' keyed_submission d = Inr ((j', False), d) \<and> job_id j' = job_id j"
proof -
  obtain j d where jd: "submit_job 0 21 ''g'' keyed_submission (sys_db demo) = Inr ((j, True), d)"
    by (simp add: keyed_submission_def demo_def demo_events_def run_defs)
  have "sub_idempotency_key keyed_submission = Some ''k''"
    by (simp add: keyed_submission_def)
  from resubmission [where now' = 9 and i' = 22 and g' = "''h''",
      OF demo_reachable(3) this _ jd later.later_refl refl this] jd
  show ?thesis by auto
qed

text \<open>
  C7. The attempts of a job are numbered from 1 without gaps or repetitions, as many as
  \<open>attempt_count\<close> says, and no job is ever attempted more than four times: the three delays of
  the retry schedule and the first try.
\<close>

theorem attempts_numbered:
  assumes "reachable any_event s" "j \<in> set (jobs (sys_db s))"
  shows "attempt_number ` set (job_attempts (job_id j) (sys_db s)) = {1..attempt_count j}
    \<and> length (job_attempts (job_id j) (sys_db s)) = attempt_count j \<and> attempt_count j \<le> 4"
proof -
  have v: "inv (sys_db s)" using assms(1) by (rule weak.good_reachable)
  let ?as = "job_attempts (job_id j) (sys_db s)"
  have nums: "attempt_number ` set ?as = {1..attempt_count j}"
    using invD(7) [OF v] assms(2) by (simp add: attempts_ok_def job_attempts_def)
  have "distinct (map (\<lambda>a. (att_job a, attempt_number a)) (attempts (sys_db s)))"
    using invD(7) [OF v] by (simp add: attempts_ok_def)
  then have "distinct (map (\<lambda>a. (att_job a, attempt_number a)) ?as)"
    by (simp add: job_attempts_def distinct_map_filter)
  then have "distinct (map attempt_number ?as)"
    by (auto simp: distinct_map inj_on_def job_attempts_def)
  then have "card (set (map attempt_number ?as)) = length ?as" by (metis distinct_card length_map)
  then have "length ?as = attempt_count j" using nums by simp
  moreover have "attempt_count j \<le> 4" using inv_bounds [OF v assms(2)] by (simp add: row_bounds_def)
  ultimately show ?thesis using nums by blast
qed

theorem attempts_numbered_witness:
  "attempt_count (hd (jobs (sys_db demo))) = 1
   \<and> attempt_number ` set (job_attempts 11 (sys_db demo)) = {1..1}"
proof -
  have j: "hd (jobs (sys_db demo)) \<in> set (jobs (sys_db demo))" "job_id (hd (jobs (sys_db demo))) = 11"
    "attempt_count (hd (jobs (sys_db demo))) = 1"
    by (simp_all add: demo_def demo_events_def run_defs)
  show ?thesis using attempts_numbered [OF demo_reachable(3) j(1)] j(2,3) by simp
qed

text \<open>A finally failed job has exactly one dead letter, and it belongs to the job's tenant.\<close>

lemma one_dead_letter:
  assumes "reachable any_event s" "j \<in> set (jobs (sys_db s))" "job_status j = FAILED_FINAL"
  shows "\<exists>x. {y \<in> set (dead_letters (sys_db s)). dl_job y = job_id j} = {x} \<and> dl_tenant x = job_tenant j"
proof -
  have v: "inv (sys_db s)" using assms(1) by (rule weak.good_reachable)
  obtain x where x: "x \<in> set (dead_letters (sys_db s))" "dl_job x = job_id j"
    using invD(9) [OF v] assms(2,3) unfolding dlq_ok_def by blast
  have "y = x" if "y \<in> set (dead_letters (sys_db s))" "dl_job y = job_id j" for y
    using same_key [OF keyedD(5) [OF invD(1) [OF v]] that(1) x(1)] that(2) x(2) by simp
  then have "{y \<in> set (dead_letters (sys_db s)). dl_job y = job_id j} = {x}" using x by blast
  moreover have "dl_tenant x = job_tenant j"
    using invD(9) [OF v] only_row [OF v assms(2)] x unfolding dlq_ok_def by metis
  ultimately show ?thesis by blast
qed

text \<open>
  C8. The life cycle: with a timely reaper every event changes the status of a stored job only
  along the moves of the services, and no event removes a job or changes its tenant, payload or
  key.
\<close>

theorem life_cycle:
  assumes "reachable timely s" "do_event e s = Some s'" "j \<in> set (jobs (sys_db s))"
  shows "\<exists>j' \<in> set (jobs (sys_db s')). job_id j' = job_id j \<and> job_tenant j' = job_tenant j
    \<and> payload j' = payload j \<and> idempotency_key j' = idempotency_key j
    \<and> (job_status j' = job_status j \<or> moves (job_status j) (job_status j'))"
proof -
  have "good s" using assms(1) by (rule strong.good_reachable)
  from evolves_event [OF this assms(2)] assms(3) show ?thesis
    unfolding evolves_def comes_from_def by metis
qed

theorem life_cycle_witness:
  "\<exists>s' j'. do_event (Complete 6 51 JNull) demo = Some s' \<and> j' \<in> set (jobs (sys_db s'))
     \<and> job_id j' = 11 \<and> (job_status j' = EXECUTING \<or> moves EXECUTING (job_status j'))"
proof -
  obtain s' where s': "do_event (Complete 6 51 JNull) demo = Some s'"
    by (simp add: demo_def demo_events_def run_defs)
  have j: "hd (jobs (sys_db demo)) \<in> set (jobs (sys_db demo))"
    "job_id (hd (jobs (sys_db demo))) = 11" "job_status (hd (jobs (sys_db demo))) = EXECUTING"
    by (simp_all add: demo_def demo_events_def run_defs)
  from life_cycle [OF demo_reachable(2) s' j(1)] j(2,3) s' show ?thesis
    by (simp only:) blast
qed

text \<open>
  C9. Final statuses are final: with a timely reaper a job that is SUCCEEDED, FAILED_FINAL or
  CANCELLED keeps that status for ever.
\<close>

theorem final_statuses_stay:
  assumes "reachable timely s" "j \<in> set (jobs (sys_db s))" "terminal (job_status j)" "later timely s s'"
  shows "\<exists>j' \<in> set (jobs (sys_db s')). job_id j' = job_id j \<and> job_status j' = job_status j"
  using terminal_stays [OF assms(4) strong.good_reachable [OF assms(1)] assms(2,3)] .

theorem final_statuses_stay_witness:
  "\<exists>s'. do_event (Refresh 9 1) dead_demo = Some s'
     \<and> (\<exists>j' \<in> set (jobs (sys_db s')). job_id j' = 11 \<and> job_status j' = FAILED_FINAL)"
proof -
  obtain s' where s': "do_event (Refresh 9 1) dead_demo = Some s'" by simp
  have l: "later timely dead_demo s'" by (rule later.later_step [OF later.later_refl _ s']) simp
  have j: "hd (jobs (sys_db dead_demo)) \<in> set (jobs (sys_db dead_demo))"
    "job_status (hd (jobs (sys_db dead_demo))) = FAILED_FINAL"
    "job_id (hd (jobs (sys_db dead_demo))) = 11"
    by (simp_all add: dead_demo_def dead_events_def demo_def demo_events_def run_defs)
  from final_statuses_stay [OF dead_demo_timely j(1) _ l] j(2,3) s' show ?thesis
    by (simp add: terminal_def)
qed

text \<open>
  C10. With a late worker they are not. Take two workers at different attempts of one job, in any
  reachable state in which there are such workers: the reaper gave up on one of them. When one of
  them completes the job it is SUCCEEDED; when the other then fails, within the first three
  attempts and not for good, the job is RETRY_WAIT, and when the delay is over a batch of retries
  makes it WAITING again.
\<close>

theorem succeeded_job_resurrected:
  assumes "reachable any_event s"
    and "a \<in> set (attempts (sys_db s))" "att_id a \<in> set (sys_workers s)"
    and "b \<in> set (attempts (sys_db s))" "att_id b \<in> set (sys_workers s)"
    and "a \<noteq> b" "att_job a = att_job b"
    and "job \<in> set (jobs (sys_db s))" "job_id job = att_job a"
    and "attempt_count job \<le> 3" "ft \<noteq> PERMANENT"
    and "\<forall>x \<in> set (dead_letters (sys_db s)). dl_id x \<noteq> i"
  shows "\<exists>s1 j1 s2 j2. do_event (Complete m (att_id a) v) s = Some s1
    \<and> j1 \<in> set (jobs (sys_db s1)) \<and> job_id j1 = job_id job \<and> job_status j1 = SUCCEEDED
    \<and> do_event (Fail n i tb lib (att_id b) exc ft) s1 = Some s2
    \<and> j2 \<in> set (jobs (sys_db s2)) \<and> job_id j2 = job_id job \<and> job_status j2 = RETRY_WAIT
    \<and> (\<forall>now rnow l. available_at j2 \<le> now \<longrightarrow>
         (\<exists>s3 j3. do_event (Promote now (\<lambda>k. k \<noteq> job_id job) rnow (Suc l)) s2 = Some s3
            \<and> j3 \<in> set (jobs (sys_db s3)) \<and> job_id j3 = job_id job \<and> job_status j3 = WAITING))"
proof -
  let ?d = "sys_db s"
  have v0: "inv ?d" using assms(1) by (rule weak.good_reachable)
  have ne: "att_id b \<noteq> att_id a"
    using same_key [OF keyedD(2) [OF invD(1) [OF v0]] assms(2,4)] assms(6) by auto
  obtain d1 where d1: "complete_job m (att_id a) v ?d = Inr d1" "inv d1"
    "completed_row m v job \<in> set (jobs d1)" "b \<in> set (attempts d1)" "dead_letters d1 = dead_letters ?d"
    by (rule completed_job [OF v0 assms(2,8,9)]) (use ne assms(4) in blast)
  let ?s1 = "s\<lparr>sys_db := d1, sys_workers := removeAll (att_id a) (sys_workers s)\<rparr>"
  let ?j1 = "completed_row m v job"
  have j1: "job_id ?j1 = job_id job" "job_status ?j1 = SUCCEEDED" "attempt_count ?j1 = attempt_count job"
    by (simp_all add: completed_row_def)
  have "attempt_number b \<in> attempt_number ` {x \<in> set (attempts ?d). att_job x = job_id job}"
    using assms(4,7,9) by simp
  also have "\<dots> = {1..attempt_count job}"
    using invD(7) [OF v0] assms(8) by (simp add: attempts_ok_def)
  finally have "attempt_number b \<in> {1..attempt_count job}" .
  then have ret: "retries ft ?j1" using assms(10,11) by (simp add: retries_def j1(3))
  obtain d2 where d2: "fail_job n i tb lib (att_id b) exc ft d1 = Inr d2" "inv d2"
    "failed_row n ft (exc_str lib exc) ?j1 \<in> set (jobs d2)"
    by (rule retried_job [OF d1(2,4,3) _ ret]) (use d1(5) assms(7,9,12) j1(1) in simp_all)
  let ?s2 = "?s1\<lparr>sys_db := d2, sys_workers := removeAll (att_id b) (removeAll (att_id a) (sys_workers s))\<rparr>"
  let ?j2 = "failed_row n ft (exc_str lib exc) ?j1"
  have j2: "job_id ?j2 = job_id job" "job_status ?j2 = RETRY_WAIT" using ret j1(1) by simp_all
  have "\<exists>s3 j3. do_event (Promote now (\<lambda>k. k \<noteq> job_id job) rnow (Suc l)) ?s2 = Some s3
      \<and> j3 \<in> set (jobs (sys_db s3)) \<and> job_id j3 = job_id job \<and> job_status j3 = WAITING"
    if due: "available_at ?j2 \<le> now" for now rnow l
  proof (rule promote_one [OF d2(2,3) j2(2) due])
    fix c d3
    assume p: "promote_ready_retries now (\<lambda>k. k \<noteq> job_id ?j2) rnow (Suc l) d2 = Inr (c, d3)"
      "?j2\<lparr>job_status := WAITING, ready_since := now\<rparr> \<in> set (jobs d3)"
    show ?thesis
      using p unfolding j2(1)
      by (intro exI [of _ "?s2\<lparr>sys_db := d3\<rparr>"] exI [of _ "?j2\<lparr>job_status := WAITING, ready_since := now\<rparr>"])
        (simp add: j1(1))
  qed
  moreover have "do_event (Complete m (att_id a) v) s = Some ?s1" using assms(3) d1(1) by simp
  moreover have "do_event (Fail n i tb lib (att_id b) exc ft) ?s1 = Some ?s2"
    using assms(5) ne d2(1) by simp
  ultimately show ?thesis
    using d1(3) d2(3) j1 j2
    by (intro exI [of _ ?s1] exI [of _ ?j1] exI [of _ ?s2] exI [of _ ?j2]) simp
qed

theorem succeeded_job_resurrected_witness:
  "\<exists>s1 j1 s2 j2. do_event (Complete (seconds 314) 51 JNull) twice_claimed = Some s1
     \<and> j1 \<in> set (jobs (sys_db s1)) \<and> job_id j1 = 11 \<and> job_status j1 = SUCCEEDED
     \<and> do_event (Fail (seconds 315) 92 [] (\<lambda>_. []) 52 (RetryableJobError []) TRANSIENT) s1 = Some s2
     \<and> j2 \<in> set (jobs (sys_db s2)) \<and> job_id j2 = 11 \<and> job_status j2 = RETRY_WAIT"
proof -
  let ?d = "sys_db twice_claimed"
  let ?a = "hd (attempts ?d)" and ?b = "last (attempts ?d)" and ?j = "hd (jobs ?d)"
  have m: "?a \<in> set (attempts ?d)" "att_id ?a \<in> set (sys_workers twice_claimed)"
    "?b \<in> set (attempts ?d)" "att_id ?b \<in> set (sys_workers twice_claimed)"
    "?a \<noteq> ?b" "att_job ?a = att_job ?b" "?j \<in> set (jobs ?d)" "job_id ?j = att_job ?a"
    "attempt_count ?j \<le> 3"
    and x: "\<forall>x \<in> set (dead_letters ?d). dl_id x \<noteq> 92"
    and e: "att_id ?a = 51" "att_id ?b = 52" "job_id ?j = 11"
    by (simp_all add: twice_defs run_defs)
  have "TRANSIENT \<noteq> PERMANENT" by simp
  from succeeded_job_resurrected [OF twice_claimed_reachable m this x, where m = "seconds 314"
      and n = "seconds 315" and v = JNull and tb = "[]" and lib = "\<lambda>_. []" and exc = "RetryableJobError []"]
  show ?thesis unfolding e by blast
qed

text \<open>
  C11. The services against the documented table: a change of a job's status happens in some run
  with a timely reaper exactly when the table allows it, but for QUEUED to CANCEL_REQUESTED and
  CANCEL_REQUESTED to CANCELLED, which never happen, and for three changes that happen although
  the table forbids them.
\<close>

theorem moves_against_table:
  "happens s t \<longleftrightarrow>
     (validate_transition s t = Inr ()
        \<and> (s, t) \<notin> {(QUEUED, CANCEL_REQUESTED), (CANCEL_REQUESTED, CANCELLED)})
     \<or> (s, t) \<in> {(QUEUED, CANCELLED), (CANCEL_REQUESTED, RETRY_WAIT), (CANCEL_REQUESTED, FAILED_FINAL)}"
  unfolding allowed_def [symmetric] happens_iff
  by (cases s; cases t) (auto elim: moves_terminalE)

text \<open>
  C12. The outbox delivers at least once: in every reachable state a QUEUED job has the dispatch
  event of its own last dispatch in the outbox, as old as its place in the queue, and a job has
  never fewer messages in the log of what the broker accepted than it has published events.
\<close>

theorem outbox_delivers:
  assumes "reachable any_event s"
  shows "(\<forall>j \<in> set (jobs (sys_db s)). job_status j = QUEUED \<longrightarrow>
      (\<exists>ev \<in> set (outbox (sys_db s)). out_job ev = job_id j \<and> queued_at j = Some (out_available_at ev)))
    \<and> length (filter (\<lambda>ev. out_job ev = k \<and> out_status ev = PUBLISHED) (outbox (sys_db s)))
        \<le> count_list (sys_broker s) k"
  using delivery.good_reachable [OF assms]
  by (simp add: delivery_def own_event_def sent_events_def rows_count_def)

theorem outbox_delivers_witness:
  "(\<exists>j ev. j \<in> set (jobs (sys_db slow_end)) \<and> job_status j = QUEUED \<and> ev \<in> set (outbox (sys_db slow_end))
      \<and> out_job ev = job_id j \<and> queued_at j = Some (out_available_at ev))
   \<and> length (filter (\<lambda>ev. out_job ev = 11 \<and> out_status ev = PUBLISHED) (outbox (sys_db slow_end))) = 1
   \<and> 1 \<le> count_list (sys_broker slow_end) 11"
proof -
  have j: "last (jobs (sys_db slow_end)) \<in> set (jobs (sys_db slow_end))"
    "job_status (last (jobs (sys_db slow_end))) = QUEUED"
    and n: "length (filter (\<lambda>ev. out_job ev = 11 \<and> out_status ev = PUBLISHED) (outbox (sys_db slow_end))) = 1"
    by (simp_all add: slow_end_def slow_rest_def slow_claimed_def slow_start_def seconds_def run_defs)
  note out = outbox_delivers [OF slow_end_reachable, of 11]
  from out [THEN conjunct1] j have "\<exists>ev \<in> set (outbox (sys_db slow_end)).
      out_job ev = job_id (last (jobs (sys_db slow_end)))
      \<and> queued_at (last (jobs (sys_db slow_end))) = Some (out_available_at ev)" by blast
  then show ?thesis using j n out [THEN conjunct2] by (simp only:) blast
qed

text \<open>
  C13. The outbox never records a failure: in every reachable state \<open>publish_attempts\<close> is 0 and
  \<open>last_error\<close> empty for every event, however often publishing it failed.
\<close>

theorem failures_never_recorded:
  assumes "reachable any_event s"
  shows "\<forall>ev \<in> set (outbox (sys_db s)). publish_attempts ev = 0 \<and> last_error ev = None"
  using delivery.good_reachable [OF assms] by (simp add: delivery_def)

theorem failures_never_recorded_witness:
  "\<exists>s ev. run_events any_event failed_publish init_sys = Some s
     \<and> ev \<in> set (outbox (sys_db s)) \<and> publish_attempts ev = 0 \<and> last_error ev = None"
proof -
  obtain s where s: "run_events any_event failed_publish init_sys = Some s"
    "hd (outbox (sys_db s)) \<in> set (outbox (sys_db s))"
    by (simp add: failed_publish_def run_defs)
  with failures_never_recorded [OF run_events_reachable [OF s(1)]] show ?thesis by blast
qed

end
